(* ===== verification/GoStrings.thy ===== *)
theory GoStrings
  imports Prelude "HOL-Library.Char_ord" "HOL-Library.List_Lexorder"
begin

text \<open>
  The part of Go's \<open>strings\<close>, \<open>unicode/utf8\<close> and \<open>sort\<close> packages the program calls.
  A Go string is a sequence of bytes, modelled as a \<open>string\<close> (a list of \<open>char\<close>, each one
  byte), so \<open>len(s)\<close> is \<open>length s\<close>.  Functions that look at code points decode UTF-8 the way
  the Go library does, an invalid byte counting as one replacement rune.  The Unicode case
  tables are data the library ships; they are the record \<open>unicode_tables\<close>, an argument of the
  two functions that consult them, and only ever consulted for non-ASCII runes.
\<close>

section \<open>White space: \<open>strings.TrimSpace\<close>\<close>

text \<open>The byte encodings of the runes for which \<open>unicode.IsSpace\<close> holds.\<close>

definition bytes :: "nat list \<Rightarrow> string" where
  "bytes ns = map (char_of :: nat \<Rightarrow> char) ns"

definition ascii_space_chars :: "char list" where
  "ascii_space_chars = [CHR 0x09, CHR 0x0A, CHR 0x0B, CHR 0x0C, CHR 0x0D, CHR 0x20]"

definition wide_spaces :: "string list" where
  "wide_spaces =
     map bytes ([[0xC2, 0x85], [0xC2, 0xA0], [0xE1, 0x9A, 0x80]]
       @ map (\<lambda>b. [0xE2, 0x80, b]) [0x80, 0x81, 0x82, 0x83, 0x84, 0x85, 0x86, 0x87, 0x88, 0x89, 0x8A]
       @ [[0xE2, 0x80, 0xA8], [0xE2, 0x80, 0xA9], [0xE2, 0x80, 0xAF], [0xE2, 0x81, 0x9F],
          [0xE3, 0x80, 0x80]])"

definition go_spaces :: "string list" where
  "go_spaces = map (\<lambda>c. [c]) ascii_space_chars @ wide_spaces"

text \<open>Dropping any of a list of patterns from the front, as long as one matches.\<close>

function strip_front :: "string list \<Rightarrow> string \<Rightarrow> string" where
  "strip_front ws s =
     (case find (\<lambda>w. w \<noteq> [] \<and> prefix w s) ws of
        None \<Rightarrow> s
      | Some w \<Rightarrow> strip_front ws (drop (length w) s))"
  by pat_completeness auto
termination
proof (relation "measure (\<lambda>(ws, s). length s)", simp)
  fix ws :: "string list" and s w :: string
  assume "find (\<lambda>w. w \<noteq> [] \<and> prefix w s) ws = Some w"
  then have w: "w \<noteq> []" "prefix w s"
    by (auto dest: find_SomeD)
  then have "0 < length w" and "length w \<le> length s" and "0 < length s"
    by (auto dest: prefix_length_le)
  then show "((ws, drop (length w) s), ws, s) \<in> measure (\<lambda>(ws, s). length s)"
    by simp
qed

declare strip_front.simps [simp del]

lemma strip_front_stop:
  "find (\<lambda>w. w \<noteq> [] \<and> prefix w s) ws = None \<Longrightarrow> strip_front ws s = s"
  by (simp add: strip_front.simps [of ws s])

lemma strip_front_none: "find (\<lambda>w. w \<noteq> [] \<and> prefix w (strip_front ws s)) ws = None"
proof (induction ws s rule: strip_front.induct)
  case (1 ws s)
  then show ?case
    by (cases "find (\<lambda>w. w \<noteq> [] \<and> prefix w s) ws")
      (simp_all add: strip_front.simps [of ws s])
qed

lemma strip_front_suffix: "suffix (strip_front ws s) s"
proof (induction ws s rule: strip_front.induct)
  case (1 ws s)
  show ?case
  proof (cases "find (\<lambda>w. w \<noteq> [] \<and> prefix w s) ws")
    case None
    then show ?thesis by (simp add: strip_front_stop)
  next
    case (Some w)
    with 1 have "suffix (strip_front ws (drop (length w) s)) (drop (length w) s)" by blast
    then have "suffix (strip_front ws (drop (length w) s)) s"
      using suffix_drop suffix_order.trans by blast
    with Some show ?thesis by (simp add: strip_front.simps [of ws s])
  qed
qed

lemma strip_front_idem [simp]: "strip_front ws (strip_front ws s) = strip_front ws s"
  by (rule strip_front_stop, rule strip_front_none)

definition trim_left :: "string \<Rightarrow> string" where
  "trim_left s = strip_front go_spaces s"

definition trim_right :: "string \<Rightarrow> string" where
  "trim_right s = rev (strip_front (map rev go_spaces) (rev s))"

definition trim_space :: "string \<Rightarrow> string" where
  "trim_space s = trim_right (trim_left s)"

lemma trim_right_prefix: "prefix (trim_right s) s"
  unfolding trim_right_def
  using strip_front_suffix [of "map rev go_spaces" "rev s"]
  by (simp add: suffix_to_prefix)

lemma trim_right_idem [simp]: "trim_right (trim_right s) = trim_right s"
  by (simp add: trim_right_def)

lemma find_None_prefix_mono:
  assumes "find (\<lambda>w. w \<noteq> [] \<and> prefix w s) ws = None" and "prefix t s"
  shows "find (\<lambda>w. w \<noteq> [] \<and> prefix w t) ws = None"
  using assms by (auto simp: find_None_iff dest: prefix_order.trans)

lemma trim_left_trim_right: "trim_left (trim_right (trim_left s)) = trim_right (trim_left s)"
proof -
  have "find (\<lambda>w. w \<noteq> [] \<and> prefix w (trim_left s)) go_spaces = None"
    unfolding trim_left_def by (rule strip_front_none)
  then have "find (\<lambda>w. w \<noteq> [] \<and> prefix w (trim_right (trim_left s))) go_spaces = None"
    using trim_right_prefix by (rule find_None_prefix_mono)
  then show ?thesis
    unfolding trim_left_def by (rule strip_front_stop)
qed

lemma trim_space_idem [simp]: "trim_space (trim_space s) = trim_space s"
  by (simp add: trim_space_def trim_left_trim_right)

lemma set_trim_space: "set (trim_space s) \<subseteq> set s"
proof -
  have "set (trim_left s) \<subseteq> set s"
    unfolding trim_left_def by (rule set_mono_suffix [OF strip_front_suffix])
  moreover have "set (trim_right (trim_left s)) \<subseteq> set (trim_left s)"
    by (rule set_mono_prefix [OF trim_right_prefix])
  ultimately show ?thesis by (auto simp: trim_space_def)
qed

lemma length_trim_space: "length (trim_space s) \<le> length s"
proof -
  have "length (trim_left s) \<le> length s"
    unfolding trim_left_def by (rule suffix_length_le [OF strip_front_suffix])
  moreover have "length (trim_right (trim_left s)) \<le> length (trim_left s)"
    by (rule prefix_length_le [OF trim_right_prefix])
  ultimately show ?thesis by (simp add: trim_space_def)
qed

lemma trim_space_Nil [simp]: "trim_space [] = []"
  using length_trim_space [of "[]"] by simp

text \<open>On an ASCII string only the six ASCII white-space bytes are dropped.\<close>

definition is_ascii :: "string \<Rightarrow> bool" where
  "is_ascii s \<longleftrightarrow> (\<forall>c \<in> set s. of_char c < (128 :: nat))"

lemma is_ascii_simps [simp]:
  "is_ascii []"
  "is_ascii (c # s) \<longleftrightarrow> of_char c < (128 :: nat) \<and> is_ascii s"
  "is_ascii (s @ t) \<longleftrightarrow> is_ascii s \<and> is_ascii t"
  "is_ascii (rev s) \<longleftrightarrow> is_ascii s"
  by (auto simp: is_ascii_def)

lemma is_ascii_dropWhile: "is_ascii s \<Longrightarrow> is_ascii (dropWhile P s)"
  by (auto simp: is_ascii_def dest: set_dropWhileD)

lemma is_ascii_prefix: "prefix w s \<Longrightarrow> is_ascii s \<Longrightarrow> is_ascii w"
  by (auto simp: prefix_def)

lemma wide_spaces_not_ascii: "w \<in> set wide_spaces \<Longrightarrow> \<not> is_ascii w"
  by (auto simp: wide_spaces_def bytes_def)

lemma strip_front_ascii:
  assumes "is_ascii s" and "\<forall>w \<in> set W. \<not> is_ascii w"
  shows "strip_front (map (\<lambda>c. [c]) cs @ W) s = dropWhile (\<lambda>c. c \<in> set cs) s"
  using assms(1)
proof (induction s)
  case Nil
  have "find (\<lambda>w. w \<noteq> [] \<and> prefix w []) (map (\<lambda>c. [c]) cs @ W) = None"
    by (auto simp: find_None_iff)
  then show ?case by (simp add: strip_front_stop)
next
  case (Cons x s)
  have W: "find (\<lambda>w. w \<noteq> [] \<and> prefix w (x # s)) W = None"
  proof -
    have "\<not> prefix w (x # s)" if "w \<in> set W" for w
      using assms(2) Cons.prems that is_ascii_prefix by blast
    then show ?thesis by (auto simp: find_None_iff)
  qed
  have C: "find (\<lambda>w. w \<noteq> [] \<and> prefix w (x # s)) (map (\<lambda>c. [c]) cs) = (if x \<in> set cs then Some [x] else None)"
    by (induction cs) auto
  show ?case
    using W C Cons
    by (simp add: find_append strip_front.simps [of "map (\<lambda>c. [c]) cs @ W" "x # s"])
qed

lemma trim_space_ascii:
  assumes "is_ascii s"
  shows "trim_space s =
    rev (dropWhile (\<lambda>c. c \<in> set ascii_space_chars) (rev (dropWhile (\<lambda>c. c \<in> set ascii_space_chars) s)))"
proof -
  let ?p = "\<lambda>c. c \<in> set ascii_space_chars"
  have l: "trim_left s = dropWhile ?p s"
    unfolding trim_left_def go_spaces_def
    by (rule strip_front_ascii) (simp_all add: assms wide_spaces_not_ascii)
  have revs: "map rev go_spaces = map (\<lambda>c. [c]) ascii_space_chars @ map rev wide_spaces"
    by (simp add: go_spaces_def)
  have "trim_right (dropWhile ?p s) = rev (dropWhile ?p (rev (dropWhile ?p s)))"
    unfolding trim_right_def revs
    by (subst strip_front_ascii) (auto simp: assms is_ascii_dropWhile dest: wide_spaces_not_ascii)
  with l show ?thesis by (simp add: trim_space_def)
qed

text \<open>\<open>strings.TrimLeft\<close> and \<open>strings.TrimRight\<close> with an ASCII cutset.\<close>

definition trim_left_set :: "char list \<Rightarrow> string \<Rightarrow> string" where
  "trim_left_set cs s = dropWhile (\<lambda>c. c \<in> set cs) s"

definition trim_right_set :: "char list \<Rightarrow> string \<Rightarrow> string" where
  "trim_right_set cs s = rev (dropWhile (\<lambda>c. c \<in> set cs) (rev s))"

lemma trim_right_set_idem [simp]:
  "trim_right_set cs (trim_right_set cs s) = trim_right_set cs s"
  by (simp add: trim_right_set_def)

text \<open>\<open>strings.TrimPrefix\<close> and \<open>strings.TrimSuffix\<close>.\<close>

definition trim_prefix :: "string \<Rightarrow> string \<Rightarrow> string" where
  "trim_prefix s p = (if prefix p s then drop (length p) s else s)"

definition trim_suffix :: "string \<Rightarrow> string \<Rightarrow> string" where
  "trim_suffix s p = (if suffix p s then take (length s - length p) s else s)"

section \<open>Split and join\<close>

fun split_on :: "char \<Rightarrow> string \<Rightarrow> string list" where
  "split_on c [] = [[]]"
| "split_on c (x # xs) =
     (if x = c then [] # split_on c xs
      else (case split_on c xs of [] \<Rightarrow> [[x]] | y # ys \<Rightarrow> (x # y) # ys))"

fun join_with :: "string \<Rightarrow> string list \<Rightarrow> string" where
  "join_with sep [] = []"
| "join_with sep [x] = x"
| "join_with sep (x # y # ys) = x @ sep @ join_with sep (y # ys)"

lemma split_on_not_Nil [simp]: "split_on c s \<noteq> []"
  by (induction s) (auto split: list.splits)

lemma split_on_no_sep: "c \<notin> set s \<Longrightarrow> split_on c s = [s]"
  by (induction s) auto

lemma split_on_parts: "p \<in> set (split_on c s) \<Longrightarrow> c \<notin> set p"
proof (induction s arbitrary: p)
  case Nil
  then show ?case by simp
next
  case (Cons x s)
  then show ?case by (cases "split_on c s") (auto split: if_splits)
qed

lemma split_on_append_sep: "c \<notin> set p \<Longrightarrow> split_on c (p @ c # s) = p # split_on c s"
  by (induction p) auto

lemma join_with_Cons: "ys \<noteq> [] \<Longrightarrow> join_with sep (x # ys) = x @ sep @ join_with sep ys"
  by (cases ys) auto

lemma join_split_on: "join_with [c] (split_on c s) = s"
proof (induction s)
  case Nil
  then show ?case by simp
next
  case (Cons x s)
  then show ?case
    by (cases "split_on c s"; cases "tl (split_on c s)")
      (auto simp: join_with_Cons)
qed

lemma split_on_join:
  "xs \<noteq> [] \<Longrightarrow> \<forall>x \<in> set xs. c \<notin> set x \<Longrightarrow> split_on c (join_with [c] xs) = xs"
proof (induction xs)
  case Nil
  then show ?case by simp
next
  case (Cons x xs)
  then show ?case
    by (cases xs) (auto simp: split_on_no_sep split_on_append_sep)
qed

text \<open>Two non-empty lists of separator-free parts are equal when their joins are.\<close>

lemma join_with_inject:
  assumes "xs \<noteq> []" "ys \<noteq> []" "\<forall>x \<in> set xs. c \<notin> set x" "\<forall>y \<in> set ys. c \<notin> set y"
  shows "join_with [c] xs = join_with [c] ys \<longleftrightarrow> xs = ys"
  using assms by (metis split_on_join)

text \<open>\<open>sort.Strings\<close> orders byte-wise; it is the library's \<open>sort\<close> on \<open>char list\<close>.\<close>

definition sort_strings :: "string list \<Rightarrow> string list" where
  "sort_strings xs = sort xs"

text \<open>\<open>strings.SplitN(s, sep, 2)\<close> for a one-byte separator.\<close>

fun split2 :: "char \<Rightarrow> string \<Rightarrow> string list" where
  "split2 c s =
     (if c \<in> set s
      then [takeWhile (\<lambda>x. x \<noteq> c) s, tl (dropWhile (\<lambda>x. x \<noteq> c) s)]
      else [s])"

declare split2.simps [simp del]

text \<open>\<open>strings.ReplaceAll(s, old, new)\<close>: left to right, non-overlapping.  An empty \<open>old\<close> matches
  before every rune and at the end.\<close>

function replace_all_ne :: "string \<Rightarrow> string \<Rightarrow> string \<Rightarrow> string" where
  "replace_all_ne old new s =
     (if old = [] then s
      else case s of
        [] \<Rightarrow> []
      | c # cs \<Rightarrow>
          if prefix old s then new @ replace_all_ne old new (drop (length old) s)
          else c # replace_all_ne old new cs)"
  by pat_completeness auto
termination
  by (relation "measure (\<lambda>(old, new, s). length s)") auto

declare replace_all_ne.simps [simp del]

section \<open>UTF-8 and case\<close>

definition cont_byte :: "nat \<Rightarrow> bool" where
  "cont_byte b = (0x80 \<le> b \<and> b \<le> 0xBF)"

definition rune_error :: nat where
  "rune_error = 0xFFFD"

text \<open>The first rune of a byte sequence and its width, as \<open>utf8.DecodeRune\<close> gives them.\<close>

definition decode_rune :: "nat list \<Rightarrow> nat \<times> nat" where
  "decode_rune bs =
     (case bs of
        [] \<Rightarrow> (rune_error, 0)
      | b0 # r \<Rightarrow>
          if b0 < 0x80 then (b0, 1)
          else if 0xC2 \<le> b0 \<and> b0 \<le> 0xDF then
            (case r of
               b1 # _ \<Rightarrow> if cont_byte b1 then ((b0 - 0xC0) * 64 + (b1 - 0x80), 2) else (rune_error, 1)
             | _ \<Rightarrow> (rune_error, 1))
          else if 0xE0 \<le> b0 \<and> b0 \<le> 0xEF then
            (case r of
               b1 # b2 # _ \<Rightarrow>
                 if (if b0 = 0xE0 then 0xA0 else 0x80) \<le> b1 \<and> b1 \<le> (if b0 = 0xED then 0x9F else 0xBF)
                    \<and> cont_byte b2
                 then ((b0 - 0xE0) * 4096 + (b1 - 0x80) * 64 + (b2 - 0x80), 3) else (rune_error, 1)
             | _ \<Rightarrow> (rune_error, 1))
          else if 0xF0 \<le> b0 \<and> b0 \<le> 0xF4 then
            (case r of
               b1 # b2 # b3 # _ \<Rightarrow>
                 if (if b0 = 0xF0 then 0x90 else 0x80) \<le> b1 \<and> b1 \<le> (if b0 = 0xF4 then 0x8F else 0xBF)
                    \<and> cont_byte b2 \<and> cont_byte b3
                 then ((b0 - 0xF0) * 262144 + (b1 - 0x80) * 4096 + (b2 - 0x80) * 64 + (b3 - 0x80), 4)
                 else (rune_error, 1)
             | _ \<Rightarrow> (rune_error, 1))
          else (rune_error, 1))"

text \<open>The runes of a string, as a \<open>range\<close> loop over it yields them.\<close>

function runes_of :: "nat list \<Rightarrow> nat list" where
  "runes_of bs =
     (case bs of
        [] \<Rightarrow> []
      | b # r \<Rightarrow> (let (x, n) = decode_rune bs in x # runes_of (drop (n - 1) r)))"
  by pat_completeness auto
termination
  by (relation "measure length") auto

declare runes_of.simps [simp del]

definition runes :: "string \<Rightarrow> nat list" where
  "runes s = runes_of (map of_char s)"

definition encode_rune :: "nat \<Rightarrow> nat list" where
  "encode_rune r =
     (if r < 0x80 then [r]
      else if r < 0x800 then [0xC0 + r div 64, 0x80 + r mod 64]
      else if 0x10FFFF < r \<or> (0xD800 \<le> r \<and> r \<le> 0xDFFF) then [0xEF, 0xBF, 0xBD]
      else if r < 0x10000 then [0xE0 + r div 4096, 0x80 + r div 64 mod 64, 0x80 + r mod 64]
      else [0xF0 + r div 262144, 0x80 + r div 4096 mod 64, 0x80 + r div 64 mod 64, 0x80 + r mod 64])"

record unicode_tables =
  lower_table :: "nat \<Rightarrow> nat"
  fold_table :: "nat \<Rightarrow> nat"
  is_letter_table :: "nat \<Rightarrow> bool"
  is_digit_table :: "nat \<Rightarrow> bool"

definition ascii_lower :: "nat \<Rightarrow> nat" where
  "ascii_lower r = (if 65 \<le> r \<and> r \<le> 90 then r + 32 else r)"

text \<open>\<open>unicode.ToLower\<close>, and the representative of a rune's \<open>unicode.SimpleFold\<close> orbit.\<close>

definition lower_rune :: "unicode_tables \<Rightarrow> nat \<Rightarrow> nat" where
  "lower_rune U r = (if r < 128 then ascii_lower r else lower_table U r)"

definition fold_rune :: "unicode_tables \<Rightarrow> nat \<Rightarrow> nat" where
  "fold_rune U r = (if r < 128 then ascii_lower r else fold_table U r)"

definition to_lower :: "unicode_tables \<Rightarrow> string \<Rightarrow> string" where
  "to_lower U s = bytes (concat (map (\<lambda>r. encode_rune (lower_rune U r)) (runes s)))"

definition equal_fold :: "unicode_tables \<Rightarrow> string \<Rightarrow> string \<Rightarrow> bool" where
  "equal_fold U s t \<longleftrightarrow> map (fold_rune U) (runes s) = map (fold_rune U) (runes t)"

lemma equal_fold_refl [simp]: "equal_fold U s s"
  by (simp add: equal_fold_def)

lemma equal_fold_sym: "equal_fold U s t \<Longrightarrow> equal_fold U t s"
  by (simp add: equal_fold_def)

lemma equal_fold_trans: "equal_fold U s t \<Longrightarrow> equal_fold U t u \<Longrightarrow> equal_fold U s u"
  by (simp add: equal_fold_def)

text \<open>On ASCII strings both functions work byte by byte and consult no table.\<close>

lemma runes_of_ascii: "\<forall>b \<in> set bs. b < 128 \<Longrightarrow> runes_of bs = bs"
proof (induction bs)
  case Nil
  then show ?case by (simp add: runes_of.simps [of "[]"])
next
  case (Cons b bs)
  then show ?case by (simp add: runes_of.simps [of "b # bs"] decode_rune_def)
qed

lemma runes_ascii: "is_ascii s \<Longrightarrow> runes s = map of_char s"
  by (simp add: runes_def is_ascii_def runes_of_ascii)

definition ascii_lower_char :: "char \<Rightarrow> char" where
  "ascii_lower_char c = char_of (ascii_lower (of_char c))"

lemma ascii_lower_char_eq:
  "ascii_lower_char c = (if 65 \<le> (of_char c :: nat) \<and> of_char c \<le> (90 :: nat) then char_of ((of_char c :: nat) + 32) else c)"
  by (simp add: ascii_lower_char_def ascii_lower_def)

lemma ascii_lower_less: "n < 128 \<Longrightarrow> ascii_lower n < 128"
  by (simp add: ascii_lower_def)

lemma concat_singletons: "(\<And>x. x \<in> set xs \<Longrightarrow> f x = [g x]) \<Longrightarrow> concat (map f xs) = map g xs"
  by (induction xs) auto

lemma to_lower_ascii: "is_ascii s \<Longrightarrow> to_lower U s = map ascii_lower_char s"
proof -
  assume s: "is_ascii s"
  then have "\<forall>r \<in> set (runes s). encode_rune (lower_rune U r) = [ascii_lower r]"
    by (auto simp: runes_ascii is_ascii_def lower_rune_def encode_rune_def ascii_lower_less)
  then have "concat (map (\<lambda>r. encode_rune (lower_rune U r)) (runes s)) = map ascii_lower (runes s)"
    by (intro concat_singletons) blast
  then have "to_lower U s = bytes (map ascii_lower (runes s))"
    unfolding to_lower_def by simp
  with s show ?thesis
    by (simp add: runes_ascii bytes_def ascii_lower_char_def)
qed

lemma equal_fold_ascii:
  assumes "is_ascii s" and "is_ascii t"
  shows "equal_fold U s t \<longleftrightarrow> map ascii_lower_char s = map ascii_lower_char t"
proof -
  have fold: "map (fold_rune U) (runes u) = map (\<lambda>c. ascii_lower (of_char c)) u" if "is_ascii u" for u
    using that by (auto simp: runes_ascii is_ascii_def fold_rune_def)
  have inj: "inj_on (char_of :: nat \<Rightarrow> char) {..<256}"
    by (rule inj_onI) (metis lessThan_iff mod_less of_char_of)
  have low: "ascii_lower (of_char c) < 256" for c :: char
  proof -
    have "of_char c < (256 :: nat)" by (metis mod_less_divisor of_char_mod_256 zero_less_numeral)
    then show ?thesis by (auto simp: ascii_lower_def)
  qed
  have eq: "map (\<lambda>c. ascii_lower (of_char c)) s = map (\<lambda>c. ascii_lower (of_char c)) t
      \<longleftrightarrow> map ascii_lower_char s = map ascii_lower_char t"
    (is "map ?f s = map ?f t \<longleftrightarrow> _")
  proof
    assume h: "map ascii_lower_char s = map ascii_lower_char t"
    have "map of_char (map ascii_lower_char u) = map ?f u" for u :: string
      using low by (simp add: ascii_lower_char_def)
    with h show "map ?f s = map ?f t" by metis
  next
    assume h: "map ?f s = map ?f t"
    have "map char_of (map ?f u) = map ascii_lower_char u" for u :: string
      by (simp add: ascii_lower_char_def)
    with h show "map ascii_lower_char s = map ascii_lower_char t" by metis
  qed
  show ?thesis using fold [OF assms(1)] fold [OF assms(2)] eq by (simp add: equal_fold_def)
qed

section \<open>Decimal digits: \<open>strconv.Itoa\<close>\<close>

fun nat_digits :: "nat \<Rightarrow> string" where
  "nat_digits n = (if n < 10 then [char_of (48 + n)] else nat_digits (n div 10) @ [char_of (48 + n mod 10)])"

declare nat_digits.simps [simp del]

definition int_string :: "int \<Rightarrow> string" where
  "int_string i = (if i < 0 then CHR ''-'' # nat_digits (nat (- i)) else nat_digits (nat i))"

text \<open>Tables for programs that only meet ASCII text.\<close>

definition ascii_unicode :: unicode_tables where
  "ascii_unicode = \<lparr>lower_table = (\<lambda>r. r), fold_table = (\<lambda>r. r), is_letter_table = (\<lambda>_. False),
     is_digit_table = (\<lambda>_. False)\<rparr>"

lemmas [go_simps] = suffix_to_prefix to_lower_ascii ascii_lower_char_eq trim_space_ascii ascii_space_chars_def trim_prefix_def trim_suffix_def bytes_def int_string_def

end
