(* ===== verification/GoFloat.thy ===== *)
theory GoFloat
  imports Complex_Main GoStrings
begin

text \<open>
  Go's \<open>float64\<close>: IEEE 754 binary64 with round-to-nearest-even.  A finite value is the rational
  it denotes, so an operation is the exact rational operation followed by one rounding to a
  53-bit significand (exponent at least \<open>-1074\<close>), overflowing to an infinity.  The two zeros are
  identified, which no operation of the program can observe.  The lemmas show that rounding is
  monotone on non-negative values and exact on representable ones, which is what the bounds on
  scores rest on.
\<close>

datatype f64 = NaN | PosInf | NegInf | Fin rat

section \<open>Rounding\<close>

abbreviation pow2 :: "int \<Rightarrow> rat" where
  "pow2 e \<equiv> power_int 2 e"

text \<open>The number of bits of a positive integer, and the exponent of the leading bit of a rational.\<close>

function bit_len :: "int \<Rightarrow> nat" where
  "bit_len n = (if n \<le> 0 then 0 else Suc (bit_len (n div 2)))"
  by pat_completeness auto
termination
  by (relation "measure nat") auto

declare bit_len.simps [simp del]

lemma bit_len_bounds: "0 < n \<Longrightarrow> 2 ^ (bit_len n - 1) \<le> n \<and> n < 2 ^ bit_len n \<and> 0 < bit_len n"
proof (induction n rule: bit_len.induct)
  case (1 n)
  show ?case
  proof (cases "n = 1")
    case True
    then show ?thesis by (simp add: bit_len.simps [of 1] bit_len.simps [of 0])
  next
    case False
    with 1 have h: "2 ^ (bit_len (n div 2) - 1) \<le> n div 2" "n div 2 < 2 ^ bit_len (n div 2)"
      "0 < bit_len (n div 2)" by auto
    obtain k where k: "bit_len (n div 2) = Suc k" using h(3) by (cases "bit_len (n div 2)") auto
    have "bit_len n = Suc (Suc k)" using 1(2) k by (simp add: bit_len.simps [of n])
    with h k show ?thesis by auto
  qed
qed

definition ilog2 :: "rat \<Rightarrow> int" where
  "ilog2 q =
     (let (n, d) = quotient_of q;
          e = int (bit_len n) - int (bit_len d)
      in if pow2 e \<le> q then e else e - 1)"

text \<open>Round half to even.\<close>

definition rne :: "rat \<Rightarrow> int" where
  "rne q =
     (let f = \<lfloor>q\<rfloor>; r = q - of_int f
      in if r < 1 / 2 then f else if 1 / 2 < r then f + 1 else if even f then f else f + 1)"

definition ulp_exp :: "rat \<Rightarrow> int" where
  "ulp_exp q = max (- 1074) (ilog2 \<bar>q\<bar> - 52)"

definition round_rat :: "rat \<Rightarrow> rat" where
  "round_rat q =
     (if q = 0 then 0 else of_int (rne (q / pow2 (ulp_exp q))) * pow2 (ulp_exp q))"

definition f64_of_rat :: "rat \<Rightarrow> f64" where
  "f64_of_rat q =
     (let r = round_rat q
      in if r = 0 \<or> ilog2 \<bar>r\<bar> < 1024 then Fin r else if 0 < r then PosInf else NegInf)"

lemma rne_bounds: "\<lfloor>q\<rfloor> \<le> rne q" "rne q \<le> \<lfloor>q\<rfloor> + 1"
  by (auto simp: rne_def Let_def)

lemma rne_of_int [simp]: "rne (of_int k) = k"
  by (simp add: rne_def)

lemma rne_mono: "x \<le> y \<Longrightarrow> rne x \<le> rne y"
proof -
  assume le: "x \<le> y"
  then have fl: "\<lfloor>x\<rfloor> \<le> \<lfloor>y\<rfloor>" by (rule floor_mono)
  show ?thesis
  proof (cases "\<lfloor>x\<rfloor> = \<lfloor>y\<rfloor>")
    case True
    with le show ?thesis by (auto simp: rne_def Let_def)
  next
    case False
    with fl have "\<lfloor>x\<rfloor> + 1 \<le> \<lfloor>y\<rfloor>" by simp
    with rne_bounds [of x] rne_bounds [of y] show ?thesis by linarith
  qed
qed

lemma pow2_pos [simp]: "0 < pow2 e"
  by (simp add: zero_less_power_int)

lemma pow2_mono: "a \<le> b \<Longrightarrow> pow2 a \<le> pow2 b"
  by (rule power_int_increasing) auto

lemma pow2_add: "pow2 (a + b) = pow2 a * pow2 b"
  by (simp add: power_int_add)

lemma pow2_nat: "pow2 (int n) = 2 ^ n"
  by simp

lemma pow2_of_int_bounds:
  assumes "2 ^ (k - 1) \<le> n" "n < 2 ^ k" "0 < k"
  shows "pow2 (int k - 1) \<le> of_int n" and "of_int n < pow2 (int k)"
proof -
  have "of_int (2 ^ (k - 1)) \<le> (of_int n :: rat)" using assms(1) by (simp only: of_int_le_iff)
  moreover have "pow2 (int k - 1) = 2 ^ (k - 1)"
    using assms(3) pow2_nat [of "k - 1"] by (simp add: of_nat_diff)
  ultimately show "pow2 (int k - 1) \<le> of_int n" by simp
  have "(of_int n :: rat) < of_int (2 ^ k)" using assms(2) by (simp only: of_int_less_iff)
  then show "of_int n < pow2 (int k)" by simp
qed

lemma ilog2_bounds:
  assumes "0 < q"
  shows "pow2 (ilog2 q) \<le> q" and "q < pow2 (ilog2 q + 1)"
proof -
  obtain n d where nd: "quotient_of q = (n, d)" by (cases "quotient_of q") auto
  then have q: "q = of_int n / of_int d" by (rule quotient_of_div)
  have d: "0 < d" using nd by (rule quotient_of_denom_pos)
  with assms q have n: "0 < n" by (simp add: zero_less_divide_iff)
  define a b where "a = bit_len n" and "b = bit_len d"
  have bn: "2 ^ (a - 1) \<le> n" "n < 2 ^ a" "0 < a" using bit_len_bounds [OF n] by (auto simp: a_def)
  have bd: "2 ^ (b - 1) \<le> d" "d < 2 ^ b" "0 < b" using bit_len_bounds [OF d] by (auto simp: b_def)
  have N: "pow2 (int a - 1) \<le> of_int n" "of_int n < pow2 (int a)"
    using bn by (rule pow2_of_int_bounds)+
  have D: "pow2 (int b - 1) \<le> of_int d" "of_int d < pow2 (int b)"
    using bd by (rule pow2_of_int_bounds)+
  define e where "e = int a - int b"
  have dpos: "(0 :: rat) < of_int d" using d by simp
  have lo: "pow2 (e - 1) \<le> q"
  proof -
    have "pow2 (e - 1) * of_int d \<le> pow2 (e - 1) * pow2 (int b)"
      using D(2) by (intro mult_left_mono) auto
    also have "\<dots> = pow2 (e - 1 + int b)" by (simp only: pow2_add)
    also have "\<dots> = pow2 (int a - 1)" by (rule arg_cong [of _ _ pow2]) (simp add: e_def)
    also have "\<dots> \<le> of_int n" by (rule N)
    finally show ?thesis using dpos by (simp add: q pos_le_divide_eq)
  qed
  have hi: "q < pow2 (e + 1)"
  proof -
    have "of_int n < pow2 (int a)" by (rule N)
    also have "\<dots> = pow2 (e + 1 + (int b - 1))" by (rule arg_cong [of _ _ pow2]) (simp add: e_def)
    also have "\<dots> = pow2 (e + 1) * pow2 (int b - 1)" by (simp only: pow2_add)
    also have "\<dots> \<le> pow2 (e + 1) * of_int d"
      using D(1) by (intro mult_left_mono) auto
    finally show ?thesis using dpos by (simp add: q pos_divide_less_eq)
  qed
  have "ilog2 q = (if pow2 e \<le> q then e else e - 1)"
    by (simp add: ilog2_def nd e_def a_def b_def)
  then show "pow2 (ilog2 q) \<le> q" and "q < pow2 (ilog2 q + 1)"
    using lo hi by (auto split: if_splits)
qed

lemma ilog2_le_iff: "0 < q \<Longrightarrow> q < pow2 (k + 1) \<Longrightarrow> ilog2 q \<le> k"
proof (rule ccontr)
  assume "0 < q" "q < pow2 (k + 1)" "\<not> ilog2 q \<le> k"
  then have "pow2 (k + 1) \<le> pow2 (ilog2 q)" by (intro pow2_mono) auto
  with ilog2_bounds(1) [OF \<open>0 < q\<close>] \<open>q < pow2 (k + 1)\<close> show False by linarith
qed

lemma ilog2_mono: "0 < p \<Longrightarrow> p \<le> q \<Longrightarrow> ilog2 p \<le> ilog2 q"
  using ilog2_bounds(2) [of q] by (intro ilog2_le_iff) auto

text \<open>Values with at most 53 significant bits are not changed by rounding.\<close>

lemma round_rat_exact:
  assumes m: "0 \<le> m" "m < 2 ^ 53" and e: "- 1074 \<le> e"
  shows "round_rat (of_int m * pow2 e) = of_int m * pow2 e"
proof (cases "m = 0")
  case True
  then show ?thesis by (simp add: round_rat_def)
next
  case False
  define q u where "q = of_int m * pow2 e" and "u = ulp_exp (of_int m * pow2 e)"
  have qpos: "0 < q" using False m(1) by (simp add: q_def)
  have "(of_int m :: rat) < of_int (2 ^ 53)" using m(2) by (simp only: of_int_less_iff)
  then have "q < pow2 53 * pow2 e" by (simp add: q_def)
  also have "\<dots> = pow2 (53 + e)" by (simp only: pow2_add)
  also have "\<dots> = pow2 (e + 52 + 1)" by (rule arg_cong [of _ _ pow2]) simp
  finally have "ilog2 q \<le> e + 52" by (rule ilog2_le_iff [OF qpos])
  then have ue: "u \<le> e" using e qpos by (simp add: u_def ulp_exp_def flip: q_def)
  define k where "k = m * 2 ^ nat (e - u)"
  have "q = of_int k * pow2 u"
  proof -
    have "pow2 e = pow2 (int (nat (e - u)) + u)" using ue by simp
    then have "pow2 e = 2 ^ nat (e - u) * pow2 u" by (simp only: pow2_add pow2_nat)
    then show ?thesis by (simp add: q_def k_def)
  qed
  then have "q / pow2 u = of_int k" by (simp add: less_imp_neq [OF pow2_pos, THEN not_sym])
  then have "rne (q / pow2 u) = k" by (simp only: rne_of_int)
  moreover have "round_rat q = of_int (rne (q / pow2 u)) * pow2 u"
    using qpos False by (simp add: round_rat_def u_def q_def)
  ultimately have "round_rat q = q" using \<open>q = of_int k * pow2 u\<close> by simp
  then show ?thesis by (simp only: q_def)
qed

lemma round_rat_nonneg: "0 \<le> q \<Longrightarrow> 0 \<le> round_rat q"
proof -
  assume "0 \<le> q"
  then have "0 \<le> q / pow2 (ulp_exp q)" by (simp add: less_imp_le)
  then have "rne 0 \<le> rne (q / pow2 (ulp_exp q))" by (rule rne_mono)
  moreover have "rne 0 = 0" using rne_of_int [of 0] by simp
  ultimately show ?thesis by (simp add: round_rat_def less_imp_le)
qed

lemma round_rat_mono:
  assumes "0 \<le> p" and "p \<le> q"
  shows "round_rat p \<le> round_rat q"
proof (cases "p = 0")
  case True
  then show ?thesis using round_rat_nonneg [of q] assms by (simp add: round_rat_def)
next
  case False
  with assms have p: "0 < p" and q: "0 < q" by auto
  define u v where "u = ulp_exp p" and "v = ulp_exp q"
  have uv: "u \<le> v" using ilog2_mono [OF p assms(2)] p q by (simp add: u_def v_def ulp_exp_def)
  have rp: "round_rat p = of_int (rne (p / pow2 u)) * pow2 u"
    and rq: "round_rat q = of_int (rne (q / pow2 v)) * pow2 v"
    using p q by (auto simp: round_rat_def u_def v_def)
  show ?thesis
  proof (cases "u = v")
    case True
    have "p / pow2 u \<le> q / pow2 u" using assms(2) by (simp add: divide_right_mono less_imp_le)
    then have "rne (p / pow2 u) \<le> rne (q / pow2 u)" by (rule rne_mono)
    then show ?thesis using True by (simp add: rp rq mult_right_mono less_imp_le)
  next
    case False
    with uv have less: "u < v" by simp
    then have "v = ilog2 q - 52" using q by (auto simp: u_def v_def ulp_exp_def)
    then have "pow2 (v + 52) \<le> q" using ilog2_bounds(1) [OF q] by simp
    then have "pow2 52 \<le> q / pow2 v" by (simp add: pow2_add pos_le_divide_eq mult.commute)
    then have "rne (of_int (2 ^ 52)) \<le> rne (q / pow2 v)" by (intro rne_mono) simp
    then have "(of_int (2 ^ 52) :: rat) \<le> of_int (rne (q / pow2 v))" by (simp only: rne_of_int of_int_le_iff)
    then have hi: "pow2 52 * pow2 v \<le> round_rat q" unfolding rq by (intro mult_right_mono) auto
    have "p < pow2 (u + 53)"
    proof -
      have "pow2 (ilog2 p + 1) \<le> pow2 (u + 53)" using p by (intro pow2_mono) (simp add: u_def ulp_exp_def)
      with ilog2_bounds(2) [OF p] show ?thesis by linarith
    qed
    then have "p / pow2 u \<le> pow2 53" by (simp add: pow2_add pos_divide_le_eq mult.commute less_imp_le)
    then have "rne (p / pow2 u) \<le> rne (of_int (2 ^ 53))" by (intro rne_mono) simp
    then have "(of_int (rne (p / pow2 u)) :: rat) \<le> of_int (2 ^ 53)" by (simp only: rne_of_int of_int_le_iff)
    then have "round_rat p \<le> pow2 53 * pow2 u" unfolding rp by (intro mult_right_mono) auto
    also have "\<dots> = pow2 (u + 53)" by (simp add: pow2_add)
    also have "\<dots> \<le> pow2 (v + 52)" using less by (intro pow2_mono) simp
    also have "\<dots> = pow2 52 * pow2 v" by (simp add: pow2_add)
    also note hi
    finally show ?thesis .
  qed
qed

lemma f64_of_rat_small:
  assumes "0 \<le> round_rat q" "round_rat q < pow2 1000"
  shows "f64_of_rat q = Fin (round_rat q)"
proof (cases "round_rat q = 0")
  case True
  then show ?thesis by (simp add: f64_of_rat_def)
next
  case False
  with assms have "ilog2 (round_rat q) \<le> 999" by (intro ilog2_le_iff) auto
  with assms show ?thesis by (simp add: f64_of_rat_def)
qed

lemma of_nat_less_pow2: "n < 2 ^ 53 \<Longrightarrow> of_nat n < pow2 1000"
proof -
  assume "n < 2 ^ 53"
  then have "of_nat n < (of_nat (2 ^ 53) :: rat)" by (simp only: of_nat_less_iff)
  then have "of_nat n < pow2 53" by simp
  also have "\<dots> \<le> pow2 1000" by (rule pow2_mono) simp
  finally show ?thesis .
qed

lemma round_rat_of_nat:
  assumes "n < 2 ^ 53"
  shows "round_rat (of_nat n) = of_nat n"
proof -
  have "int n < int (2 ^ 53)" using assms by (simp only: of_nat_less_iff)
  then have "round_rat (of_int (int n) * pow2 0) = of_int (int n) * pow2 0"
    by (intro round_rat_exact) auto
  then show ?thesis by simp
qed

section \<open>Arithmetic and comparison\<close>

fun f64_add :: "f64 \<Rightarrow> f64 \<Rightarrow> f64" where
  "f64_add (Fin a) (Fin b) = f64_of_rat (a + b)"
| "f64_add NaN _ = NaN"
| "f64_add _ NaN = NaN"
| "f64_add PosInf NegInf = NaN"
| "f64_add NegInf PosInf = NaN"
| "f64_add PosInf _ = PosInf"
| "f64_add _ PosInf = PosInf"
| "f64_add NegInf _ = NegInf"
| "f64_add _ NegInf = NegInf"

definition f64_signed_inf :: "bool \<Rightarrow> f64" where
  "f64_signed_inf pos = (if pos then PosInf else NegInf)"

fun f64_mul :: "f64 \<Rightarrow> f64 \<Rightarrow> f64" where
  "f64_mul (Fin a) (Fin b) = f64_of_rat (a * b)"
| "f64_mul NaN _ = NaN"
| "f64_mul _ NaN = NaN"
| "f64_mul (Fin a) PosInf = (if a = 0 then NaN else f64_signed_inf (0 < a))"
| "f64_mul (Fin a) NegInf = (if a = 0 then NaN else f64_signed_inf (a < 0))"
| "f64_mul PosInf (Fin b) = (if b = 0 then NaN else f64_signed_inf (0 < b))"
| "f64_mul NegInf (Fin b) = (if b = 0 then NaN else f64_signed_inf (b < 0))"
| "f64_mul PosInf PosInf = PosInf"
| "f64_mul NegInf NegInf = PosInf"
| "f64_mul PosInf NegInf = NegInf"
| "f64_mul NegInf PosInf = NegInf"

fun f64_le :: "f64 \<Rightarrow> f64 \<Rightarrow> bool" where
  "f64_le NaN _ = False"
| "f64_le _ NaN = False"
| "f64_le NegInf _ = True"
| "f64_le _ PosInf = True"
| "f64_le (Fin a) (Fin b) = (a \<le> b)"
| "f64_le _ _ = False"

fun f64_less :: "f64 \<Rightarrow> f64 \<Rightarrow> bool" where
  "f64_less NaN _ = False"
| "f64_less _ NaN = False"
| "f64_less x y = (\<not> f64_le y x)"

fun f64_is_nan :: "f64 \<Rightarrow> bool" where
  "f64_is_nan NaN = True"
| "f64_is_nan _ = False"

text \<open>\<open>math.IsInf(x, 0)\<close>.\<close>

fun f64_is_inf :: "f64 \<Rightarrow> bool" where
  "f64_is_inf PosInf = True"
| "f64_is_inf NegInf = True"
| "f64_is_inf _ = False"

definition f64_of_int :: "int \<Rightarrow> f64" where
  "f64_of_int n = f64_of_rat (of_int n)"

text \<open>A finite value between \<open>0\<close> and a bound.\<close>

definition fin_within :: "rat \<Rightarrow> f64 \<Rightarrow> bool" where
  "fin_within b x \<longleftrightarrow> (\<exists>q. x = Fin q \<and> 0 \<le> q \<and> q \<le> b)"

lemma fin_withinI: "x = Fin q \<Longrightarrow> 0 \<le> q \<Longrightarrow> q \<le> b \<Longrightarrow> fin_within b x"
  by (auto simp: fin_within_def)

lemma fin_within_not_special: "fin_within b x \<Longrightarrow> \<not> f64_is_nan x \<and> \<not> f64_is_inf x"
  by (auto simp: fin_within_def)

lemma fin_within_mono: "fin_within b x \<Longrightarrow> b \<le> c \<Longrightarrow> fin_within c x"
  by (auto simp: fin_within_def)

lemma f64_of_rat_within:
  assumes "0 \<le> q" "q \<le> of_nat n" "n < 2 ^ 53"
  shows "fin_within (of_nat n) (f64_of_rat q)"
proof -
  have r: "0 \<le> round_rat q" by (rule round_rat_nonneg [OF assms(1)])
  have "round_rat q \<le> round_rat (of_nat n)" by (rule round_rat_mono [OF assms(1,2)])
  then have le: "round_rat q \<le> of_nat n" using assms(3) by (simp add: round_rat_of_nat)
  with of_nat_less_pow2 [OF assms(3)] have "round_rat q < pow2 1000" by linarith
  with r have "f64_of_rat q = Fin (round_rat q)" by (rule f64_of_rat_small)
  then show ?thesis using r le by (rule fin_withinI)
qed

lemma f64_mul_within:
  assumes "fin_within (of_nat a) x" "fin_within (of_nat b) y" "a * b < 2 ^ 53"
  shows "fin_within (of_nat (a * b)) (f64_mul x y)"
proof -
  from assms obtain p q where pq: "x = Fin p" "y = Fin q" "0 \<le> p" "p \<le> of_nat a" "0 \<le> q" "q \<le> of_nat b"
    by (auto simp: fin_within_def)
  then have "p * q \<le> of_nat (a * b)" by (simp add: mult_mono)
  then show ?thesis using pq assms(3) by (simp only: f64_mul.simps) (rule f64_of_rat_within; simp)
qed

lemma f64_add_within:
  assumes "fin_within (of_nat a) x" "fin_within (of_nat b) y" "a + b < 2 ^ 53"
  shows "fin_within (of_nat (a + b)) (f64_add x y)"
proof -
  from assms obtain p q where pq: "x = Fin p" "y = Fin q" "0 \<le> p" "p \<le> of_nat a" "0 \<le> q" "q \<le> of_nat b"
    by (auto simp: fin_within_def)
  then have "p + q \<le> of_nat (a + b)" by (simp add: add_mono)
  then show ?thesis using pq assms(3) by (simp only: f64_add.simps) (rule f64_of_rat_within; simp)
qed

text \<open>Integers below \<open>2 ^ 53\<close> are added exactly.\<close>

lemma f64_of_rat_nat:
  assumes "n < 2 ^ 53"
  shows "f64_of_rat (of_nat n) = Fin (of_nat n)"
  using f64_of_rat_small [of "of_nat n"] of_nat_less_pow2 [OF assms] round_rat_of_nat [OF assms]
  by simp

lemma f64_add_nat: "a + b < 2 ^ 53 \<Longrightarrow> f64_add (Fin (of_nat a)) (Fin (of_nat b)) = Fin (of_nat (a + b))"
  using f64_of_rat_nat [of "a + b"] by simp

lemma f64_mul_nat: "a * b < 2 ^ 53 \<Longrightarrow> f64_mul (Fin (of_nat a)) (Fin (of_nat b)) = Fin (of_nat (a * b))"
  using f64_of_rat_nat [of "a * b"] by simp

section \<open>Formatting: the verb \<open>%.2f\<close>\<close>

definition two_digits :: "nat \<Rightarrow> string" where
  "two_digits n = [char_of (48 + n div 10 mod 10), char_of (48 + n mod 10)]"

fun format_2f :: "f64 \<Rightarrow> string" where
  "format_2f NaN = ''NaN''"
| "format_2f PosInf = ''+Inf''"
| "format_2f NegInf = ''-Inf''"
| "format_2f (Fin q) =
     (let n = rne (\<bar>q\<bar> * 100)
      in (if q < 0 then ''-'' else '''') @ nat_digits (nat n div 100) @ ''.'' @ two_digits (nat n mod 100))"

end
