(* ===== verification/GoTime.thy ===== *)
theory GoTime
  imports GoFloat "HOL-Library.Word"
begin

text \<open>
  Go's \<open>time\<close> package as far as the program uses it.  A \<open>time.Time\<close> is a number of nanoseconds
  since the Unix epoch, a \<open>time.Duration\<close> an \<open>int64\<close> number of nanoseconds kept as an \<open>int\<close> in
  the range of that type: products of durations wrap around as the machine's do, and
  differences of times saturate as \<open>Time.Sub\<close> does.
\<close>

type_synonym time = int
type_synonym duration = int

text \<open>The zero \<open>time.Time\<close>, for which \<open>IsZero\<close> holds: 1 January of year 1.\<close>

definition zero_time :: time where
  "zero_time = - 62135596800000000000"

definition second :: duration where
  "second = 1000000000"

definition minute :: duration where
  "minute = 60 * second"

text \<open>The \<open>int64\<close> an integer is reduced to.\<close>

definition wrap_int64 :: "int \<Rightarrow> int" where
  "wrap_int64 n = sint (word_of_int n :: 64 word)"

lemma wrap_int64_id:
  assumes "- (2 ^ 63) \<le> n" and "n < 2 ^ 63"
  shows "wrap_int64 n = n"
proof -
  have "wrap_int64 n = signed_take_bit 63 n"
    by (simp add: wrap_int64_def sint_sbintrunc')
  also have "\<dots> = n" by (rule signed_take_bit_int_eq_self) (use assms in auto)
  finally show ?thesis .
qed

lemma wrap_int64_add: "wrap_int64 (wrap_int64 a + b) = wrap_int64 (a + b)"
  by (simp add: wrap_int64_def)

text \<open>\<open>time.Duration(n) * time.Second\<close>.\<close>

definition seconds_duration :: "int \<Rightarrow> duration" where
  "seconds_duration n = wrap_int64 (wrap_int64 n * second)"

lemma seconds_duration_exact:
  assumes "0 \<le> n" and "n \<le> 9223372036"
  shows "seconds_duration n = n * second"
proof -
  have "wrap_int64 n = n" using assms by (intro wrap_int64_id) auto
  moreover have "wrap_int64 (n * second) = n * second"
    using assms by (intro wrap_int64_id) (auto simp: second_def)
  ultimately show ?thesis by (simp add: seconds_duration_def)
qed

definition time_sub :: "time \<Rightarrow> time \<Rightarrow> duration" where
  "time_sub t u = max (- (2 ^ 63)) (min (2 ^ 63 - 1) (t - u))"

section \<open>\<open>Duration.Seconds\<close> and its conversion to an integer\<close>

fun f64_div :: "f64 \<Rightarrow> f64 \<Rightarrow> f64" where
  "f64_div (Fin a) (Fin b) =
     (if b = 0 then if a = 0 then NaN else f64_signed_inf (0 < a) else f64_of_rat (a / b))"
| "f64_div (Fin a) PosInf = Fin 0"
| "f64_div (Fin a) NegInf = Fin 0"
| "f64_div PosInf (Fin b) = f64_signed_inf (0 \<le> b)"
| "f64_div NegInf (Fin b) = f64_signed_inf (b < 0)"
| "f64_div _ _ = NaN"

definition quot_int :: "int \<Rightarrow> int \<Rightarrow> int" where
  "quot_int a b = sgn a * sgn b * (\<bar>a\<bar> div \<bar>b\<bar>)"

definition rem_int :: "int \<Rightarrow> int \<Rightarrow> int" where
  "rem_int a b = a - b * quot_int a b"

definition duration_seconds :: "duration \<Rightarrow> f64" where
  "duration_seconds d =
     f64_add (f64_of_int (quot_int d second))
       (f64_div (f64_of_int (rem_int d second)) (f64_of_int second))"

text \<open>\<open>int(x)\<close>: truncation; what amd64 returns for a value that does not fit is the least \<open>int64\<close>.\<close>

fun f64_to_int :: "f64 \<Rightarrow> int" where
  "f64_to_int (Fin q) =
     (let n = (if 0 \<le> q then \<lfloor>q\<rfloor> else \<lceil>q\<rceil>)
      in if - (2 ^ 63) \<le> n \<and> n < 2 ^ 63 then n else - (2 ^ 63))"
| "f64_to_int _ = - (2 ^ 63)"

text \<open>
  For a duration of less than \<open>2 ^ 23\<close> seconds (97 days) the two roundings of the conversion never
  reach the next integer, so the result is the number of whole seconds.
\<close>

lemma fraction_bound:
  assumes "0 \<le> r" and "r < second"
  shows "0 \<le> round_rat (of_int r / of_int second)"
    and "round_rat (of_int r / of_int second) \<le> of_int (2 ^ 30 - 1) * pow2 (- 30)"
proof -
  have nn: "0 \<le> (of_int r / of_int second :: rat)" using assms by (simp add: second_def)
  show "0 \<le> round_rat (of_int r / of_int second)" using nn by (rule round_rat_nonneg)
  have "of_int r \<le> (of_int (second - 1) :: rat)" using assms(2) by (simp only: of_int_le_iff)
  then have "(of_int r / of_int second :: rat) \<le> of_int (second - 1) / of_int second"
    by (intro divide_right_mono) (auto simp: second_def)
  also have "\<dots> \<le> of_int (2 ^ 30 - 1) * pow2 (- 30)" by (simp add: second_def power_int_def power_divide)
  finally have "round_rat (of_int r / of_int second) \<le> round_rat (of_int (2 ^ 30 - 1) * pow2 (- 30))"
    by (rule round_rat_mono [OF nn])
  also have "\<dots> = of_int (2 ^ 30 - 1) * pow2 (- 30)" by (rule round_rat_exact) auto
  finally show "round_rat (of_int r / of_int second) \<le> of_int (2 ^ 30 - 1) * pow2 (- 30)" .
qed

lemma f64_of_int_small:
  assumes "0 \<le> n" and "n < 2 ^ 53"
  shows "f64_of_int n = Fin (of_int n)"
proof -
  have "nat n < 2 ^ 53" using assms by (simp add: nat_less_iff)
  then show ?thesis using f64_of_rat_nat [of "nat n"] assms(1) by (simp add: f64_of_int_def)
qed

lemma seconds_sum_bound:
  assumes "0 \<le> s" "s < 2 ^ 23 - 1" "0 \<le> x" "x \<le> of_int (2 ^ 30 - 1) * pow2 (- 30)"
  shows "of_int s \<le> round_rat (of_int s + x)" and "round_rat (of_int s + x) < of_int (s + 1)"
proof -
  have s0: "(0 :: rat) \<le> of_int s" using assms(1) by simp
  have "round_rat (of_int s * pow2 0) = of_int s * pow2 0"
    using assms(1,2) by (intro round_rat_exact) auto
  moreover have "round_rat (of_int s) \<le> round_rat (of_int s + x)"
    using s0 assms(3) by (intro round_rat_mono) auto
  ultimately show "of_int s \<le> round_rat (of_int s + x)" by simp
  have eq: "of_int s + of_int (2 ^ 30 - 1) * pow2 (- 30) = of_int ((s + 1) * 2 ^ 30 - 1) * pow2 (- 30)"
    by (simp add: power_int_def field_simps)
  have "round_rat (of_int s + x) \<le> round_rat (of_int ((s + 1) * 2 ^ 30 - 1) * pow2 (- 30))"
    unfolding eq [symmetric] using s0 assms(3,4) by (intro round_rat_mono) auto
  also have "\<dots> = of_int ((s + 1) * 2 ^ 30 - 1) * pow2 (- 30)"
    using assms(1,2) by (intro round_rat_exact) auto
  also have "\<dots> < of_int (s + 1)" by (simp add: power_int_def field_simps)
  finally show "round_rat (of_int s + x) < of_int (s + 1)" .
qed

lemma duration_seconds_whole:
  assumes "0 \<le> d" and "d div second < 2 ^ 23 - 1"
  shows "f64_to_int (duration_seconds d) = d div second"
proof -
  define s r where "s = d div second" and "r = d mod second"
  have sec: "0 < second" by (simp add: second_def)
  have q: "quot_int d second = s" using assms(1) sec by (cases "d = 0") (auto simp: quot_int_def s_def)
  have rm: "rem_int d second = r" by (simp add: rem_int_def q) (simp add: s_def r_def minus_mult_div_eq_mod)
  have s: "0 \<le> s" "s < 2 ^ 23 - 1" using assms sec by (auto simp: s_def pos_imp_zdiv_nonneg_iff)
  have r: "0 \<le> r" "r < second" using sec by (auto simp: r_def)
  define x where "x = round_rat (of_int r / of_int second)"
  have x: "0 \<le> x" "x \<le> of_int (2 ^ 30 - 1) * pow2 (- 30)"
    using fraction_bound [OF r] by (simp_all add: x_def)
  have xs: "x < pow2 1000"
  proof -
    have "x \<le> 1" using x(2) by (simp add: power_int_def power_divide)
    moreover have "pow2 0 < pow2 1000" by (rule power_int_strict_increasing) auto
    ultimately show ?thesis by simp
  qed
  define y where "y = round_rat (of_int s + x)"
  have y: "of_int s \<le> y" "y < of_int (s + 1)"
    using seconds_sum_bound [OF s x] by (simp_all add: y_def)
  have ys: "y < pow2 1000"
  proof -
    have "(of_int (s + 1) :: rat) \<le> of_int (2 ^ 23)" using s(2) by (simp only: of_int_le_iff)
    with y(2) have "y < of_int (2 ^ 23)" by linarith
    also have "\<dots> = pow2 23" by simp
    also have "\<dots> \<le> pow2 1000" by (rule pow2_mono) simp
    finally show ?thesis .
  qed
  have "f64_div (f64_of_int r) (f64_of_int second) = f64_of_rat (of_int r / of_int second)"
    using r by (simp add: f64_of_int_small second_def)
  also have "\<dots> = Fin x" unfolding x_def by (rule f64_of_rat_small) (use x xs in \<open>auto simp: x_def\<close>)
  finally have "duration_seconds d = f64_add (f64_of_int s) (Fin x)"
    by (simp add: duration_seconds_def q rm)
  also have "\<dots> = f64_of_rat (of_int s + x)" using s by (simp add: f64_of_int_small)
  also have "\<dots> = Fin y"
  proof -
    have "0 \<le> y" using y(1) s(1) by (meson of_int_0_le_iff order_trans)
    then show ?thesis unfolding y_def by (rule f64_of_rat_small) (use ys in \<open>simp add: y_def\<close>)
  qed
  finally have ds: "duration_seconds d = Fin y" .
  have "\<lfloor>y\<rfloor> = s" using y by (simp add: floor_eq_iff)
  moreover have "0 \<le> y" using y(1) s(1) by (meson of_int_0_le_iff order_trans)
  ultimately show ?thesis using s by (simp add: ds s_def [symmetric])
qed

end
