(* ===== verification/Store.thy ===== *)
theory Store
  imports GoTime
begin

text \<open>
  The relational store the services work on.  A table is the list of its rows in the order the
  database yields them.  An insert is refused when the new row clashes with an existing one on
  the primary key or on a unique index; \<open>First\<close> takes the least row by primary key among those
  that satisfy the \<open>WHERE\<close> clause.

  The database engine and the GORM layer are not part of the repository.  What they leave open is
  the record \<open>gorm\<close>, an argument of every operation: which statement of the operation fails
  with a driver error, the collation of primary keys, whether \<open>First\<close> adds a non-zero
  primary key of its destination to the \<open>WHERE\<close> clause (which GORM documents it does), and the
  clock reading GORM stamps into \<open>created_at\<close> and \<open>updated_at\<close> columns.

  The locale \<open>unique_table\<close> is the contract between a table and its users: a symmetric clash
  relation between rows, and from it the facts every service relies on (inserts, updates that
  keep the key columns and deletes preserve uniqueness; a row is determined by its keys).
  \<open>keyed_table\<close> is the case of a primary key and a unique index.
\<close>

record gorm =
  stmt_fails :: "nat \<Rightarrow> bool"
  pk_le :: "string \<Rightarrow> string \<Rightarrow> bool"
  first_adds_pk :: bool
  orm_now :: time

text \<open>A database that answers every statement, with byte-wise collation.\<close>

definition healthy :: gorm where
  "healthy = \<lparr>stmt_fails = (\<lambda>_. False), pk_le = (\<le>), first_adds_pk = True, orm_now = 0\<rparr>"

lemma healthy_simps [simp]:
  "\<not> stmt_fails healthy k"
  "first_adds_pk healthy"
  "pk_le healthy = (\<le>)"
  "orm_now healthy = 0"
  by (simp_all add: healthy_def)

section \<open>Rows\<close>

definition insert_row :: "('r \<Rightarrow> 'r \<Rightarrow> bool) \<Rightarrow> 'r \<Rightarrow> 'r list \<Rightarrow> 'r list option" where
  "insert_row clash x xs = (if list_ex (clash x) xs then None else Some (xs @ [x]))"

definition first_by :: "('k \<Rightarrow> 'k \<Rightarrow> bool) \<Rightarrow> ('r \<Rightarrow> 'k) \<Rightarrow> ('r \<Rightarrow> bool) \<Rightarrow> 'r list \<Rightarrow> 'r option" where
  "first_by le k P xs =
     (case filter P xs of
        [] \<Rightarrow> None
      | y # ys \<Rightarrow> Some (foldl (\<lambda>b x. if le (k b) (k x) then b else x) y ys))"

lemma insert_row_Some [db_simps]:
  "insert_row clash x xs = Some ys \<longleftrightarrow> (\<forall>y \<in> set xs. \<not> clash x y) \<and> ys = xs @ [x]"
  by (auto simp: insert_row_def list_ex_iff)

lemma insert_row_None [db_simps]:
  "insert_row clash x xs = None \<longleftrightarrow> (\<exists>y \<in> set xs. clash x y)"
  by (auto simp: insert_row_def list_ex_iff)

lemma foldl_choice_in: "foldl (\<lambda>b x. if c b x then b else x) y ys \<in> insert y (set ys)"
proof (induction ys arbitrary: y)
  case Nil
  then show ?case by simp
next
  case (Cons a ys)
  from Cons [of y] Cons [of a] show ?case by auto
qed

lemma first_by_Some: "first_by le k P xs = Some x \<Longrightarrow> x \<in> set xs \<and> P x"
proof -
  assume h: "first_by le k P xs = Some x"
  then obtain y ys where f: "filter P xs = y # ys"
    and x: "x = foldl (\<lambda>b x. if le (k b) (k x) then b else x) y ys"
    by (auto simp: first_by_def split: list.splits)
  have "x \<in> insert y (set ys)" unfolding x by (rule foldl_choice_in)
  then have "x \<in> set (filter P xs)" by (simp add: f)
  then show ?thesis by simp
qed

lemma first_by_None: "first_by le k P xs = None \<longleftrightarrow> (\<forall>x \<in> set xs. \<not> P x)"
proof -
  have "first_by le k P xs = None \<longleftrightarrow> filter P xs = []"
    by (simp add: first_by_def split: list.splits)
  then show ?thesis by (simp add: filter_empty_conv)
qed

lemma first_by_single: "filter P xs = [x] \<Longrightarrow> first_by le k P xs = Some x"
  by (simp add: first_by_def)

text \<open>With a total order the row chosen is a least one.\<close>

lemma foldl_choice_least:
  assumes total: "\<And>a b. le a b \<or> le b a" and trans: "\<And>a b c. le a b \<Longrightarrow> le b c \<Longrightarrow> le a c"
  shows "\<forall>x \<in> insert y (set ys). le (k (foldl (\<lambda>b x. if le (k b) (k x) then b else x) y ys)) (k x)"
proof (induction ys arbitrary: y)
  case Nil
  then show ?case using total by auto
next
  case (Cons a ys)
  let ?m = "\<lambda>z. foldl (\<lambda>b x. if le (k b) (k x) then b else x) z ys"
  show ?case
  proof (cases "le (k y) (k a)")
    case True
    with Cons [of y] have "le (k (?m y)) (k a)" by (auto intro: trans)
    with True Cons [of y] show ?thesis by auto
  next
    case False
    with total have "le (k a) (k y)" by blast
    with Cons [of a] have "le (k (?m a)) (k y)" by (auto intro: trans)
    with False Cons [of a] show ?thesis by auto
  qed
qed

lemma first_by_least:
  assumes "first_by le k P xs = Some x" "y \<in> set xs" "P y"
    and "\<And>a b. le a b \<or> le b a" "\<And>a b c. le a b \<Longrightarrow> le b c \<Longrightarrow> le a c"
  shows "le (k x) (k y)"
proof -
  from assms(1) obtain z zs where f: "filter P xs = z # zs"
    and x: "x = foldl (\<lambda>b x. if le (k b) (k x) then b else x) z zs"
    by (auto simp: first_by_def split: list.splits)
  have "y \<in> set (filter P xs)" using assms(2,3) by simp
  then have "y \<in> insert z (set zs)" by (simp only: f list.set)
  then show ?thesis using foldl_choice_least [of le z zs k] assms(4,5) unfolding x by blast
qed

section \<open>Uniqueness of rows\<close>

definition unique_rows :: "('r \<Rightarrow> 'r \<Rightarrow> bool) \<Rightarrow> 'r list \<Rightarrow> bool" where
  "unique_rows clash xs \<longleftrightarrow> sorted_wrt (\<lambda>x y. \<not> clash x y) xs"

lemma unique_rows_Nil [simp]: "unique_rows clash []"
  by (simp add: unique_rows_def)

locale unique_table =
  fixes clash :: "'r \<Rightarrow> 'r \<Rightarrow> bool"
  assumes clash_refl: "clash x x"
    and clash_sym: "clash x y \<Longrightarrow> clash y x"
begin

lemma rows_insert:
  assumes "unique_rows clash xs" and "insert_row clash x xs = Some ys"
  shows "unique_rows clash ys"
  using assms clash_sym by (auto simp: unique_rows_def db_simps sorted_wrt_append)

lemma rows_append:
  assumes "unique_rows clash xs" and "\<And>y. y \<in> set xs \<Longrightarrow> \<not> clash x y"
  shows "unique_rows clash (xs @ [x])"
  using assms clash_sym by (auto simp: unique_rows_def sorted_wrt_append)

lemma rows_update:
  assumes "unique_rows clash xs" and "\<And>x y. P x \<Longrightarrow> clash (f x) y = clash x y"
  shows "unique_rows clash (update_where P f xs)"
proof -
  have sym: "clash x y = clash y x" for x y using clash_sym by blast
  have left: "clash (if P x then f x else x) z = clash x z" for x z
    using assms(2) by simp
  have "clash (if P x then f x else x) (if P y then f y else y) = clash x y" for x y
    using left [of x "if P y then f y else y"] left [of y x] sym [of x] sym [of y x] by metis
  then show ?thesis
    using assms(1) by (simp add: unique_rows_def update_where_def sorted_wrt_map)
qed

lemma rows_filter: "unique_rows clash xs \<Longrightarrow> unique_rows clash (filter P xs)"
  by (simp add: unique_rows_def sorted_wrt_filter)

lemma rows_determined:
  assumes "unique_rows clash xs" "x \<in> set xs" "y \<in> set xs" "clash x y"
  shows "x = y"
  using assms
proof (induction xs)
  case Nil
  then show ?case by simp
next
  case (Cons a xs)
  then show ?case using clash_sym by (auto simp: unique_rows_def)
qed

lemma rows_distinct: "unique_rows clash xs \<Longrightarrow> distinct xs"
  by (induction xs) (auto simp: unique_rows_def clash_refl)

text \<open>Rows agreeing on a condition that forces a clash: at most one of them.\<close>

lemma rows_filter_single:
  assumes "unique_rows clash xs" "x \<in> set xs" "P x"
    and "\<And>y z. P y \<Longrightarrow> P z \<Longrightarrow> clash y z"
  shows "filter P xs = [x]"
proof -
  have "filter P xs = filter (\<lambda>y. y = x) xs"
    using assms(2-4) rows_determined [OF assms(1)] by (intro filter_cong) (auto intro: assms(4))
  also have "\<dots> = [x]"
    using rows_distinct [OF assms(1)] assms(2) filter_key_singleton [of id xs x]
    by simp
  finally show ?thesis .
qed

lemma rows_first:
  assumes "unique_rows clash xs" "x \<in> set xs" "P x"
    and "\<And>y z. P y \<Longrightarrow> P z \<Longrightarrow> clash y z"
  shows "first_by le k P xs = Some x" and "find P xs = Some x" and "count_where P xs = 1"
  using rows_filter_single [of xs x P] assms
  by (simp_all add: first_by_single find_eq_hd_filter count_where_def)

end

text \<open>A primary key \<open>k\<close> with further unique indexes \<open>u\<close>: rows clash when they agree on either.\<close>

definition clash_on :: "('r \<Rightarrow> 'k) \<Rightarrow> ('r \<Rightarrow> 'u) \<Rightarrow> 'r \<Rightarrow> 'r \<Rightarrow> bool" where
  "clash_on k u x y \<longleftrightarrow> k x = k y \<or> u x = u y"

text \<open>A table with such keys is a table of unique rows, in which the primary keys and the indexes are distinct.\<close>

locale keyed_table =
  fixes key :: "'r \<Rightarrow> 'k" and index :: "'r \<Rightarrow> 'u"

sublocale keyed_table \<subseteq> unique_table "clash_on key index"
  by unfold_locales (auto simp: clash_on_def)

context keyed_table
begin

lemma keys_distinct: "unique_rows (clash_on key index) xs \<Longrightarrow> distinct (map key xs)"
  by (induction xs) (auto simp: unique_rows_def clash_on_def)

lemma indexes_distinct: "unique_rows (clash_on key index) xs \<Longrightarrow> distinct (map index xs)"
  by (induction xs) (auto simp: unique_rows_def clash_on_def)

end

end
