(* ===== verification/Models.thy ===== *)
theory Models
  imports Store
begin

text \<open>
  The persistent entities of \<open>internal/domain/models\<close>, one record per struct with the columns
  of its table (associations such as \<open>Responses\<close> are loaded by queries and are not columns),
  the primary keys and unique indexes their tags declare, and the database as the record of all
  tables.  String-typed enumerations are datatypes with one constructor per declared constant
  and one for any other string a row may hold.
\<close>

section \<open>Assessment (assessment.go)\<close>

datatype item_type = SingleChoice | MultipleChoice | ShortAnswer | OtherItemType string

record choice =
  c_identifier :: string
  c_text :: string

record item =
  i_id :: string
  i_title :: string
  i_prompt :: string
  i_type :: item_type
  i_options_json :: string
  i_correct_answer :: string
  i_max_score :: f64
  i_layout_hint :: string
  i_created_at :: time
  i_updated_at :: time

record test =
  t_id :: string
  t_title :: string
  t_description :: string
  t_qti_version :: string
  t_time_limit_seconds :: int
  t_created_at :: time
  t_updated_at :: time

record test_section =
  sec_id :: string
  sec_test_id :: string
  sec_title :: string
  sec_order_index :: int
  sec_section_type :: string

record test_item =
  ti_id :: string
  ti_section_id :: string
  ti_item_id :: string
  ti_order_index :: int
  ti_weight :: f64

record delivery =
  d_id :: string
  d_test_id :: string
  d_title :: string
  d_start_time :: "time option"
  d_end_time :: "time option"
  d_is_active :: bool
  d_max_attempts :: int
  d_created_at :: time

section \<open>Sessions (session.go)\<close>

datatype session_status = NotStarted | InProgress | Paused | Completed | OtherStatus string

text \<open>The life cycle of a session as a preorder: not started, under way, completed.\<close>

fun status_rank :: "session_status \<Rightarrow> nat" where
  "status_rank NotStarted = 0"
| "status_rank Completed = 2"
| "status_rank _ = 1"

instantiation session_status :: preorder
begin

definition less_eq_session_status :: "session_status \<Rightarrow> session_status \<Rightarrow> bool" where
  "a \<le> b \<longleftrightarrow> status_rank a \<le> status_rank b"

definition less_session_status :: "session_status \<Rightarrow> session_status \<Rightarrow> bool" where
  "a < b \<longleftrightarrow> status_rank a < status_rank b"

instance
  by intro_classes (auto simp: less_eq_session_status_def less_session_status_def)

end

record test_session =
  s_id :: string
  s_delivery_id :: string
  s_user_id :: string
  s_attempt :: int
  s_status :: session_status
  s_time_spent_seconds :: int
  s_total_score :: f64
  s_started_at :: "time option"
  s_finished_at :: "time option"
  s_created_at :: time
  s_updated_at :: time

record item_response =
  r_id :: string
  r_session_id :: string
  r_item_id :: string
  r_response_data :: string
  r_score_given :: f64
  r_is_correct :: bool
  r_responded_at :: time

section \<open>Users and groups (user.go, group.go)\<close>

record user =
  u_id :: string
  u_username :: string
  u_email :: string
  u_password :: string
  u_is_active :: bool
  u_created_at :: time
  u_updated_at :: time

record role =
  ro_id :: string
  ro_name :: string
  ro_description :: string

record permission =
  pm_id :: string
  pm_code :: string
  pm_description :: string

record user_role =
  ur_user_id :: string
  ur_role_id :: string

record role_permission =
  rp_role_id :: string
  rp_permission_id :: string

record group =
  g_id :: string
  g_group_code :: string
  g_group_name :: string
  g_created_at :: time

record user_group =
  ug_user_id :: string
  ug_group_id :: string

record delivery_group =
  dg_delivery_id :: string
  dg_group_id :: string

section \<open>Proctoring (proctor.go)\<close>

datatype proctor_event_type =
  TabSwitch | FocusLost | ScreenshotAttempt | CopyAttempt | FullscreenExit | OtherEventType string

record proctor_event =
  pe_id :: string
  pe_session_id :: string
  pe_event_type :: proctor_event_type
  pe_duration_seconds :: int
  pe_details :: string
  pe_created_at :: time

record proctor_summary =
  ps_session_id :: string
  ps_total_tab_switches :: int
  ps_total_focus_lost_seconds :: int
  ps_total_screenshot_attempts :: int
  ps_total_copy_attempts :: int
  ps_risk_level :: string

section \<open>Webhooks (webhook.go)\<close>

record webhook_config =
  wc_id :: string
  wc_event :: string
  wc_target_url :: string
  wc_http_method :: string
  wc_secret_token :: string
  wc_is_active :: bool
  wc_created_at :: time

record webhook_log =
  wl_id :: string
  wl_config_id :: string
  wl_event :: string
  wl_payload :: string
  wl_status_code :: int
  wl_response_body :: string
  wl_is_success :: bool
  wl_created_at :: time

section \<open>LTI (lti.go)\<close>

record lti_platform =
  p_id :: string
  p_issuer :: string
  p_client_id :: string
  p_keyset_url :: string
  p_auth_token_url :: string
  p_auth_login_url :: string
  p_tool_launch_url :: string
  p_key_id :: string
  p_private_key :: string
  p_public_key :: string
  p_created_at :: time

record lti_link_session =
  ls_session_id :: string
  ls_platform_id :: string
  ls_issuer :: string
  ls_client_id :: string
  ls_lis_user_id :: string
  ls_deployment_id :: string
  ls_resource_link_id :: string
  ls_lineitem_url :: string
  ls_created_at :: time

record lti_oidc_state =
  os_state :: string
  os_nonce :: string
  os_issuer :: string
  os_client_id :: string
  os_target_link_uri :: string
  os_message_hint :: string
  os_expires_at :: time
  os_used_at :: "time option"
  os_created_at :: time

record lti_resource_link =
  rl_id :: string
  rl_platform_id :: string
  rl_deployment_id :: string
  rl_resource_link_id :: string
  rl_delivery_id :: string
  rl_created_at :: time

record ags_grade_payload =
  ag_timestamp :: string
  ag_score_given :: f64
  ag_score_maximum :: f64
  ag_comment :: string
  ag_activity_progress :: string
  ag_grading_progress :: string
  ag_user_id :: string

section \<open>The database\<close>

record db =
  users :: "user list"
  roles :: "role list"
  permissions :: "permission list"
  user_roles :: "user_role list"
  role_permissions :: "role_permission list"
  items :: "item list"
  tests :: "test list"
  test_sections :: "test_section list"
  test_items :: "test_item list"
  deliveries :: "delivery list"
  test_sessions :: "test_session list"
  item_responses :: "item_response list"
  webhook_configs :: "webhook_config list"
  webhook_logs :: "webhook_log list"
  lti_platforms :: "lti_platform list"
  lti_oidc_states :: "lti_oidc_state list"
  lti_resource_links :: "lti_resource_link list"
  lti_link_sessions :: "lti_link_session list"
  proctor_events :: "proctor_event list"
  groups :: "group list"
  user_groups :: "user_group list"
  delivery_groups :: "delivery_group list"

definition empty_db :: db where
  "empty_db =
     \<lparr>users = [], roles = [], permissions = [], user_roles = [], role_permissions = [],
      items = [], tests = [], test_sections = [], test_items = [], deliveries = [],
      test_sessions = [], item_responses = [], webhook_configs = [], webhook_logs = [],
      lti_platforms = [], lti_oidc_states = [], lti_resource_links = [], lti_link_sessions = [],
      proctor_events = [], groups = [], user_groups = [], delivery_groups = []\<rparr>"

text \<open>The clash relations of the tables with a composite unique index.\<close>

abbreviation session_clash :: "test_session \<Rightarrow> test_session \<Rightarrow> bool" where
  "session_clash \<equiv> clash_on s_id (\<lambda>s. (s_delivery_id s, s_user_id s, s_attempt s))"

abbreviation response_clash :: "item_response \<Rightarrow> item_response \<Rightarrow> bool" where
  "response_clash \<equiv> clash_on r_id (\<lambda>r. (r_session_id r, r_item_id r))"

abbreviation platform_clash :: "lti_platform \<Rightarrow> lti_platform \<Rightarrow> bool" where
  "platform_clash \<equiv> clash_on p_id (\<lambda>p. (p_issuer p, p_client_id p))"

abbreviation resource_link_clash :: "lti_resource_link \<Rightarrow> lti_resource_link \<Rightarrow> bool" where
  "resource_link_clash \<equiv>
     clash_on rl_id (\<lambda>l. (rl_platform_id l, rl_deployment_id l, rl_resource_link_id l))"

abbreviation oidc_state_clash :: "lti_oidc_state \<Rightarrow> lti_oidc_state \<Rightarrow> bool" where
  "oidc_state_clash \<equiv> clash_on os_state os_state"

abbreviation proctor_event_clash :: "proctor_event \<Rightarrow> proctor_event \<Rightarrow> bool" where
  "proctor_event_clash \<equiv> clash_on pe_id pe_id"

abbreviation webhook_config_clash :: "webhook_config \<Rightarrow> webhook_config \<Rightarrow> bool" where
  "webhook_config_clash \<equiv> clash_on wc_id wc_id"

abbreviation webhook_log_clash :: "webhook_log \<Rightarrow> webhook_log \<Rightarrow> bool" where
  "webhook_log_clash \<equiv> clash_on wl_id wl_id"

abbreviation item_clash :: "item \<Rightarrow> item \<Rightarrow> bool" where
  "item_clash \<equiv> clash_on i_id i_id"

interpretation sessions: keyed_table s_id "\<lambda>s. (s_delivery_id s, s_user_id s, s_attempt s)"
  by unfold_locales

interpretation responses: keyed_table r_id "\<lambda>r. (r_session_id r, r_item_id r)"
  by unfold_locales

interpretation platforms: keyed_table p_id "\<lambda>p. (p_issuer p, p_client_id p)"
  by unfold_locales

interpretation resource_links: keyed_table rl_id "\<lambda>l. (rl_platform_id l, rl_deployment_id l, rl_resource_link_id l)"
  by unfold_locales

interpretation oidc_states: keyed_table os_state os_state
  by unfold_locales

interpretation events: keyed_table pe_id pe_id
  by unfold_locales

section \<open>Errors of the services\<close>

text \<open>
  The sentinel errors the handlers distinguish with \<open>errors.Is\<close>; GORM's own not-found error, a
  violated constraint and a failed statement, which the services pass on; and any other error,
  named by what its message says.
\<close>

datatype service_err =
    ErrSessionNotFound | ErrSessionCompleted | ErrSessionNotActive | ErrSessionExpired
  | ErrDeliveryNotFound | ErrDeliveryClosed | ErrDeliveryForbidden | ErrMaxAttempts
  | ErrItemNotInDelivery
  | ErrPlatformNotFound | ErrInvalidLTIState | ErrInvalidLTIToken | ErrInvalidLTIRequest
  | ErrResourceLinkMissing
  | ErrRecordNotFound | ErrConstraint | ErrStatement nat | ErrOther string

text \<open>
  \<open>db.Transaction\<close>: the body's writes are kept when it returns no error and the commit succeeds,
  and otherwise the database is as before.  Statement \<open>0\<close> of the operation is the commit.
\<close>

definition transaction :: "gorm \<Rightarrow> db \<Rightarrow> (service_err + ('a \<times> db)) \<Rightarrow> (service_err + 'a) \<times> db" where
  "transaction g d body =
     (case body of
        Inl e \<Rightarrow> (Inl e, d)
      | Inr (x, d') \<Rightarrow> if stmt_fails g 0 then (Inl (ErrStatement 0), d) else (Inr x, d'))"

lemma transaction_Inr:
  "transaction g d body = (Inr x, d') \<longleftrightarrow> body = Inr (x, d') \<and> \<not> stmt_fails g 0"
  by (auto simp: transaction_def split: sum.splits if_splits)

lemma transaction_Inl:
  "transaction g d body = (Inl e, d') \<longleftrightarrow>
     d' = d \<and> (body = Inl e \<or> (\<exists>p. body = Inr p \<and> stmt_fails g 0 \<and> e = ErrStatement 0))"
  by (auto simp: transaction_def split: sum.splits if_splits prod.splits)

end
