(* ===== verification/RateLimit.thy ===== *)
theory RateLimit
  imports GoTime "HOL-Library.AList"
begin

text \<open>
  The rate limiter of \<open>internal/middleware/rate_limit.go\<close>: a fixed-window counter per client
  address, bounded to \<open>10000\<close> tracked clients.  The Go map is an association list with distinct
  keys; which entry the eviction loop meets first is an argument.  The mutex makes a request's
  bookkeeping and a cleanup round atomic, so a run of the limiter is a sequence of these events.
  The counters are Go's 64-bit \<open>int\<close>: their increment wraps around, which runs of fewer than
  \<open>2 ^ 63\<close> events do not reach.
  \<open>client_flags\<close> is the abstract specification: what one client sees of it.
\<close>

section \<open>The limiter\<close>

record visitor =
  last_seen :: time
  v_count :: int

record rate_limiter =
  visitors :: "(string \<times> visitor) list"
  rl_limit :: int
  rl_window :: duration

definition max_tracked_clients :: nat where
  "max_tracked_clients = 10000"

definition new_rate_limiter :: "int \<Rightarrow> duration \<Rightarrow> rate_limiter" where
  "new_rate_limiter n w = \<lparr>visitors = [], rl_limit = n, rl_window = w\<rparr>"

definition expired :: "duration \<Rightarrow> time \<Rightarrow> visitor \<Rightarrow> bool" where
  "expired w now v \<longleftrightarrow> w < time_sub now (last_seen v)"

text \<open>Deleting the entry the \<open>range\<close> loop yields first.\<close>

definition evict :: "nat \<Rightarrow> (string \<times> visitor) list \<Rightarrow> (string \<times> visitor) list" where
  "evict pick vs = (case vs of [] \<Rightarrow> [] | _ \<Rightarrow> AList.delete (fst (vs ! (pick mod length vs))) vs)"

definition admit :: "rate_limiter \<Rightarrow> nat \<Rightarrow> time \<Rightarrow> string \<Rightarrow> rate_limiter \<times> bool" where
  "admit rl pick now ip =
     (let fresh = \<lparr>last_seen = now, v_count = 1\<rparr>
      in case map_of (visitors rl) ip of
           None \<Rightarrow>
             let vs = (if max_tracked_clients \<le> length (visitors rl) then evict pick (visitors rl) else visitors rl)
             in (rl\<lparr>visitors := AList.update ip fresh vs\<rparr>, True)
         | Some v \<Rightarrow>
             if expired (rl_window rl) now v
             then (rl\<lparr>visitors := AList.update ip fresh (visitors rl)\<rparr>, True)
             else
               let v' = v\<lparr>v_count := wrap_int64 (v_count v + 1)\<rparr>
               in (rl\<lparr>visitors := AList.update ip v' (visitors rl)\<rparr>, \<not> rl_limit rl < v_count v'))"

definition cleanup :: "rate_limiter \<Rightarrow> time \<Rightarrow> rate_limiter" where
  "cleanup rl now = rl\<lparr>visitors := filter (\<lambda>(ip, v). \<not> expired (rl_window rl) now v) (visitors rl)\<rparr>"

text \<open>The seconds in the \<open>Retry-After\<close> header of a rejection, before formatting.\<close>

definition retry_after_seconds :: "rate_limiter \<Rightarrow> f64" where
  "retry_after_seconds rl =
     (let s = duration_seconds (rl_window rl) in if f64_less s (Fin 1) then Fin 1 else s)"

section \<open>Runs\<close>

datatype rl_event = Request time string nat | Cleanup time

fun event_time :: "rl_event \<Rightarrow> time" where
  "event_time (Request t _ _) = t"
| "event_time (Cleanup t) = t"

fun run :: "rate_limiter \<Rightarrow> rl_event list \<Rightarrow> rate_limiter \<times> (time \<times> string \<times> bool) list" where
  "run rl [] = (rl, [])"
| "run rl (Request t ip pick # es) =
     (let (rl', ok) = admit rl pick t ip; (rl'', out) = run rl' es in (rl'', (t, ip, ok) # out))"
| "run rl (Cleanup t # es) = run (cleanup rl t) es"

text \<open>What one client sees: a counter that restarts when the window since its start has passed.\<close>

fun client_flags :: "int \<Rightarrow> duration \<Rightarrow> visitor option \<Rightarrow> time list \<Rightarrow> (time \<times> bool) list" where
  "client_flags n w st [] = []"
| "client_flags n w st (t # ts) =
     (case st of
        None \<Rightarrow> (t, True) # client_flags n w (Some \<lparr>last_seen = t, v_count = 1\<rparr>) ts
      | Some v \<Rightarrow>
          if expired w t v then (t, True) # client_flags n w (Some \<lparr>last_seen = t, v_count = 1\<rparr>) ts
          else (t, v_count v + 1 \<le> n) # client_flags n w (Some (v\<lparr>v_count := v_count v + 1\<rparr>)) ts)"

section \<open>The tracked clients stay bounded\<close>

definition rl_inv :: "rate_limiter \<Rightarrow> bool" where
  "rl_inv rl \<longleftrightarrow> distinct (map fst (visitors rl)) \<and> length (visitors rl) \<le> max_tracked_clients"

lemma length_update_old: "distinct (map fst vs) \<Longrightarrow> map_of vs k = Some v \<Longrightarrow> length (AList.update k x vs) = length vs"
proof (induction vs)
  case Nil
  then show ?case by simp
next
  case (Cons a vs)
  then show ?case by (cases a) (auto split: if_splits)
qed

lemma length_update_le: "length (AList.update k x vs) \<le> Suc (length vs)"
  by (induction vs) auto

lemma length_delete_less: "k \<in> fst ` set vs \<Longrightarrow> length (AList.delete k vs) < length vs"
proof (induction vs)
  case Nil
  then show ?case by simp
next
  case (Cons a vs)
  then show ?case using length_delete_le [of k vs]
    by (cases a) (auto simp: less_Suc_eq_le Suc_le_eq image_iff)
qed

lemma length_evict: "vs \<noteq> [] \<Longrightarrow> length (evict pick vs) < length vs"
proof -
  assume "vs \<noteq> []"
  then have "fst (vs ! (pick mod length vs)) \<in> fst ` set vs" by (intro imageI nth_mem) simp
  then show ?thesis
    using length_delete_less [of "fst (vs ! (pick mod length vs))" vs] \<open>vs \<noteq> []\<close>
    by (auto simp only: evict_def split: list.split)
qed

lemma distinct_evict: "distinct (map fst vs) \<Longrightarrow> distinct (map fst (evict pick vs))"
  unfolding evict_def by (cases vs) (simp_all only: list.case distinct_delete)

lemma rl_inv_admit [wf_intros]:
  assumes "rl_inv rl"
  shows "rl_inv (fst (admit rl pick now ip))"
proof (cases "map_of (visitors rl) ip")
  case None
  let ?vs = "if max_tracked_clients \<le> length (visitors rl) then evict pick (visitors rl) else visitors rl"
  have "length ?vs < max_tracked_clients"
  proof (cases "max_tracked_clients \<le> length (visitors rl)")
    case True
    then have "visitors rl \<noteq> []" by (auto simp: max_tracked_clients_def)
    from length_evict [OF this, of pick] show ?thesis using assms True by (simp add: rl_inv_def)
  qed simp
  moreover have "distinct (map fst ?vs)" using assms by (simp add: rl_inv_def distinct_evict)
  ultimately show ?thesis
    using None length_update_le [of ip "\<lparr>last_seen = now, v_count = 1\<rparr>" ?vs]
    by (simp add: admit_def Let_def rl_inv_def distinct_update)
next
  case (Some v)
  with assms show ?thesis
    by (simp add: admit_def Let_def rl_inv_def distinct_update length_update_old)
qed

lemma rl_inv_cleanup [wf_intros]:
  assumes "rl_inv rl"
  shows "rl_inv (cleanup rl t)"
  using assms by (auto simp: rl_inv_def cleanup_def distinct_map_filter intro: le_trans [OF length_filter_le])

lemma rl_inv_run: "rl_inv rl \<Longrightarrow> rl_inv (fst (run rl es))"
proof (induction rl es rule: run.induct)
  case (2 rl t ip pick es)
  obtain rl' ok where a: "admit rl pick t ip = (rl', ok)" by force
  with rl_inv_admit [OF 2(2), of pick t ip] have "rl_inv (fst (run rl' es))"
    by (intro 2(1)) simp_all
  then show ?case by (simp add: a case_prod_beta)
next
  case (3 rl t es)
  then show ?case by (simp add: rl_inv_cleanup)
qed simp

text \<open>
  Whatever requests arrive, from however many addresses, and whenever cleanups run, the
  limiter never tracks more than 10000 clients and never the same one twice.
\<close>
theorem tracked_clients_bounded:
  "length (visitors (fst (run (new_rate_limiter n w) es))) \<le> 10000
   \<and> distinct (map fst (visitors (fst (run (new_rate_limiter n w) es))))"
proof -
  have "rl_inv (fst (run (new_rate_limiter n w) es))"
    by (rule rl_inv_run) (simp add: rl_inv_def new_rate_limiter_def)
  then show ?thesis by (simp add: rl_inv_def max_tracked_clients_def)
qed

section \<open>What one client sees\<close>

fun times_of :: "string \<Rightarrow> rl_event list \<Rightarrow> time list" where
  "times_of ip [] = []"
| "times_of ip (Request t i _ # es) = (if i = ip then t # times_of ip es else times_of ip es)"
| "times_of ip (Cleanup _ # es) = times_of ip es"

fun clients :: "rl_event list \<Rightarrow> string list" where
  "clients [] = []"
| "clients (Request _ i _ # es) = i # clients es"
| "clients (Cleanup _ # es) = clients es"

definition flags_of :: "string \<Rightarrow> (time \<times> string \<times> bool) list \<Rightarrow> (time \<times> bool) list" where
  "flags_of ip out = map (\<lambda>(t, _, b). (t, b)) (filter (\<lambda>(_, i, _). i = ip) out)"

lemma flags_of_simps [simp]:
  "flags_of ip [] = []"
  "flags_of ip ((t, i, b) # out) = (if i = ip then (t, b) # flags_of ip out else flags_of ip out)"
  by (simp_all add: flags_of_def)

lemma expired_mono: "expired w t v \<Longrightarrow> t \<le> t' \<Longrightarrow> expired w t' v"
  by (auto simp: expired_def time_sub_def)

text \<open>The limiter may have forgotten an expired counter: it would restart anyway.\<close>

definition sees :: "duration \<Rightarrow> time \<Rightarrow> visitor option \<Rightarrow> visitor option \<Rightarrow> bool" where
  "sees w now m st \<longleftrightarrow> m = st \<or> m = None \<and> (\<exists>v. st = Some v \<and> expired w now v)"

lemma sees_mono: "sees w t m st \<Longrightarrow> t \<le> t' \<Longrightarrow> sees w t' m st"
  by (auto simp: sees_def intro: expired_mono)

lemma map_of_filter_snd:
  "distinct (map fst vs) \<Longrightarrow>
     map_of (filter (\<lambda>(k, v). Q v) vs) k = (case map_of vs k of None \<Rightarrow> None | Some v \<Rightarrow> if Q v then Some v else None)"
proof (induction vs)
  case Nil
  then show ?case by simp
next
  case (Cons a vs)
  have "map_of (filter (\<lambda>(k, v). Q v) vs) k = None" if "k \<notin> fst ` set vs"
    using that by (auto simp: map_of_eq_None_iff)
  with Cons show ?case by (cases a) (auto simp: map_of_eq_None_iff split: option.splits)
qed

text \<open>A request when the clients of the run fit: no eviction, only the client's own entry changes.\<close>

lemma admit_fits:
  assumes "rl_inv rl" and "card (insert i (fst ` set (visitors rl))) \<le> max_tracked_clients"
    and "admit rl pick t i = (rl', ok)"
    and small: "\<forall>v. map_of (visitors rl) i = Some v \<longrightarrow> 0 \<le> v_count v \<and> v_count v + 1 < 2 ^ 63"
  shows "map_of (visitors rl') = (map_of (visitors rl))(i \<mapsto>
      (case map_of (visitors rl) i of
         None \<Rightarrow> \<lparr>last_seen = t, v_count = 1\<rparr>
       | Some v \<Rightarrow> if expired (rl_window rl) t v then \<lparr>last_seen = t, v_count = 1\<rparr> else v\<lparr>v_count := v_count v + 1\<rparr>))"
    and "ok = (case map_of (visitors rl) i of
         None \<Rightarrow> True | Some v \<Rightarrow> expired (rl_window rl) t v \<or> v_count v + 1 \<le> rl_limit rl)"
    and "fst ` set (visitors rl') = insert i (fst ` set (visitors rl))"
    and "rl_window rl' = rl_window rl" and "rl_limit rl' = rl_limit rl"
proof -
  have "map_of (visitors rl) i = None \<Longrightarrow> length (visitors rl) < max_tracked_clients"
  proof -
    assume that: "map_of (visitors rl) i = None"
    have "i \<notin> fst ` set (visitors rl)" using that by (simp add: map_of_eq_None_iff)
    moreover have "card (fst ` set (visitors rl)) = length (visitors rl)"
      using assms(1) distinct_card [of "map fst (visitors rl)"] by (simp add: rl_inv_def)
    ultimately show ?thesis using assms(2) by simp
  qed
  have wrap: "wrap_int64 (v_count v + 1) = v_count v + 1" if "map_of (visitors rl) i = Some v" for v
    using small that by (intro wrap_int64_id) auto
  define x where "x = (case map_of (visitors rl) i of
         None \<Rightarrow> \<lparr>last_seen = t, v_count = 1\<rparr>
       | Some v \<Rightarrow> if expired (rl_window rl) t v then \<lparr>last_seen = t, v_count = 1\<rparr> else v\<lparr>v_count := v_count v + 1\<rparr>)"
  with \<open>map_of (visitors rl) i = None \<Longrightarrow> length (visitors rl) < max_tracked_clients\<close>
  have rl': "rl' = rl\<lparr>visitors := AList.update i x (visitors rl)\<rparr>"
    and "ok = (case map_of (visitors rl) i of
         None \<Rightarrow> True | Some v \<Rightarrow> expired (rl_window rl) t v \<or> v_count v + 1 \<le> rl_limit rl)"
    using assms(3) wrap by (auto simp: admit_def Let_def not_less split: option.splits if_splits)
  then show "map_of (visitors rl') = (map_of (visitors rl))(i \<mapsto>
      (case map_of (visitors rl) i of
         None \<Rightarrow> \<lparr>last_seen = t, v_count = 1\<rparr>
       | Some v \<Rightarrow> if expired (rl_window rl) t v then \<lparr>last_seen = t, v_count = 1\<rparr> else v\<lparr>v_count := v_count v + 1\<rparr>))"
    and "ok = (case map_of (visitors rl) i of
         None \<Rightarrow> True | Some v \<Rightarrow> expired (rl_window rl) t v \<or> v_count v + 1 \<le> rl_limit rl)"
    and "fst ` set (visitors rl') = insert i (fst ` set (visitors rl))"
    and "rl_window rl' = rl_window rl" and "rl_limit rl' = rl_limit rl"
    by (simp_all add: update_conv' dom_update x_def [symmetric])
qed

text \<open>Counters that the given number of further requests does not overflow.\<close>

definition counts_fit :: "nat \<Rightarrow> rate_limiter \<Rightarrow> bool" where
  "counts_fit k rl \<longleftrightarrow> (\<forall>i v. map_of (visitors rl) i = Some v \<longrightarrow> 0 \<le> v_count v \<and> v_count v + int k < 2 ^ 63)"

lemma counts_fit_admit:
  assumes "counts_fit (Suc k) rl" and "int (Suc k) < 2 ^ 63"
    and "map_of (visitors rl') = (map_of (visitors rl))(i \<mapsto>
      (case map_of (visitors rl) i of
         None \<Rightarrow> \<lparr>last_seen = t, v_count = 1\<rparr>
       | Some v \<Rightarrow> if expired w t v then \<lparr>last_seen = t, v_count = 1\<rparr> else v\<lparr>v_count := v_count v + 1\<rparr>))"
  shows "counts_fit k rl'"
proof -
  have "0 \<le> v_count v \<and> v_count v + int k < 2 ^ 63" if "map_of (visitors rl') j = Some v" for j v
  proof (cases "j = i")
    case False
    with that assms(3) have "map_of (visitors rl) j = Some v" by simp
    then have "0 \<le> v_count v \<and> v_count v + int (Suc k) < 2 ^ 63" using assms(1) unfolding counts_fit_def by blast
    then show ?thesis by simp
  next
    case True
    show ?thesis
    proof (cases "map_of (visitors rl) i")
      case None
      with that assms(2,3) True show ?thesis by auto
    next
      case (Some u)
      then have "0 \<le> v_count u \<and> v_count u + int (Suc k) < 2 ^ 63" using assms(1) unfolding counts_fit_def by blast
      with Some that assms(2,3) True show ?thesis by (auto split: if_splits)
    qed
  qed
  then show ?thesis unfolding counts_fit_def by blast
qed

lemma run_client:
  assumes "rl_inv rl" and "card (fst ` set (visitors rl) \<union> set (clients es)) \<le> max_tracked_clients"
    and "sorted (now # map event_time es)" and "sees (rl_window rl) now (map_of (visitors rl) ip) st"
    and "int (length es) < 2 ^ 63" and "counts_fit (length es) rl"
  shows "flags_of ip (snd (run rl es)) = client_flags (rl_limit rl) (rl_window rl) st (times_of ip es)"
  using assms
proof (induction es arbitrary: rl now st)
  case Nil
  then show ?case by simp
next
  case (Cons e es)
  show ?case
  proof (cases e)
    case (Cleanup t)
    have le: "now \<le> t" "sorted (t # map event_time es)" using Cons.prems(3) Cleanup by auto
    have d: "distinct (map fst (visitors rl))" using Cons.prems(1) by (simp add: rl_inv_def)
    have "fst ` set (visitors (cleanup rl t)) \<subseteq> fst ` set (visitors rl)" by (auto simp: cleanup_def)
    then have "card (fst ` set (visitors (cleanup rl t)) \<union> set (clients es)) \<le> max_tracked_clients"
      using Cons.prems(2) Cleanup by (intro order_trans [OF card_mono Cons.prems(2)]) auto
    moreover have "sees (rl_window rl) t (map_of (visitors (cleanup rl t)) ip) st"
      using sees_mono [OF Cons.prems(4) le(1)] map_of_filter_snd [OF d, of "\<lambda>v. \<not> expired (rl_window rl) t v" ip]
      by (auto simp: cleanup_def sees_def split: option.splits)
    moreover have "counts_fit (length es) (cleanup rl t)"
      using Cons.prems(6) map_of_filter_snd [OF d, of "\<lambda>v. \<not> expired (rl_window rl) t v"]
      by (fastforce simp: counts_fit_def cleanup_def split: option.splits if_splits)
    ultimately show ?thesis
      using Cons.IH [of "cleanup rl t" t st] Cons.prems(1,5) le Cleanup
      by (simp add: rl_inv_cleanup) (simp add: cleanup_def)
  next
    case (Request t i pick)
    have le: "now \<le> t" "sorted (t # map event_time es)" using Cons.prems(3) Request by auto
    note st = sees_mono [OF Cons.prems(4) le(1)]
    obtain rl' ok where a: "admit rl pick t i = (rl', ok)" by force
    have room: "card (insert i (fst ` set (visitors rl))) \<le> max_tracked_clients"
      using Cons.prems(2) Request by (intro order_trans [OF card_mono Cons.prems(2)]) auto
    have small: "0 \<le> v_count v \<and> v_count v + 1 < 2 ^ 63" if "map_of (visitors rl) i = Some v" for v
    proof -
      have "0 \<le> v_count v \<and> v_count v + int (length (e # es)) < 2 ^ 63"
        using Cons.prems(6) that unfolding counts_fit_def by blast
      then show ?thesis by simp
    qed
    then have "\<forall>v. map_of (visitors rl) i = Some v \<longrightarrow> 0 \<le> v_count v \<and> v_count v + 1 < 2 ^ 63" by blast
    note f = admit_fits [OF Cons.prems(1) room a this]
    have fits: "int (length es) < 2 ^ 63" "counts_fit (length es) rl'"
      using Cons.prems(5) counts_fit_admit [OF _ _ f(1), of "length es"] Cons.prems(6) by simp_all
    have inv: "rl_inv rl'" using rl_inv_admit [OF Cons.prems(1), of pick t i] a by simp
    have card: "card (fst ` set (visitors rl') \<union> set (clients es)) \<le> max_tracked_clients"
      using Cons.prems(2) Request by (simp add: f(3) insert_commute)
    show ?thesis
    proof (cases "i = ip")
      case False
      then have "sees (rl_window rl') t (map_of (visitors rl') ip) st" using st by (simp add: f(1,4))
      from Cons.IH [OF inv card le(2) this fits] False show ?thesis
        by (simp add: Request a case_prod_beta f(4,5))
    next
      case True
      define st' where "st' = Some (case map_of (visitors rl) i of
         None \<Rightarrow> \<lparr>last_seen = t, v_count = 1\<rparr>
       | Some v \<Rightarrow> if expired (rl_window rl) t v then \<lparr>last_seen = t, v_count = 1\<rparr> else v\<lparr>v_count := v_count v + 1\<rparr>)"
      have "sees (rl_window rl') t (map_of (visitors rl') ip) st'"
        using True by (simp add: f(1) st'_def sees_def)
      from Cons.IH [OF inv card le(2) this fits]
      have "flags_of ip (snd (run rl (e # es))) =
          (t, ok) # client_flags (rl_limit rl) (rl_window rl) st' (times_of ip es)"
        using True by (simp add: Request a [unfolded True] case_prod_beta f(4,5))
      also have "\<dots> = client_flags (rl_limit rl) (rl_window rl) st (t # times_of ip es)"
        using st True by (auto simp: sees_def st'_def f(2) split: option.splits)
      finally show ?thesis using True by (simp add: Request)
    qed
  qed
qed

lemma client_flags_run:
  assumes "sorted (map event_time es)" and "length (remdups (clients es)) \<le> 10000" and "int (length es) < 2 ^ 63"
  shows "flags_of ip (snd (run (new_rate_limiter n w) es)) = client_flags n w None (times_of ip es)"
proof -
  let ?rl = "new_rate_limiter n w" and ?now = "case es of [] \<Rightarrow> 0 | e # _ \<Rightarrow> event_time e"
  have "card (fst ` set (visitors ?rl) \<union> set (clients es)) \<le> max_tracked_clients"
    using assms(2) by (simp add: new_rate_limiter_def max_tracked_clients_def length_remdups_card_conv)
  moreover have "sorted (?now # map event_time es)" using assms(1) by (cases es) auto
  ultimately have "flags_of ip (snd (run ?rl es)) = client_flags (rl_limit ?rl) (rl_window ?rl) None (times_of ip es)"
    using assms(3) by (intro run_client) (auto simp: rl_inv_def new_rate_limiter_def sees_def counts_fit_def)
  then show ?thesis by (simp add: new_rate_limiter_def)
qed

text \<open>
  Claim C30: clients do not affect each other.  In any run of fewer than \<open>2 ^ 63\<close> events in which time
  does not go back and at most 10000 different clients appear, what the limiter answers a client is what a counter of its
  own would answer to its own requests: the requests of others, the cleanup rounds and the order of
  the map make no difference.
\<close>
theorem clients_are_isolated:
  assumes "sorted (map event_time es)" and "length (remdups (clients es)) \<le> 10000" and "int (length es) < 2 ^ 63"
  shows "flags_of ip (snd (run (new_rate_limiter n w) es)) = client_flags n w None (times_of ip es)"
  using assms by (rule client_flags_run)

section \<open>The bound on accepted requests\<close>

definition accepted_in :: "time \<Rightarrow> time \<Rightarrow> (time \<times> bool) list \<Rightarrow> nat" where
  "accepted_in a b fs = count_where (\<lambda>(t, ok). ok \<and> a \<le> t \<and> t \<le> b) fs"

lemma accepted_in_simps [simp]:
  "accepted_in a b [] = 0"
  "accepted_in a b ((t, ok) # fs) = (if ok \<and> a \<le> t \<and> t \<le> b then Suc (accepted_in a b fs) else accepted_in a b fs)"
  by (simp_all add: accepted_in_def)

lemma expired_iff:
  assumes "0 \<le> w" "w < 2 ^ 63 - 1"
  shows "expired w t v \<longleftrightarrow> w < t - last_seen v"
  using assms by (auto simp: expired_def time_sub_def)

lemma client_flags_late: "sorted (b # ts) \<Longrightarrow> b \<notin> set ts \<Longrightarrow> accepted_in a b (client_flags n w st ts) = 0"
proof (induction n w st ts rule: client_flags.induct)
  case (1 n w st)
  then show ?case by simp
next
  case (2 n w st t ts)
  then have "b < t" "sorted (b # ts)" "b \<notin> set ts" by auto
  then show ?case using 2(1-3) by (auto split: option.splits)
qed

text \<open>Inside the window of the current counter at most what it has left is accepted.\<close>

lemma accepted_same_window:
  assumes "0 \<le> w" "w < 2 ^ 63 - 1" and "b \<le> last_seen v + w" and "sorted (last_seen v # ts)"
  shows "int (accepted_in a b (client_flags n w (Some v) ts)) \<le> max 0 (n - v_count v)"
  using assms(3-4)
proof (induction ts arbitrary: v)
  case Nil
  then show ?case by simp
next
  case (Cons t ts)
  show ?case
  proof (cases "expired w t v")
    case True
    then have "b < t" using Cons.prems(1) by (simp only: expired_iff [OF assms(1,2)])
    then have "sorted (b # ts)" "b \<notin> set ts" using Cons.prems(2) by auto
    with True \<open>b < t\<close> show ?thesis by (simp add: client_flags_late)
  next
    case False
    let ?v = "v\<lparr>v_count := v_count v + 1\<rparr>"
    have "int (accepted_in a b (client_flags n w (Some ?v) ts)) \<le> max 0 (n - v_count ?v)"
      using Cons.prems by (intro Cons.IH) auto
    with False show ?thesis by auto
  qed
qed

text \<open>From any time on: what the current counter has left, and one new window.\<close>

lemma accepted_two_windows:
  assumes "0 \<le> w" "w < 2 ^ 63 - 1" "1 \<le> n" and "sorted (a # ts)"
  shows "int (accepted_in a (a + w) (client_flags n w (Some v) ts)) \<le> max 0 (n - v_count v) + n"
  using assms(4)
proof (induction ts arbitrary: v)
  case Nil
  then show ?case using assms(3) by simp
next
  case (Cons t ts)
  show ?case
  proof (cases "expired w t v")
    case True
    let ?v = "\<lparr>last_seen = t, v_count = 1\<rparr>"
    have "int (accepted_in a (a + w) (client_flags n w (Some ?v) ts)) \<le> max 0 (n - v_count ?v)"
      using Cons.prems by (intro accepted_same_window assms) auto
    with True assms(3) show ?thesis by auto
  next
    case False
    let ?v = "v\<lparr>v_count := v_count v + 1\<rparr>"
    have "int (accepted_in a (a + w) (client_flags n w (Some ?v) ts)) \<le> max 0 (n - v_count ?v) + n"
      using Cons.prems by (intro Cons.IH) auto
    with False show ?thesis by auto
  qed
qed

lemma accepted_interval:
  assumes "0 \<le> w" "w < 2 ^ 63 - 1" "1 \<le> n" and "sorted ts"
    and "\<And>v. st = Some v \<Longrightarrow> 0 \<le> v_count v"
  shows "int (accepted_in a (a + w) (client_flags n w st ts)) \<le> 2 * n"
  using assms(4,5)
proof (induction ts arbitrary: st)
  case Nil
  then show ?case using assms(3) by simp
next
  case (Cons t ts)
  let ?fresh = "\<lparr>last_seen = t, v_count = 1\<rparr>"
  define st' where "st' = (case st of None \<Rightarrow> ?fresh
    | Some v \<Rightarrow> if expired w t v then ?fresh else v\<lparr>v_count := v_count v + 1\<rparr>)"
  have st'0: "0 \<le> v_count st'" using Cons.prems(2) by (auto simp: st'_def split: option.splits)
  have eq: "\<exists>ok. client_flags n w st (t # ts) = (t, ok) # client_flags n w (Some st') ts"
    by (auto simp: st'_def split: option.splits)
  show ?case
  proof (cases "t < a")
    case True
    have "int (accepted_in a (a + w) (client_flags n w (Some st') ts)) \<le> 2 * n"
      using Cons.prems st'0 by (intro Cons.IH) auto
    with True eq show ?thesis by auto
  next
    case False
    show ?thesis
    proof (cases st)
      case None
      have "int (accepted_in a (a + w) (client_flags n w (Some ?fresh) ts)) \<le> max 0 (n - v_count ?fresh)"
        using False Cons.prems by (intro accepted_same_window assms) auto
      with None assms(3) show ?thesis by auto
    next
      case (Some v)
      have "sorted (a # t # ts)" using False Cons.prems(1) by auto
      from accepted_two_windows [OF assms(1-3) this, of v] show ?thesis
        using Some Cons.prems(2) [OF Some] assms(3) by (auto simp del: client_flags.simps)
    qed
  qed
qed

text \<open>
  Claim C29: the rate limit.  With a positive limit, over any run of fewer than \<open>2 ^ 63\<close> events in which
  time does not go back and at most 10000 clients appear, no client has more than twice the limit of its requests accepted in
  any closed interval as long as the window (the end of one window and the start of the next).
\<close>
theorem accepted_requests_bounded:
  assumes "sorted (map event_time es)" and "length (remdups (clients es)) \<le> 10000" and "int (length es) < 2 ^ 63"
    and "1 \<le> n" and "0 \<le> w" and "w < 2 ^ 63 - 1"
  shows "int (accepted_in a (a + w) (flags_of ip (snd (run (new_rate_limiter n w) es)))) \<le> 2 * n"
proof -
  have "\<forall>e \<in> set es. t \<le> event_time e \<Longrightarrow> \<forall>x \<in> set (times_of ip es). t \<le> x" for t
    by (induction ip es rule: times_of.induct) auto
  moreover have "sorted (map event_time es) \<Longrightarrow> sorted (times_of ip es)"
  proof (induction ip es rule: times_of.induct)
    case (2 ip t i pick es)
    have "\<forall>e \<in> set es. t \<le> event_time e \<Longrightarrow> \<forall>x \<in> set (times_of ip es). t \<le> x"
      by (induction ip es rule: times_of.induct) auto
    with 2 show ?case by auto
  qed auto
  ultimately have "sorted (times_of ip es)" using assms(1) by blast
  then show ?thesis
    unfolding client_flags_run [OF assms(1-3)] by (intro accepted_interval assms(4-6)) simp_all
qed

section \<open>A run\<close>

definition sample_run :: "rl_event list" where
  "sample_run = [Request 0 ''10.0.0.1'' 0, Request 1 ''10.0.0.2'' 0, Cleanup 2, Request 3 ''10.0.0.1'' 0]"

lemma clients_are_isolated_witness:
  "flags_of ''10.0.0.1'' (snd (run (new_rate_limiter 1 second) sample_run)) = [(0, True), (3, False)]"
  using clients_are_isolated [of sample_run "''10.0.0.1''" 1 second]
  by (simp add: sample_run_def expired_def time_sub_def second_def)

lemma accepted_requests_bounded_witness:
  "int (accepted_in 0 (0 + second) (flags_of ''10.0.0.1'' (snd (run (new_rate_limiter 1 second) sample_run)))) \<le> 2 * 1"
  by (rule accepted_requests_bounded) (simp_all add: sample_run_def second_def)

end
