(* ===== verification/Http.thy ===== *)
theory Http
  imports Models RateLimit
begin

text \<open>
  Requests, the Gin context and the middlewares of \<open>internal/middleware\<close> that do not authenticate:
  metrics, security headers, the limit on JSON bodies and the rate limiter's request handler.  A
  middleware takes the shared server state and the context and either hands the context on
  (\<open>c.Next()\<close>) or aborts with a status and a reply.  Gin itself is not modelled: a context
  carries what Gin has computed (the client address, the route parameters).  Texts of error
  replies are abbreviated to what they report.
\<close>

datatype ctx_value = CtxString string | CtxStrings "string list"

record request_body =
  body_bytes :: string
  body_breaks :: bool

record ctx =
  cx_method :: string
  cx_headers :: "(string \<times> string) list"
  cx_client_ip :: string
  cx_params :: "(string \<times> string) list"
  cx_raw_query :: string
  cx_content_length :: int
  cx_body :: "request_body option"
  cx_keys :: "(string \<times> ctx_value) list"
  cx_out_headers :: "(string \<times> string) list"

datatype reply =
    ErrorReply string
  | SessionReply test_session "item_response list"
  | ResponseReply item_response
  | EventReply proctor_event
  | LogReply string nat "proctor_event list"
  | AnalyticsReply proctor_summary
  | OtherReply

datatype outcome = Next ctx | Abort ctx nat reply

record server =
  total_requests :: "64 word"
  limiter :: rate_limiter

type_synonym middleware = "server \<Rightarrow> ctx \<Rightarrow> server \<times> outcome"

text \<open>\<open>c.GetHeader\<close>, \<open>c.Header\<close>, \<open>c.Get\<close>, \<open>c.Set\<close> and \<open>c.Param\<close>.\<close>

definition get_header :: "ctx \<Rightarrow> string \<Rightarrow> string" where
  "get_header c k = (case map_of (cx_headers c) k of None \<Rightarrow> [] | Some v \<Rightarrow> v)"

definition set_header :: "string \<Rightarrow> string \<Rightarrow> ctx \<Rightarrow> ctx" where
  "set_header k v c = c\<lparr>cx_out_headers := AList.update k v (cx_out_headers c)\<rparr>"

definition ctx_get :: "ctx \<Rightarrow> string \<Rightarrow> ctx_value option" where
  "ctx_get c k = map_of (cx_keys c) k"

definition ctx_set :: "string \<Rightarrow> ctx_value \<Rightarrow> ctx \<Rightarrow> ctx" where
  "ctx_set k v c = c\<lparr>cx_keys := AList.update k v (cx_keys c)\<rparr>"

definition ctx_param :: "ctx \<Rightarrow> string \<Rightarrow> string" where
  "ctx_param c k = (case map_of (cx_params c) k of None \<Rightarrow> [] | Some v \<Rightarrow> v)"

text \<open>The handler chain: each handler runs only when the ones before it called \<open>Next\<close>.\<close>

fun run_chain :: "middleware list \<Rightarrow> middleware" where
  "run_chain [] s c = (s, Next c)"
| "run_chain (m # ms) s c =
     (case m s c of
        (s', Abort c' st r) \<Rightarrow> (s', Abort c' st r)
      | (s', Next c') \<Rightarrow> run_chain ms s' c')"

section \<open>The middlewares\<close>

definition metrics_collector :: middleware where
  "metrics_collector s c = (s\<lparr>total_requests := total_requests s + 1\<rparr>, Next c)"

text \<open>\<open>GetMetricsSummary\<close>: the counter of requests; the two session counters are never written.\<close>

record metrics_summary =
  ms_engine :: string
  ms_status :: string
  ms_timestamp :: time
  ms_total_requests :: "64 word"
  ms_active_sessions :: int
  ms_completed_sessions :: int
  ms_num_goroutines :: int
  ms_memory_allocated_mb :: f64

definition get_metrics_summary :: "time \<Rightarrow> nat \<Rightarrow> nat \<Rightarrow> server \<Rightarrow> metrics_summary" where
  "get_metrics_summary now goroutines alloc s =
     \<lparr>ms_engine = ''tao-core-go'', ms_status = ''HEALTHY'', ms_timestamp = now,
      ms_total_requests = total_requests s, ms_active_sessions = 0, ms_completed_sessions = 0,
      ms_num_goroutines = int goroutines,
      ms_memory_allocated_mb = f64_div (f64_div (f64_of_int (int alloc)) (Fin 1024)) (Fin 1024)\<rparr>"

definition single_quoted :: "string \<Rightarrow> string" where
  "single_quoted s = CHR 0x27 # s @ [CHR 0x27]"

definition security_headers :: middleware where
  "security_headers s c =
     (s, Next (set_header ''Content-Security-Policy''
            (''default-src '' @ single_quoted ''none'' @ ''; style-src '' @ single_quoted ''unsafe-inline''
             @ ''; frame-ancestors '' @ single_quoted ''none'' @ ''; base-uri '' @ single_quoted ''none''
             @ ''; form-action '' @ single_quoted ''self'')
          (set_header ''Permissions-Policy'' ''camera=(), microphone=(), geolocation=()''
          (set_header ''Referrer-Policy'' ''no-referrer''
          (set_header ''X-Frame-Options'' ''DENY''
          (set_header ''X-Content-Type-Options'' ''nosniff'' c))))))"

text \<open>
  \<open>io.ReadAll(io.LimitReader(body, n + 1))\<close>: the bytes before the limit, or a read error when the
  stream breaks before it is reached.
\<close>

definition read_limited :: "int \<Rightarrow> request_body \<Rightarrow> string option" where
  "read_limited n b =
     (if body_breaks b \<and> int (length (body_bytes b)) < n + 1 then None
      else Some (take (nat (n + 1)) (body_bytes b)))"

definition json_body_limit :: "unicode_tables \<Rightarrow> int \<Rightarrow> middleware" where
  "json_body_limit U max_bytes s c =
     (case cx_body c of
        None \<Rightarrow> (s, Next c)
      | Some b \<Rightarrow>
          if \<not> prefix ''application/json'' (to_lower U (get_header c ''Content-Type'')) then (s, Next c)
          else if max_bytes < cx_content_length c then (s, Abort c 413 (ErrorReply ''body too large''))
          else (case read_limited max_bytes b of
              None \<Rightarrow> (s, Abort c 400 (ErrorReply ''body unreadable''))
            | Some data \<Rightarrow>
                if max_bytes < int (length data) then (s, Abort c 413 (ErrorReply ''body too large''))
                else (s, Next (c\<lparr>cx_body := Some \<lparr>body_bytes = data, body_breaks = False\<rparr>,
                                 cx_content_length := int (length data)\<rparr>))))"

text \<open>The rate limiter's handler: \<open>pick\<close> is the map entry an eviction would meet first.\<close>

definition rate_limit :: "nat \<Rightarrow> time \<Rightarrow> middleware" where
  "rate_limit pick now s c =
     (case admit (limiter s) pick now (cx_client_ip c) of
        (rl, ok) \<Rightarrow>
          if ok then (s\<lparr>limiter := rl\<rparr>, Next c)
          else (s\<lparr>limiter := rl\<rparr>,
             Abort (set_header ''Retry-After''
                 (case retry_after_seconds rl of Fin q \<Rightarrow> int_string (rne q) | _ \<Rightarrow> []) c)
               429 (ErrorReply ''rate limit exceeded'')))"

section \<open>Lemmas\<close>

lemma get_header_set_header [simp]: "get_header (set_header k v c) = get_header c"
  by (simp add: set_header_def get_header_def fun_eq_iff)

lemma ctx_get_set [simp]: "ctx_get (ctx_set k v c) k' = (if k' = k then Some v else ctx_get c k')"
  by (simp add: ctx_get_def ctx_set_def update_conv')

lemma run_chain_append:
  "run_chain (ms @ ns) s c =
     (case run_chain ms s c of
        (s', Abort c' st r) \<Rightarrow> (s', Abort c' st r)
      | (s', Next c') \<Rightarrow> run_chain ns s' c')"
  by (induction ms arbitrary: s c) (auto split: prod.splits outcome.splits)

lemma read_limited_within:
  assumes "0 \<le> n" "read_limited n b = Some data" "int (length data) \<le> n"
  shows "data = body_bytes b \<and> (\<not> body_breaks b \<or> int (length (body_bytes b)) = n + 1)"
  using assms by (auto simp: read_limited_def split: if_splits)

text \<open>
  The body limit.  A JSON request is passed on only with a body that was read completely,
  is unchanged, fits the limit and has the length the context announces; a longer one is refused
  with 413, a broken one with 400, and a request that is not JSON passes untouched.
\<close>
theorem json_body_limit_guards:
  assumes "0 \<le> n" and "cx_body c = Some b"
    and "prefix ''application/json'' (to_lower U (get_header c ''Content-Type''))"
  shows "(case json_body_limit U n s c of
      (s', Next c') \<Rightarrow> s' = s \<and> int (length (body_bytes b)) \<le> n \<and> \<not> body_breaks b
        \<and> c' = c\<lparr>cx_body := Some b, cx_content_length := int (length (body_bytes b))\<rparr>
    | (s', Abort c' st r) \<Rightarrow> s' = s \<and> c' = c \<and>
        st = (if cx_content_length c \<le> n \<and> body_breaks b \<and> int (length (body_bytes b)) \<le> n then 400 else 413)
        \<and> (n < cx_content_length c \<or> body_breaks b \<or> n < int (length (body_bytes b))))"
  using assms by (cases b) (auto simp: json_body_limit_def read_limited_def min_def)

definition sample_server :: server where
  "sample_server = \<lparr>total_requests = 0, limiter = new_rate_limiter 10 second\<rparr>"

lemma json_body_limit_guards_witness:
  "case json_body_limit ascii_unicode 1 sample_server
       \<lparr>cx_method = ''POST'', cx_headers = [(''Content-Type'', ''application/json'')], cx_client_ip = [],
        cx_params = [], cx_raw_query = [], cx_content_length = 0, cx_body = Some \<lparr>body_bytes = ''{}'', body_breaks = False\<rparr>,
        cx_keys = [], cx_out_headers = []\<rparr> of
     (s', Next c') \<Rightarrow> int (length ''{}'') \<le> 1
   | (s', Abort c' st r) \<Rightarrow> st = 413"
proof -
  have "to_lower ascii_unicode ''application/json'' = ''application/json''"
    by (simp add: go_simps)
  then show ?thesis
    using json_body_limit_guards [of 1
        "\<lparr>cx_method = ''POST'', cx_headers = [(''Content-Type'', ''application/json'')], cx_client_ip = [],
        cx_params = [], cx_raw_query = [], cx_content_length = 0, cx_body = Some \<lparr>body_bytes = ''{}'', body_breaks = False\<rparr>,
        cx_keys = [], cx_out_headers = []\<rparr>" "\<lparr>body_bytes = ''{}'', body_breaks = False\<rparr>" ascii_unicode sample_server]
    by (simp add: get_header_def split: prod.splits outcome.splits)
qed

end
