(* ===== verification/Auth.thy ===== *)
theory Auth
  imports Http
begin

text \<open>
  Authentication and authorisation of \<open>internal/middleware/auth_middleware.go\<close>: validation of the
  HMAC configuration, issuing of access tokens, the bearer-token middleware and the role check.
  The JWT library is the record \<open>jwt_library\<close>: how it signs claims with HS256 and what
  \<open>ParseWithClaims\<close>, with the options the code passes, returns for a token at a time.
\<close>

record jwt_config =
  jc_secret :: string
  jc_issuer :: string
  jc_audience :: string

record claims =
  cl_user_id :: string
  cl_roles :: "string list"
  cl_expires_at :: "time option"
  cl_issued_at :: "time option"
  cl_issuer :: string
  cl_audience :: "string list"

record jwt_library =
  jwt_sign :: "string \<Rightarrow> claims \<Rightarrow> string option"
  jwt_parse :: "jwt_config \<Rightarrow> time \<Rightarrow> string \<Rightarrow> claims option"

definition min_jwt_secret_length :: nat where
  "min_jwt_secret_length = 32"

definition validate_jwt_secret :: "string \<Rightarrow> bool" where
  "validate_jwt_secret secret \<longleftrightarrow>
     \<not> (secret \<noteq> trim_space secret \<or> length secret < min_jwt_secret_length)"

definition validate_jwt_config :: "jwt_config \<Rightarrow> bool" where
  "validate_jwt_config cfg \<longleftrightarrow>
     validate_jwt_secret (jc_secret cfg)
     \<and> \<not> (trim_space (jc_issuer cfg) = [] \<or> trim_space (jc_audience cfg) = []
          \<or> jc_issuer cfg \<noteq> trim_space (jc_issuer cfg) \<or> jc_audience cfg \<noteq> trim_space (jc_audience cfg))"

text \<open>\<open>jwt.NewNumericDate\<close> truncates to the second.\<close>

definition numeric_date :: "time \<Rightarrow> time" where
  "numeric_date t = t - t mod second"

datatype token_err = BadConfig | BadUserId | BadLifetime | SigningFailed

definition generate_jwt ::
    "jwt_library \<Rightarrow> time \<Rightarrow> time \<Rightarrow> string \<Rightarrow> string list \<Rightarrow> jwt_config \<Rightarrow> duration \<Rightarrow> token_err + string" where
  "generate_jwt J now1 now2 user_id role_names cfg lifetime =
     (if \<not> validate_jwt_config cfg then Inl BadConfig
      else if trim_space user_id = [] \<or> 255 < length user_id then Inl BadUserId
      else if lifetime \<le> 0 then Inl BadLifetime
      else case jwt_sign J (jc_secret cfg)
          \<lparr>cl_user_id = user_id, cl_roles = role_names,
           cl_expires_at = Some (numeric_date (now1 + lifetime)), cl_issued_at = Some (numeric_date now2),
           cl_issuer = jc_issuer cfg, cl_audience = [jc_audience cfg]\<rparr> of
        None \<Rightarrow> Inl SigningFailed
      | Some tok \<Rightarrow> Inr tok)"

definition jwt_auth :: "jwt_library \<Rightarrow> jwt_config \<Rightarrow> time \<Rightarrow> middleware" where
  "jwt_auth J cfg now s c =
     (if \<not> validate_jwt_config cfg then (s, Abort c 500 (ErrorReply ''invalid configuration''))
      else
        let auth_header = get_header c ''Authorization''
        in if auth_header = [] then (s, Abort c 401 (ErrorReply ''missing Authorization header''))
           else case split2 CHR '' '' auth_header of
             [scheme, tok] \<Rightarrow>
               if scheme \<noteq> ''Bearer'' then (s, Abort c 401 (ErrorReply ''malformed Authorization header''))
               else (case jwt_parse J cfg now tok of
                   None \<Rightarrow> (s, Abort c 401 (ErrorReply ''invalid or expired token''))
                 | Some cl \<Rightarrow>
                     if trim_space (cl_user_id cl) = [] \<or> 255 < length (cl_user_id cl)
                     then (s, Abort c 401 (ErrorReply ''no valid user_id''))
                     else if cl_issued_at cl = None then (s, Abort c 401 (ErrorReply ''no issue time''))
                     else (s, Next (ctx_set ''user_roles'' (CtxStrings (cl_roles cl))
                                     (ctx_set ''user_id'' (CtxString (cl_user_id cl)) c))))
           | _ \<Rightarrow> (s, Abort c 401 (ErrorReply ''malformed Authorization header'')))"

definition require_role :: "string \<Rightarrow> middleware" where
  "require_role required s c =
     (case ctx_get c ''user_roles'' of
        None \<Rightarrow> (s, Abort c 403 (ErrorReply ''no roles''))
      | Some (CtxString _) \<Rightarrow> (s, Abort c 500 (ErrorReply ''roles of wrong type''))
      | Some (CtxStrings rs) \<Rightarrow>
          if list_ex (\<lambda>r. r = required) rs then (s, Next c)
          else (s, Abort c 403 (ErrorReply ''role required'')))"

section \<open>Who passes\<close>

text \<open>The identity a request proves at a time: the claims of a bearer token the library accepts.\<close>

definition authenticates :: "jwt_library \<Rightarrow> jwt_config \<Rightarrow> time \<Rightarrow> ctx \<Rightarrow> claims \<Rightarrow> bool" where
  "authenticates J cfg now c cl \<longleftrightarrow>
     (\<exists>tok. get_header c ''Authorization'' = ''Bearer '' @ tok \<and> jwt_parse J cfg now tok = Some cl)
     \<and> trim_space (cl_user_id cl) \<noteq> [] \<and> length (cl_user_id cl) \<le> 255 \<and> cl_issued_at cl \<noteq> None"

lemma split2_cons_iff:
  "split2 x s = [p, q] \<longleftrightarrow> s = p @ x # q \<and> x \<notin> set p"
proof
  assume l: "split2 x s = [p, q]"
  then have x: "x \<in> set s" and pq: "p = takeWhile (\<lambda>y. y \<noteq> x) s" "q = tl (dropWhile (\<lambda>y. y \<noteq> x) s)"
    by (auto simp: split2.simps split: if_splits)
  have ne: "dropWhile (\<lambda>y. y \<noteq> x) s \<noteq> []" using x by (auto simp: dropWhile_eq_Nil_conv)
  then have "hd (dropWhile (\<lambda>y. y \<noteq> x) s) = x" using hd_dropWhile [OF ne] by simp
  with ne have "s = p @ x # q" unfolding pq by (metis list.collapse takeWhile_dropWhile_id)
  moreover have "x \<notin> set p" unfolding pq by (auto dest: set_takeWhileD)
  ultimately show "s = p @ x # q \<and> x \<notin> set p" ..
next
  assume r: "s = p @ x # q \<and> x \<notin> set p"
  then have "takeWhile (\<lambda>y. y \<noteq> x) s = p" "dropWhile (\<lambda>y. y \<noteq> x) s = x # q"
    by (auto simp: takeWhile_append dropWhile_append)
  with r show "split2 x s = [p, q]" by (simp add: split2.simps)
qed

lemma split2_bearer:
  "split2 CHR '' '' h = [''Bearer'', tok] \<longleftrightarrow> h = ''Bearer '' @ tok"
  by (simp add: split2_cons_iff)

lemma jwt_auth_Next:
  assumes "jwt_auth J cfg now s c = (s', Next c')"
  obtains cl where "validate_jwt_config cfg" "authenticates J cfg now c cl" "s' = s"
    "c' = ctx_set ''user_roles'' (CtxStrings (cl_roles cl)) (ctx_set ''user_id'' (CtxString (cl_user_id cl)) c)"
proof -
  from assms obtain tok cl where "validate_jwt_config cfg"
    and sp: "split2 CHR '' '' (get_header c ''Authorization'') = [''Bearer'', tok]"
    and cl: "jwt_parse J cfg now tok = Some cl"
      "trim_space (cl_user_id cl) \<noteq> []" "length (cl_user_id cl) \<le> 255" "cl_issued_at cl \<noteq> None"
    and "s' = s"
      "c' = ctx_set ''user_roles'' (CtxStrings (cl_roles cl)) (ctx_set ''user_id'' (CtxString (cl_user_id cl)) c)"
    by (auto simp: jwt_auth_def Let_def not_less split: if_splits list.splits option.splits)
  moreover from sp have "get_header c ''Authorization'' = ''Bearer '' @ tok" by (simp only: split2_bearer)
  ultimately show thesis by (intro that) (auto simp: authenticates_def)
qed

lemma jwt_auth_accepts:
  assumes "validate_jwt_config cfg" "authenticates J cfg now c cl"
  shows "jwt_auth J cfg now s c =
    (s, Next (ctx_set ''user_roles'' (CtxStrings (cl_roles cl)) (ctx_set ''user_id'' (CtxString (cl_user_id cl)) c)))"
proof -
  from assms(2) obtain tok where h: "get_header c ''Authorization'' = ''Bearer '' @ tok"
    and p: "jwt_parse J cfg now tok = Some cl"
    by (auto simp: authenticates_def)
  have "split2 CHR '' '' (''Bearer '' @ tok) = [''Bearer'', tok]" by (simp only: split2_bearer)
  with assms h p show ?thesis
    by (simp add: jwt_auth_def authenticates_def Let_def)
qed

lemma require_role_Next:
  "require_role r s c = (s', Next c') \<longleftrightarrow>
     s' = s \<and> c' = c \<and> (\<exists>rs. ctx_get c ''user_roles'' = Some (CtxStrings rs) \<and> r \<in> set rs)"
  by (auto simp: require_role_def list_ex_iff split: option.splits ctx_value.splits)

lemma middleware_statuses:
  "jwt_auth J cfg now s c = (s', Abort c' st rep) \<Longrightarrow> s' = s \<and> c' = c \<and> (validate_jwt_config cfg \<longrightarrow> st = 401)"
  "require_role r s c = (s', Abort c' st rep) \<Longrightarrow> s' = s \<and> c' = c \<and> st \<in> {403, 500}"
  by (auto simp: jwt_auth_def require_role_def Let_def
      split: if_splits list.splits option.splits ctx_value.splits)

text \<open>
  Claim C20: the authentication gate.  A request passes \<open>JWTAuthMiddleware\<close> exactly when the
  configuration is valid and it carries a bearer token the library accepts with a usable user
  and an issue time; it then carries the token's user and roles.  Otherwise it is aborted,
  with 401 under a valid configuration, and nothing is changed.
\<close>
theorem jwt_auth_gate:
  shows "case jwt_auth J cfg now s c of
      (s', Next c') \<Rightarrow> s' = s \<and> validate_jwt_config cfg \<and>
        (\<exists>cl. authenticates J cfg now c cl \<and> ctx_get c' ''user_id'' = Some (CtxString (cl_user_id cl))
          \<and> ctx_get c' ''user_roles'' = Some (CtxStrings (cl_roles cl)))
    | (s', Abort c' st rep) \<Rightarrow> s' = s \<and> c' = c \<and> st = (if validate_jwt_config cfg then 401 else 500)
        \<and> \<not> (validate_jwt_config cfg \<and> (\<exists>cl. authenticates J cfg now c cl))"
proof (cases "jwt_auth J cfg now s c")
  case (Pair s' out)
  show ?thesis
  proof (cases out)
    case (Next c')
    with Pair have "jwt_auth J cfg now s c = (s', Next c')" by simp
    then obtain cl where "validate_jwt_config cfg" "authenticates J cfg now c cl" "s' = s"
      "c' = ctx_set ''user_roles'' (CtxStrings (cl_roles cl)) (ctx_set ''user_id'' (CtxString (cl_user_id cl)) c)"
      by (rule jwt_auth_Next)
    with Pair Next show ?thesis by auto
  next
    case (Abort c' st rep)
    with Pair have a: "jwt_auth J cfg now s c = (s', Abort c' st rep)" by simp
    have "\<not> (validate_jwt_config cfg \<and> (\<exists>cl. authenticates J cfg now c cl))"
      using a jwt_auth_accepts [of cfg J now c _ s] by auto
    moreover have "st = 500" if "\<not> validate_jwt_config cfg" using a that by (simp add: jwt_auth_def)
    ultimately show ?thesis using a middleware_statuses(1) [OF a] Pair Abort by auto
  qed
qed

section \<open>Issued tokens\<close>

text \<open>What the validator options of \<open>golang-jwt\<close> demand of claims at a time.\<close>

definition claims_valid_at :: "jwt_config \<Rightarrow> time \<Rightarrow> claims \<Rightarrow> bool" where
  "claims_valid_at cfg t cl \<longleftrightarrow>
     (case cl_expires_at cl of None \<Rightarrow> False | Some e \<Rightarrow> t < e)
     \<and> (case cl_issued_at cl of None \<Rightarrow> True | Some i \<Rightarrow> i \<le> t)
     \<and> cl_issuer cl = jc_issuer cfg \<and> jc_audience cfg \<in> set (cl_audience cl)"

text \<open>The documented behaviour relied on: a token signed with the secret parses while it is valid.\<close>

definition parses_own_tokens :: "jwt_library \<Rightarrow> jwt_config \<Rightarrow> claims \<Rightarrow> bool" where
  "parses_own_tokens J cfg cl \<longleftrightarrow>
     (\<forall>t tok. jwt_sign J (jc_secret cfg) cl = Some tok \<and> claims_valid_at cfg t cl \<longrightarrow>
        jwt_parse J cfg t tok = Some cl)"

definition issued_claims :: "time \<Rightarrow> time \<Rightarrow> string \<Rightarrow> string list \<Rightarrow> jwt_config \<Rightarrow> duration \<Rightarrow> claims" where
  "issued_claims now1 now2 uid rs cfg lifetime =
     \<lparr>cl_user_id = uid, cl_roles = rs,
      cl_expires_at = Some (numeric_date (now1 + lifetime)), cl_issued_at = Some (numeric_date now2),
      cl_issuer = jc_issuer cfg, cl_audience = [jc_audience cfg]\<rparr>"

lemma numeric_date_bounds: "numeric_date t \<le> t \<and> t < numeric_date t + second"
proof -
  have "0 \<le> t mod second \<and> t mod second < second" by (simp add: second_def)
  then show ?thesis by (simp add: numeric_date_def)
qed

lemma issued_token_passes:
  assumes "generate_jwt J now1 now2 uid rs cfg lifetime = Inr tok"
    and "parses_own_tokens J cfg (issued_claims now1 now2 uid rs cfg lifetime)"
    and "now2 \<le> t" and "t \<le> now1 + lifetime - second"
    and "get_header c ''Authorization'' = ''Bearer '' @ tok"
  shows "jwt_auth J cfg t s c =
    (s, Next (ctx_set ''user_roles'' (CtxStrings rs) (ctx_set ''user_id'' (CtxString uid) c)))"
proof -
  let ?cl = "issued_claims now1 now2 uid rs cfg lifetime"
  from assms(1) have sign: "jwt_sign J (jc_secret cfg) ?cl = Some tok"
    and ok: "validate_jwt_config cfg" "trim_space uid \<noteq> []" "length uid \<le> 255"
    by (auto simp: generate_jwt_def issued_claims_def split: if_splits option.splits)
  have "claims_valid_at cfg t ?cl"
    using assms(3,4) numeric_date_bounds [of now2] numeric_date_bounds [of "now1 + lifetime"]
    by (simp add: claims_valid_at_def issued_claims_def)
  with sign assms(2) have "jwt_parse J cfg t tok = Some ?cl" by (auto simp: parses_own_tokens_def)
  with assms(5) ok have "authenticates J cfg t c ?cl"
    by (simp add: authenticates_def issued_claims_def)
  from jwt_auth_accepts [OF ok(1) this] show ?thesis by (simp add: issued_claims_def)
qed

text \<open>
  An issued token works.  A token generated for a user authenticates exactly that user,
  with the given roles, at every time from its generation until a second before its lifetime
  ends (its times are truncated to seconds).
\<close>
theorem issued_token_accepted:
  assumes "generate_jwt J now1 now2 uid rs cfg lifetime = Inr tok"
    and "parses_own_tokens J cfg (issued_claims now1 now2 uid rs cfg lifetime)"
    and "now2 \<le> t" and "t \<le> now1 + lifetime - second"
    and "get_header c ''Authorization'' = ''Bearer '' @ tok"
  shows "jwt_auth J cfg t s c =
    (s, Next (ctx_set ''user_roles'' (CtxStrings rs) (ctx_set ''user_id'' (CtxString uid) c)))"
  using assms by (rule issued_token_passes)

section \<open>A configuration and a token\<close>

definition sample_jwt_config :: jwt_config where
  "sample_jwt_config =
     \<lparr>jc_secret = ''0123456789abcdef0123456789abcdef'', jc_issuer = ''tao'', jc_audience = ''api''\<rparr>"

text \<open>A library that knows one token, the one issued to \<open>alice\<close> for an hour at time \<open>0\<close>.\<close>

definition sample_claims :: claims where
  "sample_claims = issued_claims 0 0 ''alice'' [''STUDENT''] sample_jwt_config (3600 * second)"

definition sample_jwt :: jwt_library where
  "sample_jwt =
     \<lparr>jwt_sign = (\<lambda>secret cl. Some ''tok''),
      jwt_parse = (\<lambda>cfg t tok. if tok = ''tok'' \<and> claims_valid_at cfg t sample_claims then Some sample_claims else None)\<rparr>"

lemma sample_config_valid: "validate_jwt_config sample_jwt_config"
  by (simp add: validate_jwt_config_def validate_jwt_secret_def sample_jwt_config_def min_jwt_secret_length_def go_simps)

definition sample_request :: "string \<Rightarrow> ctx" where
  "sample_request auth_header =
     \<lparr>cx_method = ''POST'', cx_headers = [(''Authorization'', auth_header), (''Content-Type'', ''application/json'')],
      cx_client_ip = ''10.0.0.1'', cx_params = [(''id'', ''s1'')], cx_raw_query = [], cx_content_length = 2,
      cx_body = Some \<lparr>body_bytes = ''{}'', body_breaks = False\<rparr>, cx_keys = [], cx_out_headers = []\<rparr>"

lemma issued_token_accepted_witness:
  "jwt_auth sample_jwt sample_jwt_config second sample_server (sample_request ''Bearer tok'') =
    (sample_server, Next (ctx_set ''user_roles'' (CtxStrings [''STUDENT'']) (ctx_set ''user_id'' (CtxString ''alice'')
      (sample_request ''Bearer tok''))))"
proof (rule issued_token_accepted)
  show "generate_jwt sample_jwt 0 0 ''alice'' [''STUDENT''] sample_jwt_config (3600 * second) = Inr ''tok''"
    by (simp add: generate_jwt_def sample_config_valid sample_jwt_def second_def go_simps)
  show "parses_own_tokens sample_jwt sample_jwt_config
      (issued_claims 0 0 ''alice'' [''STUDENT''] sample_jwt_config (3600 * second))"
    by (simp add: parses_own_tokens_def sample_jwt_def sample_claims_def)
qed (simp_all add: second_def get_header_def sample_request_def)

end
