(* ===== verification/Scoring.thy ===== *)
theory Scoring
  imports Models "HOL-Library.Multiset" "HOL-Library.FuncSet"
begin

text \<open>
  The scoring engine of \<open>internal/service/scoring_service.go\<close>: automatic scoring of one response
  (\<open>ScoreItem\<close>) and the shuffle that relabels the options of a choice item
  (\<open>BalanceOptionsKey\<close>).  The cryptographic random source is an argument: \<open>rnd i\<close> is what
  \<open>rand.Int(rand.Reader, i + 1)\<close> returns at index \<open>i\<close> of the loop, \<open>None\<close> for an error.  The
  locale \<open>scoring_contract\<close> is what the session service relies on when it calls the engine
  through its interface.
\<close>

section \<open>Definitions\<close>

text \<open>The test on \<open>MaxScore\<close> and \<open>Weight\<close>: not positive, above one million, NaN or infinite.\<close>

definition bad_points :: "f64 \<Rightarrow> bool" where
  "bad_points x \<longleftrightarrow>
     f64_le x (Fin 0) \<or> f64_less (Fin 1000000) x \<or> f64_is_nan x \<or> f64_is_inf x"

definition answer_parts :: "string \<Rightarrow> string list" where
  "answer_parts s = map trim_space (split_on CHR '','' s)"

definition same_choices :: "string \<Rightarrow> string \<Rightarrow> bool" where
  "same_choices resp ans \<longleftrightarrow>
     join_with '','' (sort_strings (answer_parts resp)) = join_with '','' (sort_strings (answer_parts ans))"

definition score_item :: "unicode_tables \<Rightarrow> item option \<Rightarrow> string \<Rightarrow> f64 \<times> bool" where
  "score_item U it response =
     (case it of
        None \<Rightarrow> (Fin 0, False)
      | Some i \<Rightarrow>
          if bad_points (i_max_score i) then (Fin 0, False)
          else
            let clean_resp = trim_space response; clean_answer = trim_space (i_correct_answer i)
            in if clean_resp = [] \<or> clean_answer = [] then (Fin 0, False)
               else (case i_type i of
                  SingleChoice \<Rightarrow>
                    if equal_fold U clean_resp clean_answer then (i_max_score i, True) else (Fin 0, False)
                | MultipleChoice \<Rightarrow>
                    if same_choices clean_resp clean_answer then (i_max_score i, True) else (Fin 0, False)
                | ShortAnswer \<Rightarrow>
                    if equal_fold U clean_resp clean_answer then (i_max_score i, True) else (Fin 0, False)
                | OtherItemType _ \<Rightarrow> (Fin 0, False)))"

definition swap_at :: "nat \<Rightarrow> nat \<Rightarrow> 'a list \<Rightarrow> 'a list" where
  "swap_at i j xs = xs[i := xs ! j, j := xs ! i]"

text \<open>The loop \<open>for i := len - 1; i > 0; i--\<close>.\<close>

fun shuffle_from :: "(nat \<Rightarrow> nat option) \<Rightarrow> nat \<Rightarrow> 'a list \<Rightarrow> 'a list option" where
  "shuffle_from rnd 0 xs = Some xs"
| "shuffle_from rnd (Suc i) xs =
     (case rnd (Suc i) of
        None \<Rightarrow> None
      | Some j \<Rightarrow> shuffle_from rnd i (swap_at (Suc i) j xs))"

definition letter :: "nat \<Rightarrow> string" where
  "letter i = [char_of (65 + i)]"

fun relabel :: "nat \<Rightarrow> choice list \<Rightarrow> choice list" where
  "relabel i [] = []"
| "relabel i (c # cs) = c\<lparr>c_identifier := letter i\<rparr> # relabel (Suc i) cs"

fun identifier_map :: "nat \<Rightarrow> (string \<rightharpoonup> string) \<Rightarrow> choice list \<Rightarrow> (string \<rightharpoonup> string)" where
  "identifier_map i m [] = m"
| "identifier_map i m (c # cs) = identifier_map (Suc i) (m(c_identifier c \<mapsto> letter i)) cs"

datatype balance_err = TooManyOptions | RandomSource

definition balance_options_key ::
    "(nat \<Rightarrow> nat option) \<Rightarrow> choice list \<Rightarrow> balance_err + (choice list \<times> (string \<rightharpoonup> string))" where
  "balance_options_key rnd options =
     (if options = [] then Inr (options, Map.empty)
      else if 26 < length options then Inl TooManyOptions
      else (case shuffle_from rnd (length options - 1) options of
          None \<Rightarrow> Inl RandomSource
        | Some shuffled \<Rightarrow> Inr (relabel 0 shuffled, identifier_map 0 Map.empty shuffled)))"

section \<open>Scores\<close>

lemma not_bad_points_iff: "\<not> bad_points x \<longleftrightarrow> (\<exists>q. x = Fin q \<and> 0 < q \<and> q \<le> 1000000)"
  by (cases x) (auto simp: bad_points_def)

lemma not_bad_points_within: "\<not> bad_points x \<Longrightarrow> fin_within (of_nat 1000000) x"
  by (auto simp: not_bad_points_iff fin_within_def)

lemma score_item_cases:
  "score_item U (Some i) r = (i_max_score i, True) \<and> \<not> bad_points (i_max_score i) \<or>
   score_item U (Some i) r = (Fin 0, False)"
  by (simp add: score_item_def Let_def split: item_type.split)

lemma score_item_nil: "score_item U None r = (Fin 0, False)"
  by (simp add: score_item_def)

text \<open>Trimming and splitting give parts without the separator, so the join is injective.\<close>

lemma answer_parts_not_Nil [simp]: "answer_parts s \<noteq> []"
  by (simp add: answer_parts_def)

lemma answer_parts_no_comma: "p \<in> set (answer_parts s) \<Longrightarrow> CHR '','' \<notin> set p"
  using set_trim_space by (fastforce simp: answer_parts_def dest: split_on_parts)

lemma sort_strings_eq_iff: "sort_strings xs = sort_strings ys \<longleftrightarrow> mset xs = mset ys"
proof
  assume "sort_strings xs = sort_strings ys"
  then have "mset (sort xs) = mset (sort ys)" by (simp add: sort_strings_def)
  then show "mset xs = mset ys" by simp
next
  assume "mset xs = mset ys"
  then show "sort_strings xs = sort_strings ys"
    unfolding sort_strings_def by (intro properties_for_sort) auto
qed

lemma same_choices_iff: "same_choices r a \<longleftrightarrow> mset (answer_parts r) = mset (answer_parts a)"
proof -
  have nn: "sort_strings (answer_parts s) \<noteq> []" for s
  proof -
    have "length (sort_strings (answer_parts s)) = length (answer_parts s)" by (simp add: sort_strings_def)
    then show ?thesis using answer_parts_not_Nil [of s] by (metis length_0_conv)
  qed
  have "\<forall>p \<in> set (sort_strings (answer_parts s)). CHR '','' \<notin> set p" for s
    by (simp add: sort_strings_def answer_parts_no_comma)
  then have "same_choices r a \<longleftrightarrow> sort_strings (answer_parts r) = sort_strings (answer_parts a)"
    unfolding same_choices_def using nn by (intro join_with_inject) auto
  then show ?thesis by (simp add: sort_strings_eq_iff)
qed

text \<open>A permutation of the chosen options, with any white space around them, is the same answer.\<close>

lemma answer_parts_join:
  "xs \<noteq> [] \<Longrightarrow> \<forall>x \<in> set xs. CHR '','' \<notin> set x \<Longrightarrow> answer_parts (join_with '','' xs) = map trim_space xs"
  by (simp add: answer_parts_def split_on_join)

section \<open>What the callers rely on\<close>

locale scoring_contract =
  fixes score :: "item \<Rightarrow> string \<Rightarrow> f64 \<times> bool"
  assumes all_or_nothing:
    "score i r = (i_max_score i, True) \<and> \<not> bad_points (i_max_score i) \<or> score i r = (Fin 0, False)"
begin

lemma points_within: "fin_within (of_nat 1000000) (fst (score i r))"
  using all_or_nothing [of i r] not_bad_points_within [of "i_max_score i"]
  by (auto simp: fin_within_def)

lemma correct_iff_points: "snd (score i r) \<longleftrightarrow> fst (score i r) \<noteq> Fin 0"
  using all_or_nothing [of i r] by (auto simp: not_bad_points_iff)

text \<open>Multiplying with an acceptable weight stays finite and in range.\<close>

lemma weighted_within:
  assumes "\<not> bad_points w"
  shows "fin_within (of_nat (10 ^ 12)) (f64_mul (fst (score i r)) w)"
proof -
  have "fin_within (of_nat (1000000 * 1000000)) (f64_mul (fst (score i r)) w)"
    using points_within not_bad_points_within [OF assms] by (rule f64_mul_within) simp
  then show ?thesis by simp
qed

end

interpretation engine: scoring_contract "\<lambda>i. score_item U (Some i)" for U
  by unfold_locales (rule score_item_cases)

section \<open>Shuffling and relabelling\<close>

definition draws_ok :: "(nat \<Rightarrow> nat option) \<Rightarrow> nat \<Rightarrow> bool" where
  "draws_ok rnd n \<longleftrightarrow> (\<forall>i j. 0 < i \<longrightarrow> i < n \<longrightarrow> rnd i = Some j \<longrightarrow> j \<le> i)"

lemma length_swap_at [simp]: "length (swap_at i j xs) = length xs"
  by (simp add: swap_at_def)

lemma mset_swap_at: "i < length xs \<Longrightarrow> j < length xs \<Longrightarrow> mset (swap_at i j xs) = mset xs"
  by (simp add: swap_at_def mset_swap)

lemma shuffle_from_mset:
  "draws_ok rnd (length xs) \<Longrightarrow> i < length xs \<Longrightarrow> shuffle_from rnd i xs = Some ys \<Longrightarrow> mset ys = mset xs"
proof (induction i arbitrary: xs)
  case 0
  then show ?case by simp
next
  case (Suc i)
  from Suc.prems obtain j where j: "rnd (Suc i) = Some j" "shuffle_from rnd i (swap_at (Suc i) j xs) = Some ys"
    by (auto split: option.splits)
  with Suc.prems have "j < length xs" by (auto simp: draws_ok_def)
  moreover have "mset ys = mset (swap_at (Suc i) j xs)"
    using Suc.prems j(2) by (intro Suc.IH) auto
  ultimately show ?case using Suc.prems by (simp add: mset_swap_at)
qed

text \<open>Positions above the loop index are final.\<close>

lemma shuffle_from_fixed:
  "(\<forall>k. 0 < k \<longrightarrow> k \<le> i \<longrightarrow> (\<exists>j \<le> k. rnd k = Some j)) \<Longrightarrow> shuffle_from rnd i xs = Some ys \<Longrightarrow>
     i < p \<Longrightarrow> ys ! p = xs ! p"
proof (induction i arbitrary: xs)
  case 0
  then show ?case by simp
next
  case (Suc i)
  from Suc.prems(1) obtain j where j: "rnd (Suc i) = Some j" "j \<le> Suc i" by blast
  with Suc.prems have "shuffle_from rnd i (swap_at (Suc i) j xs) = Some ys" by simp
  then have "ys ! p = swap_at (Suc i) j xs ! p" using Suc.prems by (intro Suc.IH) auto
  then show ?case using Suc.prems(3) j(2) by (simp add: swap_at_def)
qed

lemma relabel_length [simp]: "length (relabel k cs) = length cs"
  by (induction k cs rule: relabel.induct) auto

lemma relabel_text [simp]: "map c_text (relabel k cs) = map c_text cs"
  by (induction k cs rule: relabel.induct) auto

lemma relabel_identifiers: "map c_identifier (relabel k cs) = map letter [k..<k + length cs]"
proof (induction k cs rule: relabel.induct)
  case (1 i)
  then show ?case by simp
next
  case (2 i c cs)
  then show ?case by (simp add: upt_conv_Cons del: upt_Suc)
qed

lemma letter_inject: "i < 26 \<Longrightarrow> j < 26 \<Longrightarrow> letter i = letter j \<longleftrightarrow> i = j"
proof
  assume ij: "i < 26" "j < 26" and eq: "letter i = letter j"
  from eq have "of_char (char_of (65 + i) :: char) = (of_char (char_of (65 + j) :: char) :: nat)"
    by (simp add: letter_def)
  then show "i = j" using ij by simp
qed simp

lemma identifier_map_other:
  "x \<notin> c_identifier ` set cs \<Longrightarrow> identifier_map k m cs x = m x"
  by (induction k m cs rule: identifier_map.induct) auto

lemma identifier_map_nth:
  "distinct (map c_identifier cs) \<Longrightarrow> i < length cs \<Longrightarrow>
     identifier_map k m cs (c_identifier (cs ! i)) = Some (letter (k + i))"
proof (induction k m cs arbitrary: i rule: identifier_map.induct)
  case (1 k m)
  then show ?case by simp
next
  case (2 k m c cs)
  show ?case
  proof (cases i)
    case 0
    with 2 show ?thesis by (simp add: identifier_map_other)
  next
    case (Suc n)
    have "identifier_map (Suc k) (m(c_identifier c \<mapsto> letter k)) cs (c_identifier (cs ! n)) =
        Some (letter (Suc k + n))"
      using 2(2,3) Suc by (intro 2(1)) simp_all
    with Suc show ?thesis by simp
  qed
qed

lemma identifier_map_dom: "dom (identifier_map k m cs) = dom m \<union> c_identifier ` set cs"
  by (induction cs arbitrary: k m) auto

lemma relabel_nth: "i < length cs \<Longrightarrow> relabel k cs ! i = (cs ! i)\<lparr>c_identifier := letter (k + i)\<rparr>"
proof (induction k cs arbitrary: i rule: relabel.induct)
  case (1 k)
  then show ?case by simp
next
  case (2 k c cs)
  then show ?case by (cases i) auto
qed

lemma balance_options_key_Inr:
  assumes "balance_options_key rnd cs = Inr (out, m)" and "cs \<noteq> []"
  obtains sh where "shuffle_from rnd (length cs - 1) cs = Some sh" "out = relabel 0 sh"
    "m = identifier_map 0 Map.empty sh" "length cs \<le> 26"
  using assms by (auto simp: balance_options_key_def split: if_splits option.splits)

end
