(* ===== verification/Session.thy ===== *)
theory Session
  imports Scoring
begin

text \<open>
  The session service of \<open>internal/service/session_service.go\<close>.  Each operation is a function of
  the database behaviour \<open>g\<close>, the clock readings and fresh identifiers it takes, its arguments
  and the database.  A transaction body returns an error or its result with the new database;
  \<open>transaction\<close> rolls the database back on an error.  \<open>SubmitSession\<close> also returns the effects it
  starts after the commit, in order: the event-bus publication, the webhook dispatch and the
  grade submission in its own goroutine.
\<close>

section \<open>Starting a session\<close>

definition delivery_closed :: "time \<Rightarrow> delivery \<Rightarrow> bool" where
  "delivery_closed now dl \<longleftrightarrow>
     \<not> d_is_active dl
     \<or> (case d_start_time dl of None \<Rightarrow> False | Some t \<Rightarrow> now < t)
     \<or> (case d_end_time dl of None \<Rightarrow> False | Some t \<Rightarrow> t < now)"

definition restricted_group_count :: "string \<Rightarrow> db \<Rightarrow> nat" where
  "restricted_group_count did d = count_where (\<lambda>dg. dg_delivery_id dg = did) (delivery_groups d)"

definition membership_count :: "string \<Rightarrow> string \<Rightarrow> db \<Rightarrow> nat" where
  "membership_count did uid d =
     length [(ug, dg). ug \<leftarrow> user_groups d, dg \<leftarrow> delivery_groups d,
       dg_group_id dg = ug_group_id ug \<and> dg_delivery_id dg = did \<and> ug_user_id ug = uid]"

definition check_groups :: "gorm \<Rightarrow> string \<Rightarrow> string \<Rightarrow> db \<Rightarrow> service_err option" where
  "check_groups g did uid d =
     (if stmt_fails g 2 then Some (ErrStatement 2)
      else if 0 < restricted_group_count did d then
        if stmt_fails g 3 then Some (ErrStatement 3)
        else if membership_count did uid d = 0 then Some ErrDeliveryForbidden
        else None
      else None)"

definition open_status :: "session_status \<Rightarrow> bool" where
  "open_status st \<longleftrightarrow> st = NotStarted \<or> st = InProgress \<or> st = Paused"

definition of_user :: "string \<Rightarrow> string \<Rightarrow> test_session \<Rightarrow> bool" where
  "of_user did uid s \<longleftrightarrow> s_delivery_id s = did \<and> s_user_id s = uid"

text \<open>\<open>ORDER BY attempt DESC\<close>, ties by primary key.\<close>

definition attempt_desc :: "gorm \<Rightarrow> int \<times> string \<Rightarrow> int \<times> string \<Rightarrow> bool" where
  "attempt_desc g a b \<longleftrightarrow> fst b < fst a \<or> fst a = fst b \<and> pk_le g (snd a) (snd b)"

definition latest_open_session :: "gorm \<Rightarrow> string \<Rightarrow> string \<Rightarrow> db \<Rightarrow> test_session option" where
  "latest_open_session g did uid d =
     first_by (attempt_desc g) (\<lambda>s. (s_attempt s, s_id s))
       (\<lambda>s. of_user did uid s \<and> open_status (s_status s)) (test_sessions d)"

definition effective_max_attempts :: "delivery \<Rightarrow> int" where
  "effective_max_attempts dl = (if d_max_attempts dl \<le> 0 then 1 else d_max_attempts dl)"

definition attempts_of :: "string \<Rightarrow> string \<Rightarrow> db \<Rightarrow> nat" where
  "attempts_of did uid d = count_where (of_user did uid) (test_sessions d)"

definition begin_session :: "gorm \<Rightarrow> time \<Rightarrow> test_session \<Rightarrow> test_session" where
  "begin_session g now s =
     s\<lparr>s_status := InProgress, s_started_at := Some now, s_updated_at := orm_now g\<rparr>"

definition new_session :: "gorm \<Rightarrow> time \<Rightarrow> string \<Rightarrow> string \<Rightarrow> string \<Rightarrow> nat \<Rightarrow> test_session" where
  "new_session g now nid did uid attempts =
     \<lparr>s_id = nid, s_delivery_id = did, s_user_id = uid, s_attempt = int attempts + 1,
      s_status = InProgress, s_time_spent_seconds = 0, s_total_score = Fin 0,
      s_started_at = Some now, s_finished_at = None,
      s_created_at = orm_now g, s_updated_at = orm_now g\<rparr>"

definition start_session_tx ::
    "gorm \<Rightarrow> time \<Rightarrow> string \<Rightarrow> string \<Rightarrow> string \<Rightarrow> db \<Rightarrow> service_err + (test_session \<times> db)" where
  "start_session_tx g now nid did uid d =
     (if stmt_fails g 1 then Inl (ErrStatement 1)
      else case first_by (pk_le g) d_id (\<lambda>x. d_id x = did) (deliveries d) of
        None \<Rightarrow> Inl ErrDeliveryNotFound
      | Some dl \<Rightarrow>
          if delivery_closed now dl then Inl ErrDeliveryClosed
          else case check_groups g did uid d of
            Some e \<Rightarrow> Inl e
          | None \<Rightarrow>
              if stmt_fails g 4 then Inl (ErrStatement 4)
              else case latest_open_session g did uid d of
                Some s \<Rightarrow>
                  if s_status s = NotStarted then
                    if stmt_fails g 5 then Inl (ErrStatement 5)
                    else Inr (begin_session g now s,
                      d\<lparr>test_sessions :=
                        update_where (\<lambda>x. s_id x = s_id s) (begin_session g now) (test_sessions d)\<rparr>)
                  else Inr (s, d)
              | None \<Rightarrow>
                  if stmt_fails g 6 then Inl (ErrStatement 6)
                  else if effective_max_attempts dl \<le> int (attempts_of did uid d) then Inl ErrMaxAttempts
                  else if stmt_fails g 7 then Inl (ErrStatement 7)
                  else
                    let s = new_session g now nid did uid (attempts_of did uid d)
                    in case insert_row session_clash s (test_sessions d) of
                         None \<Rightarrow> Inl ErrConstraint
                       | Some rows \<Rightarrow> Inr (s, d\<lparr>test_sessions := rows\<rparr>))"

definition start_session ::
    "gorm \<Rightarrow> time \<Rightarrow> string \<Rightarrow> string \<Rightarrow> string \<Rightarrow> db \<Rightarrow> (service_err + test_session) \<times> db" where
  "start_session g now nid delivery_id user_id d =
     (let did = trim_space delivery_id; uid = trim_space user_id
      in if did = [] \<or> uid = [] then (Inl ErrDeliveryNotFound, d)
         else transaction g d (start_session_tx g now nid did uid d))"

section \<open>Looking up what a session may answer\<close>

definition in_delivery :: "string \<Rightarrow> db \<Rightarrow> test_item \<Rightarrow> bool" where
  "in_delivery did d ti \<longleftrightarrow>
     list_ex (\<lambda>sec. sec_id sec = ti_section_id ti
       \<and> list_ex (\<lambda>dl. d_id dl = did \<and> d_test_id dl = sec_test_id sec) (deliveries d))
       (test_sections d)"

definition zero_item :: item where
  "zero_item =
     \<lparr>i_id = [], i_title = [], i_prompt = [], i_type = OtherItemType [], i_options_json = [],
      i_correct_answer = [], i_max_score = Fin 0, i_layout_hint = [],
      i_created_at = zero_time, i_updated_at = zero_time\<rparr>"

text \<open>\<open>Preload("Item")\<close>: the item row, or the zero struct when there is none.\<close>

definition preload_item :: "db \<Rightarrow> test_item \<Rightarrow> item" where
  "preload_item d ti =
     (case find (\<lambda>i. i_id i = ti_item_id ti) (items d) of None \<Rightarrow> zero_item | Some i \<Rightarrow> i)"

definition find_delivery_test_item ::
    "gorm \<Rightarrow> nat \<Rightarrow> string \<Rightarrow> string \<Rightarrow> db \<Rightarrow> service_err + (test_item \<times> item)" where
  "find_delivery_test_item g k did iid d =
     (if stmt_fails g k then Inl (ErrStatement k)
      else case first_by (pk_le g) ti_id (\<lambda>ti. ti_item_id ti = iid \<and> in_delivery did d ti) (test_items d) of
        None \<Rightarrow> Inl ErrItemNotInDelivery
      | Some ti \<Rightarrow>
          if stmt_fails g (Suc k) then Inl (ErrStatement (Suc k)) else Inr (ti, preload_item d ti))"

definition delivery_time_limit :: "string \<Rightarrow> db \<Rightarrow> int" where
  "delivery_time_limit did d =
     (case [t_time_limit_seconds t. dl \<leftarrow> deliveries d, d_id dl = did, t \<leftarrow> tests d, t_id t = d_test_id dl] of
        [] \<Rightarrow> 0
      | n # _ \<Rightarrow> n)"

definition ensure_session_within_time_limit ::
    "gorm \<Rightarrow> nat \<Rightarrow> time \<Rightarrow> test_session \<Rightarrow> db \<Rightarrow> service_err option" where
  "ensure_session_within_time_limit g k now s d =
     (case s_started_at s of
        None \<Rightarrow> Some ErrSessionNotActive
      | Some started \<Rightarrow>
          if stmt_fails g k then Some (ErrStatement k)
          else
            let limit = delivery_time_limit (s_delivery_id s) d
            in if 0 < limit \<and> started + seconds_duration limit < now then Some ErrSessionExpired else None)"

definition ensure_item_belongs_to_delivery ::
    "gorm \<Rightarrow> nat \<Rightarrow> string \<Rightarrow> string \<Rightarrow> db \<Rightarrow> service_err option" where
  "ensure_item_belongs_to_delivery g k did iid d =
     (case find_delivery_test_item g k did iid d of Inl e \<Rightarrow> Some e | Inr _ \<Rightarrow> None)"

definition find_session :: "gorm \<Rightarrow> string \<Rightarrow> string \<Rightarrow> db \<Rightarrow> test_session option" where
  "find_session g sid uid d =
     first_by (pk_le g) s_id (\<lambda>s. s_id s = sid \<and> s_user_id s = uid) (test_sessions d)"

section \<open>Saving a response\<close>

definition answers :: "string \<Rightarrow> string \<Rightarrow> item_response \<Rightarrow> bool" where
  "answers sid iid r \<longleftrightarrow> r_session_id r = sid \<and> r_item_id r = iid"

definition new_response :: "time \<Rightarrow> string \<Rightarrow> string \<Rightarrow> string \<Rightarrow> string \<Rightarrow> item_response" where
  "new_response now rid sid iid response_data =
     \<lparr>r_id = rid, r_session_id = sid, r_item_id = iid, r_response_data = response_data,
      r_score_given = Fin 0, r_is_correct = False, r_responded_at = now\<rparr>"

text \<open>\<open>INSERT ... ON CONFLICT (session_id, item_id) DO UPDATE\<close>.\<close>

definition overwrite_response :: "item_response \<Rightarrow> item_response \<Rightarrow> item_response" where
  "overwrite_response new r =
     r\<lparr>r_response_data := r_response_data new, r_responded_at := r_responded_at new,
       r_score_given := Fin 0, r_is_correct := False\<rparr>"

definition upsert_response :: "item_response \<Rightarrow> item_response list \<Rightarrow> item_response list option" where
  "upsert_response r rows =
     (if list_ex (\<lambda>x. r_id x = r_id r) rows then None
      else if list_ex (answers (r_session_id r) (r_item_id r)) rows
      then Some (update_where (answers (r_session_id r) (r_item_id r)) (overwrite_response r) rows)
      else insert_row response_clash r rows)"

definition save_response_tx ::
    "gorm \<Rightarrow> time \<Rightarrow> time \<Rightarrow> string \<Rightarrow> string \<Rightarrow> string \<Rightarrow> string \<Rightarrow> string \<Rightarrow> db \<Rightarrow>
       service_err + (item_response \<times> db)" where
  "save_response_tx g now1 now2 rid sid uid iid response_data d =
     (if stmt_fails g 1 then Inl (ErrStatement 1)
      else case find_session g sid uid d of
        None \<Rightarrow> Inl ErrSessionNotFound
      | Some s \<Rightarrow>
          if s_status s = Completed then Inl ErrSessionCompleted
          else if s_status s \<noteq> InProgress then Inl ErrSessionNotActive
          else case ensure_session_within_time_limit g 2 now1 s d of
            Some e \<Rightarrow> Inl e
          | None \<Rightarrow>
              (case ensure_item_belongs_to_delivery g 3 (s_delivery_id s) iid d of
                 Some e \<Rightarrow> Inl e
               | None \<Rightarrow>
                   let saved = new_response now2 rid sid iid response_data
                   in if stmt_fails g 5 then Inl (ErrStatement 5)
                      else case upsert_response saved (item_responses d) of
                        None \<Rightarrow> Inl ErrConstraint
                      | Some rows \<Rightarrow>
                          if stmt_fails g 6 then Inl (ErrStatement 6)
                          else (case first_by (pk_le g) r_id
                                  (\<lambda>r. answers sid iid r \<and> (first_adds_pk g \<longrightarrow> r_id r = rid)) rows of
                              None \<Rightarrow> Inl ErrRecordNotFound
                            | Some r \<Rightarrow> Inr (r, d\<lparr>item_responses := rows\<rparr>))))"

definition save_response ::
    "gorm \<Rightarrow> time \<Rightarrow> time \<Rightarrow> string \<Rightarrow> string \<Rightarrow> string \<Rightarrow> string \<Rightarrow> string \<Rightarrow> db \<Rightarrow>
       (service_err + item_response) \<times> db" where
  "save_response g now1 now2 rid sid uid iid response_data d =
     transaction g d (save_response_tx g now1 now2 rid sid uid iid response_data d)"

section \<open>Submitting\<close>

type_synonym scorer = "item \<Rightarrow> string \<Rightarrow> f64 \<times> bool"

definition record_score :: "f64 \<Rightarrow> bool \<Rightarrow> item_response \<Rightarrow> item_response" where
  "record_score score correct r = r\<lparr>r_score_given := score, r_is_correct := correct\<rparr>"

text \<open>The scoring loop over the session's responses: statement counter, running total, database.\<close>

fun score_responses ::
    "gorm \<Rightarrow> scorer \<Rightarrow> string \<Rightarrow> item_response list \<Rightarrow> nat \<Rightarrow> f64 \<Rightarrow> db \<Rightarrow>
       service_err + (nat \<times> f64 \<times> db)" where
  "score_responses g sc did [] k tot d = Inr (k, tot, d)"
| "score_responses g sc did (r # rs) k tot d =
     (case find_delivery_test_item g k did (r_item_id r) d of
        Inl e \<Rightarrow> Inl e
      | Inr (ti, it) \<Rightarrow>
          if bad_points (ti_weight ti) \<or> bad_points (i_max_score it) then Inl (ErrOther ''item score setting'')
          else
            let (raw, correct) = sc it (r_response_data r);
                score = f64_mul raw (ti_weight ti)
            in if stmt_fails g (k + 2) then Inl (ErrStatement (k + 2))
               else
                 let d' = d\<lparr>item_responses :=
                       update_where (\<lambda>x. r_id x = r_id r) (record_score score correct) (item_responses d)\<rparr>;
                     tot' = f64_add tot score
                 in if f64_is_nan tot' \<or> f64_is_inf tot' then Inl (ErrOther ''total score overflow'')
                    else score_responses g sc did rs (k + 3) tot' d')"

definition responses_of :: "string \<Rightarrow> db \<Rightarrow> item_response list" where
  "responses_of sid d = filter (\<lambda>r. r_session_id r = sid) (item_responses d)"

definition finish_session :: "gorm \<Rightarrow> time \<Rightarrow> f64 \<Rightarrow> test_session \<Rightarrow> test_session" where
  "finish_session g now tot s =
     s\<lparr>s_status := Completed, s_total_score := tot, s_finished_at := Some now,
       s_time_spent_seconds :=
         (case s_started_at s of
            None \<Rightarrow> s_time_spent_seconds s
          | Some started \<Rightarrow> max 0 (f64_to_int (duration_seconds (time_sub now started)))),
       s_updated_at := orm_now g\<rparr>"

definition submit_session_tx ::
    "gorm \<Rightarrow> scorer \<Rightarrow> time \<Rightarrow> string \<Rightarrow> string \<Rightarrow> db \<Rightarrow>
       service_err + (((test_session \<times> item_response list) \<times> bool) \<times> db)" where
  "submit_session_tx g sc now sid uid d =
     (if stmt_fails g 1 then Inl (ErrStatement 1)
      else case find_session g sid uid d of
        None \<Rightarrow> Inl ErrSessionNotFound
      | Some s \<Rightarrow>
          if stmt_fails g 2 then Inl (ErrStatement 2)
          else if s_status s = Completed then Inr (((s, responses_of (s_id s) d), False), d)
          else if s_status s \<noteq> InProgress then Inl ErrSessionNotActive
          else case score_responses g sc (s_delivery_id s) (responses_of (s_id s) d) 3 (Fin 0) d of
            Inl e \<Rightarrow> Inl e
          | Inr (k, tot, d1) \<Rightarrow>
              if stmt_fails g k then Inl (ErrStatement k)
              else
                let hit = (\<lambda>x. s_id x = s_id s \<and> s_user_id x = uid \<and> s_status x = InProgress);
                    d2 = d1\<lparr>test_sessions := update_where hit (finish_session g now tot) (test_sessions d1)\<rparr>
                in if count_where hit (test_sessions d1) \<noteq> 1 then Inl ErrSessionCompleted
                   else if stmt_fails g (k + 1) then Inl (ErrStatement (k + 1))
                   else (case first_by (pk_le g) s_id (\<lambda>x. s_id x = s_id s) (test_sessions d2) of
                       None \<Rightarrow> Inl ErrRecordNotFound
                     | Some s2 \<Rightarrow>
                         if stmt_fails g (k + 2) then Inl (ErrStatement (k + 2))
                         else Inr (((s2, responses_of (s_id s2) d2), True), d2)))"

record completion_payload =
  cp_session_id :: string
  cp_delivery_id :: string
  cp_user_id :: string
  cp_total_score :: f64
  cp_time_spent_seconds :: int
  cp_finished_at :: "time option"

datatype effect =
    PublishEvent string "test_session \<times> item_response list"
  | DispatchWebhook string completion_payload
  | SpawnGradeSubmission test_session

text \<open>Which collaborators have been injected.\<close>

record session_service =
  has_event_bus :: bool
  has_webhook :: bool
  has_lti :: bool

definition payload_of :: "test_session \<Rightarrow> completion_payload" where
  "payload_of s =
     \<lparr>cp_session_id = s_id s, cp_delivery_id = s_delivery_id s, cp_user_id = s_user_id s,
      cp_total_score = s_total_score s, cp_time_spent_seconds = s_time_spent_seconds s,
      cp_finished_at = s_finished_at s\<rparr>"

definition completion_effects :: "session_service \<Rightarrow> test_session \<times> item_response list \<Rightarrow> effect list" where
  "completion_effects svc res =
     (if has_event_bus svc then [PublishEvent ''session.completed'' res] else [])
     @ (if has_webhook svc then [DispatchWebhook ''session.completed'' (payload_of (fst res))] else [])
     @ (if has_lti svc then [SpawnGradeSubmission (fst res)] else [])"

definition submit_session ::
    "session_service \<Rightarrow> gorm \<Rightarrow> scorer \<Rightarrow> time \<Rightarrow> string \<Rightarrow> string \<Rightarrow> db \<Rightarrow>
       (service_err + (test_session \<times> item_response list)) \<times> db \<times> effect list" where
  "submit_session svc g sc now sid uid d =
     (case transaction g d (submit_session_tx g sc now sid uid d) of
        (Inl e, d') \<Rightarrow> (Inl e, d', [])
      | (Inr (res, did_complete), d') \<Rightarrow>
          (Inr res, d', if did_complete then completion_effects svc res else []))"

section \<open>Reading\<close>

definition get_session ::
    "gorm \<Rightarrow> string \<Rightarrow> string \<Rightarrow> db \<Rightarrow> service_err + (test_session \<times> item_response list)" where
  "get_session g sid uid d =
     (if stmt_fails g 1 then Inl (ErrStatement 1)
      else case find_session g sid uid d of
        None \<Rightarrow> Inl ErrSessionNotFound
      | Some s \<Rightarrow>
          if stmt_fails g 2 then Inl (ErrStatement 2) else Inr (s, responses_of (s_id s) d))"

end
