(* ===== verification/SessionInvariants.thy ===== *)
theory SessionInvariants
  imports Session
begin

text \<open>
  Correctness of the session service: what each successful operation did to the database, the
  invariant of the session tables, and its preservation by starting, answering and submitting.
\<close>

section \<open>Facts about the queries\<close>

lemma map_filter_update_where:
  assumes "\<And>x. P x \<Longrightarrow> Q (f x) = Q x" and "\<And>x. P x \<Longrightarrow> h (f x) = h x"
  shows "map h (filter Q (update_where P f xs)) = map h (filter Q xs)"
  using assms by (induction xs) auto

lemma count_where_filter_map: "length (filter Q (update_where P f xs)) = count_where Q (update_where P f xs)"
  by (simp add: count_where_def)

lemma find_session_Some:
  "find_session g sid uid d = Some s \<Longrightarrow> s \<in> set (test_sessions d) \<and> s_id s = sid \<and> s_user_id s = uid"
  by (auto simp: find_session_def dest: first_by_Some)

lemma find_session_None:
  "find_session g sid uid d = None \<longleftrightarrow> (\<forall>s \<in> set (test_sessions d). s_id s = sid \<longrightarrow> s_user_id s \<noteq> uid)"
  by (auto simp: find_session_def first_by_None)

lemma find_session_unique:
  assumes "unique_rows session_clash (test_sessions d)" "s \<in> set (test_sessions d)"
  shows "find_session g (s_id s) (s_user_id s) d = Some s"
  unfolding find_session_def
  by (rule sessions.rows_first [OF assms(1,2)]) (auto simp: clash_on_def)

lemma latest_open_Some:
  "latest_open_session g did uid d = Some s \<Longrightarrow>
     s \<in> set (test_sessions d) \<and> of_user did uid s \<and> open_status (s_status s)"
  by (auto simp: latest_open_session_def dest: first_by_Some)

lemma latest_open_None:
  "latest_open_session g did uid d = None \<longleftrightarrow>
     (\<forall>s \<in> set (test_sessions d). of_user did uid s \<longrightarrow> \<not> open_status (s_status s))"
  by (auto simp: latest_open_session_def first_by_None)

lemma begin_session_simps [simp]:
  "s_id (begin_session g now s) = s_id s"
  "s_delivery_id (begin_session g now s) = s_delivery_id s"
  "s_user_id (begin_session g now s) = s_user_id s"
  "s_attempt (begin_session g now s) = s_attempt s"
  "s_status (begin_session g now s) = InProgress"
  "s_started_at (begin_session g now s) = Some now"
  by (simp_all add: begin_session_def)

lemma finish_session_simps [simp]:
  "s_id (finish_session g now tot s) = s_id s"
  "s_delivery_id (finish_session g now tot s) = s_delivery_id s"
  "s_user_id (finish_session g now tot s) = s_user_id s"
  "s_attempt (finish_session g now tot s) = s_attempt s"
  "s_status (finish_session g now tot s) = Completed"
  "s_started_at (finish_session g now tot s) = s_started_at s"
  "s_total_score (finish_session g now tot s) = tot"
  "s_finished_at (finish_session g now tot s) = Some now"
  by (simp_all add: finish_session_def)

lemma of_user_begin [simp]: "of_user did uid (begin_session g now s) = of_user did uid s"
  by (simp add: of_user_def)

lemma of_user_finish [simp]: "of_user did uid (finish_session g now tot s) = of_user did uid s"
  by (simp add: of_user_def)

section \<open>What a successful start did\<close>

text \<open>The checks every successful start has passed.\<close>

definition admitted :: "gorm \<Rightarrow> time \<Rightarrow> string \<Rightarrow> string \<Rightarrow> db \<Rightarrow> delivery \<Rightarrow> bool" where
  "admitted g now did uid d dl \<longleftrightarrow>
     first_by (pk_le g) d_id (\<lambda>x. d_id x = did) (deliveries d) = Some dl
     \<and> \<not> delivery_closed now dl
     \<and> (0 < restricted_group_count did d \<longrightarrow> 0 < membership_count did uid d)"

lemma check_groups_None:
  "check_groups g did uid d = None \<Longrightarrow> 0 < restricted_group_count did d \<longrightarrow> 0 < membership_count did uid d"
  by (auto simp: check_groups_def split: if_splits)

lemma start_session_tx_Inr:
  assumes "start_session_tx g now nid did uid d = Inr (s, d')"
  obtains
    (existing) dl where "admitted g now did uid d dl" "s \<in> set (test_sessions d)" "of_user did uid s"
      "open_status (s_status s)" "s_status s \<noteq> NotStarted" "d' = d"
  | (begun) dl s0 where "admitted g now did uid d dl" "s0 \<in> set (test_sessions d)" "of_user did uid s0"
      "s_status s0 = NotStarted" "s = begin_session g now s0"
      "d' = d\<lparr>test_sessions := update_where (\<lambda>x. s_id x = s_id s0) (begin_session g now) (test_sessions d)\<rparr>"
  | (created) dl where "admitted g now did uid d dl" "latest_open_session g did uid d = None"
      "int (attempts_of did uid d) < effective_max_attempts dl"
      "s = new_session g now nid did uid (attempts_of did uid d)"
      "\<forall>y \<in> set (test_sessions d). \<not> session_clash s y"
      "d' = d\<lparr>test_sessions := test_sessions d @ [s]\<rparr>"
proof -
  from assms obtain dl where dl: "first_by (pk_le g) d_id (\<lambda>x. d_id x = did) (deliveries d) = Some dl"
    and "\<not> delivery_closed now dl" and cg: "check_groups g did uid d = None"
    by (auto simp: start_session_tx_def split: if_splits option.splits)
  then have adm: "admitted g now did uid d dl"
    by (auto simp: admitted_def dest: check_groups_None)
  show thesis
  proof (cases "latest_open_session g did uid d")
    case None
    with assms dl have "int (attempts_of did uid d) < effective_max_attempts dl"
      "s = new_session g now nid did uid (attempts_of did uid d)"
      "insert_row session_clash s (test_sessions d) = Some (test_sessions d')"
      "d' = d\<lparr>test_sessions := test_sessions d'\<rparr>"
      by (auto simp: start_session_tx_def Let_def split: if_splits option.splits)
    with None adm show thesis by (intro created) (auto simp: db_simps)
  next
    case (Some s0)
    note open_s0 = latest_open_Some [OF Some]
    show thesis
    proof (cases "s_status s0 = NotStarted")
      case True
      with Some assms dl have "s = begin_session g now s0"
        "d' = d\<lparr>test_sessions := update_where (\<lambda>x. s_id x = s_id s0) (begin_session g now) (test_sessions d)\<rparr>"
        by (auto simp: start_session_tx_def split: if_splits option.splits)
      with True adm open_s0 show thesis by (intro begun) auto
    next
      case False
      with Some assms dl have "s = s0" "d' = d"
        by (auto simp: start_session_tx_def split: if_splits option.splits)
      with False adm open_s0 show thesis by (intro existing) auto
    qed
  qed
qed

lemma start_session_Inr:
  assumes "start_session g now nid did uid d = (Inr s, d')"
  shows "start_session_tx g now nid (trim_space did) (trim_space uid) d = Inr (s, d')"
    and "trim_space did \<noteq> []" and "trim_space uid \<noteq> []"
  using assms by (auto simp: start_session_def Let_def transaction_Inr split: if_splits)

lemma start_session_Inl: "start_session g now nid did uid d = (Inl e, d') \<Longrightarrow> d' = d"
  by (auto simp: start_session_def Let_def transaction_Inl split: if_splits)

section \<open>What a successful save did\<close>

text \<open>The session a start hands out, and the only table it may have written.\<close>

lemma start_session_stored:
  assumes "start_session g now nid did uid d = (Inr s, d')"
  shows "of_user (trim_space did) (trim_space uid) s \<and> s \<in> set (test_sessions d')
    \<and> (s_status s = InProgress \<or> s_status s = Paused) \<and> d' = d\<lparr>test_sessions := test_sessions d'\<rparr>"
proof -
  have "start_session_tx g now nid (trim_space did) (trim_space uid) d = Inr (s, d')"
    using assms by (auto dest: start_session_Inr)
  then show ?thesis
  proof (cases rule: start_session_tx_Inr)
    case existing
    then show ?thesis by (auto simp: open_status_def)
  next
    case begun
    then show ?thesis by (auto simp: set_update_where)
  next
    case created
    then show ?thesis by (auto simp: new_session_def of_user_def)
  qed
qed

lemma upsert_response_cases:
  assumes "upsert_response r rows = Some rows'"
  obtains
    (overwrite) "\<exists>x \<in> set rows. answers (r_session_id r) (r_item_id r) x"
      "rows' = update_where (answers (r_session_id r) (r_item_id r)) (overwrite_response r) rows"
  | (insert) "\<forall>x \<in> set rows. \<not> answers (r_session_id r) (r_item_id r) x"
      "\<forall>x \<in> set rows. r_id x \<noteq> r_id r" "rows' = rows @ [r]"
  using assms
  by (auto simp: upsert_response_def db_simps list_ex_iff clash_on_def split: if_splits)

lemma upsert_response_fresh:
  assumes "upsert_response r rows = Some rows'"
  shows "\<forall>x \<in> set rows. r_id x \<noteq> r_id r"
  using assms by (auto simp: upsert_response_def list_ex_iff split: if_splits)

lemma overwrite_response_simps [simp]:
  "r_id (overwrite_response n r) = r_id r"
  "r_session_id (overwrite_response n r) = r_session_id r"
  "r_item_id (overwrite_response n r) = r_item_id r"
  "r_response_data (overwrite_response n r) = r_response_data n"
  by (simp_all add: overwrite_response_def)

lemma record_score_simps [simp]:
  "r_id (record_score p c r) = r_id r"
  "r_session_id (record_score p c r) = r_session_id r"
  "r_item_id (record_score p c r) = r_item_id r"
  "r_response_data (record_score p c r) = r_response_data r"
  "r_responded_at (record_score p c r) = r_responded_at r"
  "r_score_given (record_score p c r) = p"
  "r_is_correct (record_score p c r) = c"
  by (simp_all add: record_score_def)

lemma new_response_simps [simp]:
  "r_id (new_response now rid sid iid x) = rid"
  "r_session_id (new_response now rid sid iid x) = sid"
  "r_item_id (new_response now rid sid iid x) = iid"
  "r_response_data (new_response now rid sid iid x) = x"
  "r_score_given (new_response now rid sid iid x) = Fin 0"
  "\<not> r_is_correct (new_response now rid sid iid x)"
  "r_responded_at (new_response now rid sid iid x) = now"
  by (simp_all add: new_response_def)

lemma save_response_tx_Inr:
  assumes "save_response_tx g now1 now2 rid sid uid iid dat d = Inr (r, d')"
  obtains s rows where "find_session g sid uid d = Some s" "s_status s = InProgress"
    "ensure_session_within_time_limit g 2 now1 s d = None"
    "ensure_item_belongs_to_delivery g 3 (s_delivery_id s) iid d = None"
    "upsert_response (new_response now2 rid sid iid dat) (item_responses d) = Some rows"
    "first_by (pk_le g) r_id (\<lambda>r. answers sid iid r \<and> (first_adds_pk g \<longrightarrow> r_id r = rid)) rows = Some r"
    "d' = d\<lparr>item_responses := rows\<rparr>"
  using assms by (auto simp: save_response_tx_def Let_def split: if_splits option.splits)

lemma save_response_Inl: "save_response g now1 now2 rid sid uid iid dat d = (Inl e, d') \<Longrightarrow> d' = d"
  by (auto simp: save_response_def transaction_Inl)

lemma save_response_Inr:
  "save_response g now1 now2 rid sid uid iid dat d = (Inr r, d') \<Longrightarrow>
     save_response_tx g now1 now2 rid sid uid iid dat d = Inr (r, d')"
  by (auto simp: save_response_def transaction_Inr)

section \<open>What the scoring loop did\<close>

text \<open>The score a response earns: the raw score of its item times the weight in the delivery.\<close>

definition delivery_test_item :: "gorm \<Rightarrow> string \<Rightarrow> string \<Rightarrow> db \<Rightarrow> test_item option" where
  "delivery_test_item g did iid d =
     first_by (pk_le g) ti_id (\<lambda>ti. ti_item_id ti = iid \<and> in_delivery did d ti) (test_items d)"

definition response_points :: "gorm \<Rightarrow> scorer \<Rightarrow> string \<Rightarrow> db \<Rightarrow> item_response \<Rightarrow> f64 \<times> bool" where
  "response_points g sc did d r =
     (case delivery_test_item g did (r_item_id r) d of
        None \<Rightarrow> (Fin 0, False)
      | Some ti \<Rightarrow>
          (f64_mul (fst (sc (preload_item d ti) (r_response_data r))) (ti_weight ti),
           snd (sc (preload_item d ti) (r_response_data r))))"

definition apply_points :: "gorm \<Rightarrow> scorer \<Rightarrow> string \<Rightarrow> db \<Rightarrow> item_response \<Rightarrow> item_response" where
  "apply_points g sc did d r =
     record_score (fst (response_points g sc did d r)) (snd (response_points g sc did d r)) r"

definition sum_points :: "gorm \<Rightarrow> scorer \<Rightarrow> string \<Rightarrow> db \<Rightarrow> f64 \<Rightarrow> item_response list \<Rightarrow> f64" where
  "sum_points g sc did d = foldl (\<lambda>t r. f64_add t (fst (response_points g sc did d r)))"

lemma find_delivery_test_item_Inr:
  "find_delivery_test_item g k did iid d = Inr (ti, it) \<longleftrightarrow>
     \<not> stmt_fails g k \<and> \<not> stmt_fails g (Suc k) \<and> delivery_test_item g did iid d = Some ti \<and> it = preload_item d ti"
  by (auto simp: find_delivery_test_item_def delivery_test_item_def split: option.splits)

lemma in_delivery_responses [simp]: "in_delivery did (d\<lparr>item_responses := x\<rparr>) = in_delivery did d"
  by (simp add: in_delivery_def fun_eq_iff)

lemma preload_item_responses [simp]: "preload_item (d\<lparr>item_responses := x\<rparr>) = preload_item d"
  by (simp add: preload_item_def fun_eq_iff)

lemma delivery_test_item_responses [simp]:
  "delivery_test_item g did iid (d\<lparr>item_responses := x\<rparr>) = delivery_test_item g did iid d"
  by (simp add: delivery_test_item_def)

lemma response_points_responses [simp]:
  "response_points g sc did (d\<lparr>item_responses := x\<rparr>) = response_points g sc did d"
  by (simp add: response_points_def fun_eq_iff split: option.split)

lemma response_points_cong:
  "r_item_id r = r_item_id r' \<Longrightarrow> r_response_data r = r_response_data r' \<Longrightarrow>
     response_points g sc did d r = response_points g sc did d r'"
  by (simp add: response_points_def split: option.split)

lemma update_where_twice:
  assumes "\<And>x. x \<in> set xs \<Longrightarrow> P x \<Longrightarrow> h (f x) = h x" "\<And>x. Q (f x) = Q x"
    and "\<And>x. x \<in> set xs \<Longrightarrow> P x \<Longrightarrow> f x = h x" and "\<And>x. h (h x) = h x"
  shows "update_where Q h (update_where P f xs) = update_where (\<lambda>x. P x \<or> Q x) h xs"
  using assms by (induction xs) auto

lemma score_responses_Inr:
  assumes "score_responses g sc did rs k tot d = Inr (k', tot', d')"
    and "\<And>r x. r \<in> set rs \<Longrightarrow> x \<in> set (item_responses d) \<Longrightarrow> r_id x = r_id r \<Longrightarrow>
       r_item_id x = r_item_id r \<and> r_response_data x = r_response_data r"
  shows "tot' = sum_points g sc did d tot rs
    \<and> d' = d\<lparr>item_responses :=
        update_where (\<lambda>x. r_id x \<in> r_id ` set rs) (apply_points g sc did d) (item_responses d)\<rparr>"
  using assms
proof (induction rs arbitrary: k tot d)
  case Nil
  then show ?case by (simp add: sum_points_def update_where_none)
next
  case (Cons r rs)
  define p where "p = response_points g sc did d r"
  define d1 where "d1 = d\<lparr>item_responses :=
    update_where (\<lambda>x. r_id x = r_id r) (record_score (fst p) (snd p)) (item_responses d)\<rparr>"
  from Cons.prems(1) obtain ti where ti: "delivery_test_item g did (r_item_id r) d = Some ti"
    and rest: "score_responses g sc did rs (k + 3) (f64_add tot (fst p)) d1 = Inr (k', tot', d')"
    by (auto simp: find_delivery_test_item_Inr d1_def p_def response_points_def Let_def
        split: sum.splits prod.splits if_splits)
  have pts: "response_points g sc did d1 = response_points g sc did d" by (simp add: d1_def)
  have ap: "apply_points g sc did d1 = apply_points g sc did d"
    by (simp add: apply_points_def fun_eq_iff pts)
  have IH: "tot' = sum_points g sc did d1 (f64_add tot (fst p)) rs
    \<and> d' = d1\<lparr>item_responses :=
        update_where (\<lambda>x. r_id x \<in> r_id ` set rs) (apply_points g sc did d1) (item_responses d1)\<rparr>"
  proof (rule Cons.IH [OF rest])
    fix r' x
    assume "r' \<in> set rs" and x: "x \<in> set (item_responses d1)" and "r_id x = r_id r'"
    from x obtain y where "y \<in> set (item_responses d)" "r_id x = r_id y" "r_item_id x = r_item_id y"
        "r_response_data x = r_response_data y"
      by (auto simp: d1_def set_update_where)
    with \<open>r' \<in> set rs\<close> \<open>r_id x = r_id r'\<close> Cons.prems(2) [of r' y]
    show "r_item_id x = r_item_id r' \<and> r_response_data x = r_response_data r'" by auto
  qed
  have eq: "record_score (fst p) (snd p) x = apply_points g sc did d x"
    if "x \<in> set (item_responses d)" "r_id x = r_id r" for x
    using Cons.prems(2) [of r x] that response_points_cong [of x r g sc did d]
    by (simp add: apply_points_def p_def)
  have idem: "apply_points g sc did d (apply_points g sc did d x) = apply_points g sc did d x" for x
    using response_points_cong [of "apply_points g sc did d x" x g sc did d]
    by (simp add: apply_points_def record_score_def)
  have "update_where (\<lambda>x. r_id x \<in> r_id ` set rs) (apply_points g sc did d) (item_responses d1)
      = update_where (\<lambda>x. r_id x = r_id r \<or> r_id x \<in> r_id ` set rs) (apply_points g sc did d) (item_responses d)"
    unfolding d1_def using idem eq
    by (simp add: update_where_twice)
  then show ?case
    using IH unfolding ap by (simp add: sum_points_def pts p_def d1_def)
qed

section \<open>The invariant of the session tables\<close>

text \<open>
  Rows are unique; the attempts of a user at a delivery are numbered 1, 2, ... in the order they
  were created; at most one of them is open; every response belongs to a stored session; and an
  open session has a start time, a completed one a finish time.
\<close>

definition open_of :: "string \<Rightarrow> string \<Rightarrow> test_session \<Rightarrow> bool" where
  "open_of did uid s \<longleftrightarrow> of_user did uid s \<and> open_status (s_status s)"

definition session_inv :: "db \<Rightarrow> bool" where
  "session_inv d \<longleftrightarrow>
     unique_rows session_clash (test_sessions d)
     \<and> unique_rows response_clash (item_responses d)
     \<and> (\<forall>did uid. map s_attempt (filter (of_user did uid) (test_sessions d))
          = map int [1..<Suc (attempts_of did uid d)])
     \<and> (\<forall>did uid. count_where (open_of did uid) (test_sessions d) \<le> 1)
     \<and> (\<forall>r \<in> set (item_responses d). r_session_id r \<in> s_id ` set (test_sessions d))"

lemma session_invD:
  assumes "session_inv d"
  shows "unique_rows session_clash (test_sessions d)"
    and "unique_rows response_clash (item_responses d)"
    and "map s_attempt (filter (of_user did uid) (test_sessions d)) = map int [1..<Suc (attempts_of did uid d)]"
    and "count_where (open_of did uid) (test_sessions d) \<le> 1"
    and "r \<in> set (item_responses d) \<Longrightarrow> r_session_id r \<in> s_id ` set (test_sessions d)"
  using assms unfolding session_inv_def by blast+

text \<open>Changing rows in place keeps the invariant when keys stay and no session is reopened.\<close>

lemma session_inv_update:
  assumes inv: "session_inv d"
    and keep: "\<And>s. P s \<Longrightarrow> s_id (f s) = s_id s \<and> s_delivery_id (f s) = s_delivery_id s
        \<and> s_user_id (f s) = s_user_id s \<and> s_attempt (f s) = s_attempt s"
    and closed: "\<And>s. P s \<Longrightarrow> open_status (s_status (f s)) \<Longrightarrow> open_status (s_status s)"
    and rows: "unique_rows response_clash rs" "r_session_id ` set rs \<subseteq> s_id ` set (test_sessions d)"
  shows "session_inv (d\<lparr>test_sessions := update_where P f (test_sessions d), item_responses := rs\<rparr>)"
proof -
  let ?ss = "update_where P f (test_sessions d)"
  have of_f: "of_user did uid (f s) = of_user did uid s" if "P s" for did uid s
    using keep [OF that] by (simp add: of_user_def)
  have u: "unique_rows session_clash ?ss"
    using session_invD(1) [OF inv] by (rule sessions.rows_update) (simp add: clash_on_def keep)
  have c: "count_where (of_user did uid) ?ss = count_where (of_user did uid) (test_sessions d)" for did uid
    using of_f by (induction "test_sessions d") (auto simp: update_where_def count_where_def filter_map o_def intro!: filter_cong)
  have a: "map s_attempt (filter (of_user did uid) ?ss) = map s_attempt (filter (of_user did uid) (test_sessions d))"
    for did uid
    by (rule map_filter_update_where) (simp_all add: of_f keep)
  have o: "count_where (open_of did uid) (update_where P f xs) \<le> count_where (open_of did uid) xs" for did uid xs
    using of_f closed by (induction xs) (auto simp: open_of_def)
  have "count_where (open_of did uid) ?ss \<le> 1" for did uid
    using o [of did uid "test_sessions d"] session_invD(4) [OF inv, of did uid] by linarith
  moreover have "s_id ` set ?ss = s_id ` set (test_sessions d)"
  proof -
    have "map s_id ?ss = map s_id (test_sessions d)"
      using keep by (simp add: update_where_def)
    then show ?thesis by (metis set_map)
  qed
  ultimately show ?thesis
    using u a c rows session_invD(3) [OF inv] by (auto simp: session_inv_def attempts_of_def)
qed

section \<open>Preservation by the operations\<close>

lemma session_inv_begin:
  assumes "session_inv d"
    and "s0 \<in> set (test_sessions d)" "s_status s0 = NotStarted"
  shows "session_inv (d\<lparr>test_sessions :=
    update_where (\<lambda>x. s_id x = s_id s0) (begin_session g now) (test_sessions d)\<rparr>)"
proof -
  have "update_where (\<lambda>x. s_id x = s_id s0) (begin_session g now) (test_sessions d)
      = update_where (\<lambda>x. s_id x = s_id s0 \<and> s_status x = NotStarted) (begin_session g now) (test_sessions d)"
  proof -
    have "x = s0" if "x \<in> set (test_sessions d)" "s_id x = s_id s0" for x
      using sessions.rows_determined [OF session_invD(1) [OF assms(1)] that(1) assms(2)] that(2)
      by (simp add: clash_on_def)
    then show ?thesis using assms(3) unfolding update_where_def by (intro map_cong) auto
  qed
  moreover have "session_inv (d\<lparr>test_sessions :=
      update_where (\<lambda>x. s_id x = s_id s0 \<and> s_status x = NotStarted) (begin_session g now) (test_sessions d),
      item_responses := item_responses d\<rparr>)"
    using assms(1) session_invD(2,5) [OF assms(1)]
    by (intro session_inv_update) (auto simp: open_status_def)
  ultimately show ?thesis by simp
qed

lemma count_where_open_none:
  "latest_open_session g did uid d = None \<Longrightarrow> count_where (open_of did uid) (test_sessions d) = 0"
  by (auto simp: latest_open_None open_of_def count_where_zero_iff)

lemma session_inv_create:
  assumes inv: "session_inv d" and none: "latest_open_session g did uid d = None"
    and s: "s = new_session g now nid did uid (attempts_of did uid d)"
    and fresh: "\<forall>y \<in> set (test_sessions d). \<not> session_clash s y"
  shows "session_inv (d\<lparr>test_sessions := test_sessions d @ [s]\<rparr>)"
proof -
  have own: "of_user did' uid' s \<longleftrightarrow> did' = did \<and> uid' = uid" for did' uid'
    by (auto simp: s new_session_def of_user_def)
  have st: "s_status s = InProgress" "s_attempt s = int (attempts_of did uid d) + 1"
    by (simp_all add: s new_session_def)
  have u: "unique_rows session_clash (test_sessions d @ [s])"
    using session_invD(1) [OF inv] fresh by (intro sessions.rows_append) auto
  have a: "map s_attempt (filter (of_user did' uid') (test_sessions d @ [s]))
      = map int [1..<Suc (count_where (of_user did' uid') (test_sessions d @ [s]))]" for did' uid'
  proof (cases "did' = did \<and> uid' = uid")
    case True
    then show ?thesis
      using session_invD(3) [OF inv, of did uid] by (simp add: own st attempts_of_def)
  next
    case False
    then show ?thesis
      using session_invD(3) [OF inv, of did' uid'] by (auto simp: own attempts_of_def)
  qed
  have "count_where (open_of did' uid') (test_sessions d @ [s]) \<le> 1" for did' uid'
    using session_invD(4) [OF inv, of did' uid'] count_where_open_none [OF none]
    by (auto simp: open_of_def [of did' uid' s] own)
  then show ?thesis
    using u a session_invD(2,5) [OF inv] unfolding session_inv_def by (auto simp: attempts_of_def)
qed

lemma session_inv_start [wf_intros]:
  assumes "session_inv d" and "start_session g now nid did uid d = (res, d')"
  shows "session_inv d'"
proof (cases res)
  case (Inl e)
  with assms show ?thesis by (auto dest: start_session_Inl)
next
  case (Inr s)
  with assms(2) have tx: "start_session_tx g now nid (trim_space did) (trim_space uid) d = Inr (s, d')"
    by (auto dest: start_session_Inr)
  from tx show ?thesis
  proof (cases rule: start_session_tx_Inr)
    case existing
    with assms(1) show ?thesis by simp
  next
    case begun
    with assms(1) show ?thesis by (simp add: session_inv_begin)
  next
    case created
    with assms(1) show ?thesis by (simp only: session_inv_create)
  qed
qed

lemma unique_rows_upsert:
  assumes "unique_rows response_clash rows" and "upsert_response r rows = Some rows'"
  shows "unique_rows response_clash rows'"
  using assms(2)
proof (cases rule: upsert_response_cases)
  case overwrite
  with assms(1) show ?thesis by (simp add: responses.rows_update clash_on_def)
next
  case insert
  have "\<not> response_clash r y" if "y \<in> set rows" for y
    using insert(1,2) that by (metis answers_def clash_on_def prod.inject)
  with assms(1) show ?thesis unfolding insert(3) by (rule responses.rows_append)
qed

lemma session_inv_save [wf_intros]:
  assumes inv: "session_inv d" and "save_response g now1 now2 rid sid uid iid dat d = (res, d')"
  shows "session_inv d'"
proof (cases res)
  case (Inl e)
  with assms show ?thesis by (auto dest: save_response_Inl)
next
  case (Inr r)
  with assms(2) have tx: "save_response_tx g now1 now2 rid sid uid iid dat d = Inr (r, d')"
    by (auto dest: save_response_Inr)
  then obtain s rows where s: "find_session g sid uid d = Some s"
    and rows: "upsert_response (new_response now2 rid sid iid dat) (item_responses d) = Some rows"
    and d': "d' = d\<lparr>item_responses := rows\<rparr>"
    by (rule save_response_tx_Inr)
  have "r_session_id ` set rows \<subseteq> s_id ` set (test_sessions d)"
    using rows
  proof (cases rule: upsert_response_cases)
    case overwrite
    then show ?thesis using session_invD(5) [OF inv] by (auto simp: set_update_where)
  next
    case insert
    then show ?thesis using session_invD(5) [OF inv] find_session_Some [OF s] by auto
  qed
  then show ?thesis
    using inv unique_rows_upsert [OF session_invD(2) [OF inv] rows]
    by (auto simp: d' session_inv_def attempts_of_def)
qed

section \<open>What a successful submission did\<close>

lemma submit_session_tx_Inr:
  assumes "submit_session_tx g sc now sid uid d = Inr ((res, did_complete), d')"
  obtains
    (already) s where "find_session g sid uid d = Some s" "s_status s = Completed"
      "res = (s, responses_of sid d)" "\<not> did_complete" "d' = d"
  | (finished) s k tot d1 s2 where "find_session g sid uid d = Some s" "s_status s = InProgress"
      "score_responses g sc (s_delivery_id s) (responses_of sid d) 3 (Fin 0) d = Inr (k, tot, d1)"
      "d' = d1\<lparr>test_sessions := update_where
          (\<lambda>x. s_id x = sid \<and> s_user_id x = uid \<and> s_status x = InProgress)
          (finish_session g now tot) (test_sessions d1)\<rparr>"
      "first_by (pk_le g) s_id (\<lambda>x. s_id x = sid) (test_sessions d') = Some s2"
      "res = (s2, responses_of (s_id s2) d')" "did_complete"
proof -
  from assms obtain s where s: "find_session g sid uid d = Some s"
    by (auto simp: submit_session_tx_def split: if_splits option.splits)
  have sid: "s_id s = sid" using find_session_Some [OF s] by simp
  consider "s_status s = Completed" | "s_status s = InProgress"
    using assms s by (auto simp: submit_session_tx_def split: if_splits)
  then show thesis
  proof cases
    case 1
    with assms s sid show thesis
      by (intro already [of s]) (auto simp: submit_session_tx_def split: if_splits)
  next
    case 2
    with assms s sid show thesis
      by (auto simp: submit_session_tx_def Let_def split: if_splits sum.splits prod.splits option.splits
          intro!: finished)
  qed
qed

lemma responses_of_ids:
  assumes "unique_rows response_clash (item_responses d)" "x \<in> set (item_responses d)"
  shows "r_id x \<in> r_id ` set (responses_of sid d) \<longleftrightarrow> r_session_id x = sid"
  using assms responses.rows_determined [OF assms(1)]
  by (auto simp: responses_of_def clash_on_def)

lemma update_where_cong:
  "(\<And>x. x \<in> set xs \<Longrightarrow> P x = Q x) \<Longrightarrow> update_where P f xs = update_where Q f xs"
  unfolding update_where_def by (intro map_cong) auto

lemma score_session_responses:
  assumes "session_inv d"
    and "score_responses g sc did (responses_of sid d) k (Fin 0) d = Inr (k', tot, d1)"
  shows "tot = sum_points g sc did d (Fin 0) (responses_of sid d)"
    and "d1 = d\<lparr>item_responses :=
        update_where (\<lambda>r. r_session_id r = sid) (apply_points g sc did d) (item_responses d)\<rparr>"
proof -
  note u = session_invD(2) [OF assms(1)]
  have "r_item_id x = r_item_id r \<and> r_response_data x = r_response_data r"
    if "r \<in> set (responses_of sid d)" "x \<in> set (item_responses d)" "r_id x = r_id r" for r x
    using responses.rows_determined [OF u that(2), of r] that by (auto simp: responses_of_def clash_on_def)
  note res = score_responses_Inr [OF assms(2) this]
  show "tot = sum_points g sc did d (Fin 0) (responses_of sid d)" by (rule res [THEN conjunct1])
  have "update_where (\<lambda>x. r_id x \<in> r_id ` set (responses_of sid d)) (apply_points g sc did d) (item_responses d)
      = update_where (\<lambda>r. r_session_id r = sid) (apply_points g sc did d) (item_responses d)"
    by (rule update_where_cong) (rule responses_of_ids [OF u])
  with res [THEN conjunct2]
  show "d1 = d\<lparr>item_responses :=
        update_where (\<lambda>r. r_session_id r = sid) (apply_points g sc did d) (item_responses d)\<rparr>"
    by (simp only:)
qed

text \<open>The database after completing the session \<open>s\<close>.\<close>

definition completed_db :: "gorm \<Rightarrow> scorer \<Rightarrow> time \<Rightarrow> test_session \<Rightarrow> db \<Rightarrow> db" where
  "completed_db g sc now s d =
     d\<lparr>test_sessions := update_where (\<lambda>x. s_id x = s_id s)
         (finish_session g now (sum_points g sc (s_delivery_id s) d (Fin 0) (responses_of (s_id s) d)))
         (test_sessions d),
       item_responses := update_where (\<lambda>r. r_session_id r = s_id s)
         (apply_points g sc (s_delivery_id s) d) (item_responses d)\<rparr>"

lemma apply_points_simps [simp]:
  "r_id (apply_points g sc did d r) = r_id r"
  "r_session_id (apply_points g sc did d r) = r_session_id r"
  "r_item_id (apply_points g sc did d r) = r_item_id r"
  "r_response_data (apply_points g sc did d r) = r_response_data r"
  by (simp_all add: apply_points_def)

lemma submit_finished:
  assumes inv: "session_inv d"
    and tx: "submit_session_tx g sc now sid uid d = Inr ((res, True), d')"
  obtains s where "s \<in> set (test_sessions d)" "s_id s = sid" "s_user_id s = uid" "s_status s = InProgress"
    "d' = completed_db g sc now s d"
    "res = (finish_session g now (sum_points g sc (s_delivery_id s) d (Fin 0) (responses_of sid d)) s,
            map (apply_points g sc (s_delivery_id s) d) (responses_of sid d))"
  using tx
proof (cases rule: submit_session_tx_Inr)
  case already
  then show thesis by simp
next
  case (finished s k tot d1 s2)
  have s: "s \<in> set (test_sessions d)" "s_id s = sid" "s_user_id s = uid"
    using find_session_Some [OF finished(1)] by auto
  note u = session_invD(1) [OF inv]
  note tot = score_session_responses(1) [OF inv finished(3)]
  note d1 = score_session_responses(2) [OF inv finished(3)]
  have only: "x = s" if "x \<in> set (test_sessions d)" "s_id x = sid" for x
    using sessions.rows_determined [OF u that(1) s(1)] that(2) s(2) by (simp add: clash_on_def)
  have eq: "update_where (\<lambda>x. s_id x = sid \<and> s_user_id x = uid \<and> s_status x = InProgress)
      (finish_session g now tot) (test_sessions d)
    = update_where (\<lambda>x. s_id x = sid) (finish_session g now tot) (test_sessions d)"
  proof (rule update_where_cong)
    fix x assume x: "x \<in> set (test_sessions d)"
    have "s_user_id x = uid \<and> s_status x = InProgress" if "s_id x = sid"
      unfolding only [OF x that] using s(3) finished(2) by simp
    then show "(s_id x = sid \<and> s_user_id x = uid \<and> s_status x = InProgress) = (s_id x = sid)"
      by blast
  qed
  have d': "d' = completed_db g sc now s d"
    unfolding finished(4) completed_db_def s(2) tot [symmetric] d1 by (simp add: eq)
  have u': "unique_rows session_clash (test_sessions d')"
    unfolding d' completed_db_def by (simp add: sessions.rows_update [OF u] clash_on_def)
  have in': "finish_session g now tot s \<in> set (test_sessions d')"
    using s by (auto simp: d' completed_db_def set_update_where tot)
  have "first_by (pk_le g) s_id (\<lambda>x. s_id x = sid) (test_sessions d') = Some (finish_session g now tot s)"
    by (rule sessions.rows_first [OF u' in']) (auto simp: s clash_on_def)
  then have s2: "s2 = finish_session g now tot s" using finished(5) by simp
  have "responses_of sid d' = map (apply_points g sc (s_delivery_id s) d) (responses_of sid d)"
  proof -
    have "filter (\<lambda>r. r_session_id r = sid)
        (update_where (\<lambda>r. r_session_id r = sid) (apply_points g sc (s_delivery_id s) d) xs)
      = map (apply_points g sc (s_delivery_id s) d) (filter (\<lambda>r. r_session_id r = sid) xs)" for xs
      by (induction xs) auto
    then show ?thesis by (simp add: responses_of_def d' completed_db_def s)
  qed
  then show thesis
    using that [OF s finished(2) d'] finished(6) by (simp add: s2 s tot)
qed

lemma session_inv_completed:
  assumes "session_inv d" "s \<in> set (test_sessions d)"
  shows "session_inv (completed_db g sc now s d)"
  unfolding completed_db_def
proof (rule session_inv_update [OF assms(1)])
  show "unique_rows response_clash (update_where (\<lambda>r. r_session_id r = s_id s)
      (apply_points g sc (s_delivery_id s) d) (item_responses d))"
    by (rule responses.rows_update [OF session_invD(2) [OF assms(1)]]) (simp add: clash_on_def)
  show "r_session_id ` set (update_where (\<lambda>r. r_session_id r = s_id s)
      (apply_points g sc (s_delivery_id s) d) (item_responses d)) \<subseteq> s_id ` set (test_sessions d)"
    using session_invD(5) [OF assms(1)] assms(2) by (auto simp: set_update_where)
qed (auto simp: open_status_def)

lemma submit_session_Inr:
  assumes "submit_session svc g sc now sid uid d = (Inr res, d', effs)"
  obtains did_complete where "submit_session_tx g sc now sid uid d = Inr ((res, did_complete), d')"
    "effs = (if did_complete then completion_effects svc res else [])"
  using assms by (auto simp: submit_session_def transaction_Inr split: sum.splits prod.splits)

lemma submit_session_Inl:
  "submit_session svc g sc now sid uid d = (Inl e, d', effs) \<Longrightarrow> d' = d \<and> effs = []"
  by (auto simp: submit_session_def transaction_Inl split: sum.splits prod.splits)

lemma session_inv_submit [wf_intros]:
  assumes inv: "session_inv d" and "submit_session svc g sc now sid uid d = (res, d', effs)"
  shows "session_inv d'"
proof (cases res)
  case (Inl e)
  with assms show ?thesis by (auto dest: submit_session_Inl)
next
  case (Inr r)
  with assms(2) obtain dc where tx: "submit_session_tx g sc now sid uid d = Inr ((r, dc), d')"
    by (auto elim: submit_session_Inr)
  show ?thesis
  proof (cases dc)
    case True
    with tx have "submit_session_tx g sc now sid uid d = Inr ((r, True), d')" by simp
    with inv show ?thesis by (rule submit_finished) (simp add: session_inv_completed inv)
  next
    case False
    with tx show ?thesis by (cases rule: submit_session_tx_Inr) (simp_all add: inv)
  qed
qed

end
