(* ===== verification/Proctor.thy ===== *)
theory Proctor
  imports SessionInvariants
begin

text \<open>
  The proctoring service of \<open>internal/service/proctor_service.go\<close>: recording an event of a running
  session, listing the events of a session by time, and the analytics report with its risk level.
  The totals of the report are Go's 64-bit \<open>int\<close>, whose additions wrap around (\<open>wrap_int64\<close>).
\<close>

section \<open>Recording\<close>

fun valid_proctor_event_type :: "proctor_event_type \<Rightarrow> bool" where
  "valid_proctor_event_type (OtherEventType _) = False"
| "valid_proctor_event_type _ = True"

definition valid_event_content :: "proctor_event \<Rightarrow> bool" where
  "valid_event_content e \<longleftrightarrow>
     valid_proctor_event_type (pe_event_type e) \<and> \<not> pe_duration_seconds e < 0
     \<and> \<not> 86400 < pe_duration_seconds e \<and> \<not> 4096 < length (pe_details e)"

text \<open>The checks, on the database the \<open>SELECT\<close> sees; the completed event is what is inserted.\<close>

definition prepare_event ::
    "gorm \<Rightarrow> time \<Rightarrow> string \<Rightarrow> proctor_event \<Rightarrow> string \<Rightarrow> db \<Rightarrow> service_err + proctor_event" where
  "prepare_event g now nid e uid d =
     (if stmt_fails g 1 then Inl (ErrStatement 1)
      else case find_session g (pe_session_id e) uid d of
        None \<Rightarrow> Inl ErrSessionNotFound
      | Some s \<Rightarrow>
          if s_status s \<noteq> InProgress then Inl ErrSessionNotActive
          else if \<not> valid_event_content e then Inl (ErrOther ''invalid proctor event'')
          else Inr (e\<lparr>pe_details := trim_space (pe_details e),
                      pe_id := (if pe_id e = [] then nid else pe_id e),
                      pe_created_at := (if pe_created_at e = zero_time then now else pe_created_at e)\<rparr>))"

definition create_event :: "gorm \<Rightarrow> proctor_event \<Rightarrow> db \<Rightarrow> (service_err + proctor_event) \<times> db" where
  "create_event g e d =
     (if stmt_fails g 2 then (Inl (ErrStatement 2), d)
      else case insert_row proctor_event_clash e (proctor_events d) of
        None \<Rightarrow> (Inl ErrConstraint, d)
      | Some rows \<Rightarrow> (Inr e, d\<lparr>proctor_events := rows\<rparr>))"

text \<open>
  \<open>RecordEvent\<close> runs its two statements outside a transaction: the insert works on the database
  \<open>d2\<close> that other requests may have changed since the check read \<open>d1\<close>.
\<close>

definition record_event ::
    "gorm \<Rightarrow> time \<Rightarrow> string \<Rightarrow> proctor_event \<Rightarrow> string \<Rightarrow> db \<Rightarrow> db \<Rightarrow> (service_err + proctor_event) \<times> db" where
  "record_event g now nid e uid d1 d2 =
     (case prepare_event g now nid e uid d1 of
        Inl err \<Rightarrow> (Inl err, d2)
      | Inr e' \<Rightarrow> create_event g e' d2)"

section \<open>Reporting\<close>

definition get_session_proctor_log :: "gorm \<Rightarrow> string \<Rightarrow> db \<Rightarrow> service_err + proctor_event list" where
  "get_session_proctor_log g sid d =
     (if stmt_fails g 1 then Inl (ErrStatement 1)
      else Inr (sort_key pe_created_at (filter (\<lambda>e. pe_session_id e = sid) (proctor_events d))))"

definition count_event :: "proctor_summary \<Rightarrow> proctor_event \<Rightarrow> proctor_summary" where
  "count_event s e =
     (case pe_event_type e of
        TabSwitch \<Rightarrow> s\<lparr>ps_total_tab_switches := wrap_int64 (ps_total_tab_switches s + 1),
          ps_total_focus_lost_seconds := wrap_int64 (ps_total_focus_lost_seconds s + pe_duration_seconds e)\<rparr>
      | FocusLost \<Rightarrow> s\<lparr>ps_total_tab_switches := wrap_int64 (ps_total_tab_switches s + 1),
          ps_total_focus_lost_seconds := wrap_int64 (ps_total_focus_lost_seconds s + pe_duration_seconds e)\<rparr>
      | ScreenshotAttempt \<Rightarrow> s\<lparr>ps_total_screenshot_attempts := wrap_int64 (ps_total_screenshot_attempts s + 1)\<rparr>
      | CopyAttempt \<Rightarrow> s\<lparr>ps_total_copy_attempts := wrap_int64 (ps_total_copy_attempts s + 1)\<rparr>
      | _ \<Rightarrow> s)"

definition risk_level :: "proctor_summary \<Rightarrow> string" where
  "risk_level s =
     (if ps_total_tab_switches s \<ge> 5 \<or> ps_total_focus_lost_seconds s \<ge> 120
         \<or> ps_total_copy_attempts s \<ge> 3 \<or> ps_total_screenshot_attempts s \<ge> 3 then ''HIGH''
      else if ps_total_tab_switches s \<ge> 2 \<or> ps_total_focus_lost_seconds s \<ge> 30
         \<or> ps_total_copy_attempts s \<ge> 1 \<or> ps_total_screenshot_attempts s \<ge> 1 then ''MEDIUM''
      else ps_risk_level s)"

definition summarize :: "string \<Rightarrow> proctor_event list \<Rightarrow> proctor_summary" where
  "summarize sid events =
     (let s = foldl count_event
            \<lparr>ps_session_id = sid, ps_total_tab_switches = 0, ps_total_focus_lost_seconds = 0,
             ps_total_screenshot_attempts = 0, ps_total_copy_attempts = 0, ps_risk_level = ''LOW''\<rparr> events
      in s\<lparr>ps_risk_level := risk_level s\<rparr>)"

definition get_proctor_analytics :: "gorm \<Rightarrow> string \<Rightarrow> db \<Rightarrow> service_err + proctor_summary" where
  "get_proctor_analytics g sid d =
     bind_res (get_session_proctor_log g sid d) (\<lambda>events. Inr (summarize sid events))"

section \<open>Lemmas\<close>

lemma prepare_event_Inr:
  "prepare_event g now nid e uid d = Inr e' \<Longrightarrow>
     (\<exists>s \<in> set (test_sessions d). s_id s = pe_session_id e \<and> s_user_id s = uid \<and> s_status s = InProgress)
     \<and> valid_event_content e \<and> pe_session_id e' = pe_session_id e \<and> pe_event_type e' = pe_event_type e
     \<and> pe_duration_seconds e' = pe_duration_seconds e \<and> pe_details e' = trim_space (pe_details e)
     \<and> (pe_id e = [] \<longrightarrow> pe_id e' = nid) \<and> (pe_created_at e = zero_time \<longrightarrow> pe_created_at e' = now)"
  by (auto simp: prepare_event_def split: if_splits option.splits dest: find_session_Some)

lemma create_event_Inr:
  "create_event g e d = (Inr e', d') \<longleftrightarrow>
     \<not> stmt_fails g 2 \<and> e' = e \<and> (\<forall>y \<in> set (proctor_events d). pe_id y \<noteq> pe_id e)
     \<and> d' = d\<lparr>proctor_events := proctor_events d @ [e]\<rparr>"
proof (cases "insert_row proctor_event_clash e (proctor_events d)")
  case None
  then have "\<exists>y \<in> set (proctor_events d). pe_id y = pe_id e" by (auto simp: db_simps clash_on_def)
  with None show ?thesis by (auto simp: create_event_def)
next
  case (Some rows)
  then have "(\<forall>y \<in> set (proctor_events d). pe_id y \<noteq> pe_id e) \<and> rows = proctor_events d @ [e]"
    by (auto simp: db_simps clash_on_def)
  with Some show ?thesis by (auto simp: create_event_def)
qed

lemma create_event_Inl: "create_event g e d = (Inl err, d') \<Longrightarrow> d' = d"
  by (auto simp: create_event_def split: if_splits option.splits)

lemma record_event_Inr:
  "record_event g now nid e uid d1 d2 = (Inr e', d') \<Longrightarrow>
     prepare_event g now nid e uid d1 = Inr e' \<and> create_event g e' d2 = (Inr e', d')"
  by (auto simp: record_event_def create_event_Inr split: sum.splits)

lemma record_event_Inl: "record_event g now nid e uid d1 d2 = (Inl err, d') \<Longrightarrow> d' = d2"
  by (auto simp: record_event_def dest: create_event_Inl split: sum.splits)

text \<open>The fold is a set of counters: declaratively, the aggregates of the session's rows.\<close>

abbreviation leaves_page :: "proctor_event \<Rightarrow> bool" where
  "leaves_page e \<equiv> pe_event_type e = TabSwitch \<or> pe_event_type e = FocusLost"

definition lost_seconds :: "proctor_event list \<Rightarrow> int" where
  "lost_seconds es = sum_list (map pe_duration_seconds (filter leaves_page es))"

lemma wrap_zero [simp]: "wrap_int64 0 = 0"
  by (rule wrap_int64_id) auto

lemma wrap_again: "wrap_int64 (wrap_int64 a) = wrap_int64 a"
  using wrap_int64_add [of a 0] by simp

text \<open>The fields of the fold are sums, reduced to 64 bits; \<open>wrapped\<close> is what every prefix of it satisfies.\<close>

definition counted :: "int \<Rightarrow> int \<Rightarrow> int \<Rightarrow> int \<Rightarrow> string \<Rightarrow> string \<Rightarrow> proctor_summary" where
  "counted n t p c sid risk =
     \<lparr>ps_session_id = sid, ps_total_tab_switches = wrap_int64 n, ps_total_focus_lost_seconds = wrap_int64 t,
      ps_total_screenshot_attempts = wrap_int64 p, ps_total_copy_attempts = wrap_int64 c, ps_risk_level = risk\<rparr>"

lemma count_events:
  "foldl count_event (counted n t p c sid risk) es =
     counted (n + int (count_where leaves_page es)) (t + lost_seconds es)
       (p + int (count_where (\<lambda>e. pe_event_type e = ScreenshotAttempt) es))
       (c + int (count_where (\<lambda>e. pe_event_type e = CopyAttempt) es)) sid risk"
proof (induction es arbitrary: n t p c)
  case Nil
  then show ?case by (simp add: lost_seconds_def)
next
  case (Cons e es)
  have "count_event (counted n t p c sid risk) e =
     counted (n + (if leaves_page e then 1 else 0)) (t + (if leaves_page e then pe_duration_seconds e else 0))
       (p + (if pe_event_type e = ScreenshotAttempt then 1 else 0))
       (c + (if pe_event_type e = CopyAttempt then 1 else 0)) sid risk"
    by (cases "pe_event_type e") (simp_all add: count_event_def counted_def wrap_int64_add)
  then show ?case unfolding foldl.simps by (simp add: Cons lost_seconds_def add_ac)
qed

lemma mset_count_where: "mset xs = mset ys \<Longrightarrow> count_where P xs = count_where P ys"
  unfolding count_where_def by (metis mset_filter size_mset)

lemma mset_lost_seconds: "mset xs = mset ys \<Longrightarrow> lost_seconds xs = lost_seconds ys"
  unfolding lost_seconds_def sum_mset_sum_list [symmetric] by simp

lemma summarize_eq:
  "summarize sid es =
     (let n = wrap_int64 (int (count_where leaves_page es)); t = wrap_int64 (lost_seconds es);
          p = wrap_int64 (int (count_where (\<lambda>e. pe_event_type e = ScreenshotAttempt) es));
          c = wrap_int64 (int (count_where (\<lambda>e. pe_event_type e = CopyAttempt) es))
      in \<lparr>ps_session_id = sid, ps_total_tab_switches = n, ps_total_focus_lost_seconds = t,
          ps_total_screenshot_attempts = p, ps_total_copy_attempts = c,
          ps_risk_level =
            (if 5 \<le> n \<or> 120 \<le> t \<or> 3 \<le> c \<or> 3 \<le> p then ''HIGH''
             else if 2 \<le> n \<or> 30 \<le> t \<or> 1 \<le> c \<or> 1 \<le> p then ''MEDIUM'' else ''LOW'')\<rparr>)"
proof -
  have "\<lparr>ps_session_id = sid, ps_total_tab_switches = 0, ps_total_focus_lost_seconds = 0,
      ps_total_screenshot_attempts = 0, ps_total_copy_attempts = 0, ps_risk_level = ''LOW''\<rparr> = counted 0 0 0 0 sid ''LOW''"
    by (simp add: counted_def)
  then show ?thesis
    by (simp add: summarize_def count_events) (simp add: counted_def risk_level_def Let_def)
qed

text \<open>Events as they are recorded, and in any number a table can hold, do not reach the wrap-around.\<close>

definition day_events :: "proctor_event list \<Rightarrow> bool" where
  "day_events es \<longleftrightarrow> list_all (\<lambda>e. 0 \<le> pe_duration_seconds e \<and> pe_duration_seconds e \<le> 86400) es \<and> length es \<le> 10 ^ 14"

lemma lost_seconds_bounds:
  "list_all (\<lambda>e. 0 \<le> pe_duration_seconds e \<and> pe_duration_seconds e \<le> 86400) es \<Longrightarrow>
     0 \<le> lost_seconds es \<and> lost_seconds es \<le> 86400 * int (length es)"
  by (induction es) (auto simp: lost_seconds_def)

lemma count_where_length: "count_where P xs \<le> length xs"
  by (simp add: count_where_def)

lemma day_events_exact:
  assumes "day_events es"
  shows "wrap_int64 (lost_seconds es) = lost_seconds es" "wrap_int64 (int (count_where P es)) = int (count_where P es)"
proof -
  from assms have len: "length es \<le> 10 ^ 14"
    and b: "0 \<le> lost_seconds es" "lost_seconds es \<le> 86400 * int (length es)"
    using lost_seconds_bounds [of es] by (auto simp: day_events_def)
  from len have "int (length es) \<le> 10 ^ 14" by simp
  with b show "wrap_int64 (lost_seconds es) = lost_seconds es" by (intro wrap_int64_id) auto
  show "wrap_int64 (int (count_where P es)) = int (count_where P es)"
    using count_where_length [of P es] \<open>int (length es) \<le> 10 ^ 14\<close> by (intro wrap_int64_id) auto
qed

lemma summarize_mset: "mset es = mset es' \<Longrightarrow> summarize sid es = summarize sid es'"
  unfolding summarize_eq by (simp add: mset_count_where [of es es'] mset_lost_seconds [of es es'])

definition risk_rank :: "string \<Rightarrow> nat" where
  "risk_rank r = (if r = ''HIGH'' then 2 else if r = ''MEDIUM'' then 1 else 0)"

definition session_events :: "string \<Rightarrow> db \<Rightarrow> proctor_event list" where
  "session_events sid d = filter (\<lambda>e. pe_session_id e = sid) (proctor_events d)"

lemma analytics_of_events:
  "\<not> stmt_fails g 1 \<Longrightarrow> get_proctor_analytics g sid d = Inr (summarize sid (session_events sid d))"
  unfolding get_proctor_analytics_def get_session_proctor_log_def session_events_def
  by (simp add: summarize_mset [OF mset_sort])

section \<open>Properties\<close>

text \<open>
  Claim C37: the analytics report is the aggregate of the session's events, whatever the order in
  which the database returns rows with equal times: the number of tab switches and focus losses,
  the sum of their durations, the numbers of screenshot and copy attempts, each as a 64-bit integer;
  and the risk level is HIGH from 5, 120, 3 or 3 of these, MEDIUM from 2, 30, 1 or 1, and LOW
  otherwise.  For at most \<open>10 ^ 14\<close> events of 0 to 86400 seconds each, no total wraps around.
\<close>
theorem analytics_functional:
  shows "get_proctor_analytics g sid d =
    (if stmt_fails g 1 then Inl (ErrStatement 1)
     else
       let es = filter (\<lambda>e. pe_session_id e = sid) (proctor_events d);
           lost = filter (\<lambda>e. pe_event_type e = TabSwitch \<or> pe_event_type e = FocusLost) es;
           exact = list_all (\<lambda>e. 0 \<le> pe_duration_seconds e \<and> pe_duration_seconds e \<le> 86400) es \<and> length es \<le> 10 ^ 14;
           total = (\<lambda>i. if exact then i else wrap_int64 i);
           n = total (int (length lost)); t = total (sum_list (map pe_duration_seconds lost));
           p = total (int (length (filter (\<lambda>e. pe_event_type e = ScreenshotAttempt) es)));
           c = total (int (length (filter (\<lambda>e. pe_event_type e = CopyAttempt) es)))
       in Inr \<lparr>ps_session_id = sid, ps_total_tab_switches = n, ps_total_focus_lost_seconds = t,
            ps_total_screenshot_attempts = p, ps_total_copy_attempts = c,
            ps_risk_level =
              (if 5 \<le> n \<or> 120 \<le> t \<or> 3 \<le> c \<or> 3 \<le> p then ''HIGH''
               else if 2 \<le> n \<or> 30 \<le> t \<or> 1 \<le> c \<or> 1 \<le> p then ''MEDIUM'' else ''LOW'')\<rparr>)"
proof (cases "stmt_fails g 1")
  case True
  then show ?thesis by (simp add: get_proctor_analytics_def get_session_proctor_log_def)
next
  case False
  let ?es = "session_events sid d"
  have "get_proctor_analytics g sid d = Inr (summarize sid ?es)" using False by (rule analytics_of_events)
  moreover have "wrap_int64 (lost_seconds ?es) = (if day_events ?es then lost_seconds ?es else wrap_int64 (lost_seconds ?es))"
    "wrap_int64 (int (count_where P ?es)) = (if day_events ?es then int (count_where P ?es) else wrap_int64 (int (count_where P ?es)))"
    for P using day_events_exact [of ?es] by simp_all
  ultimately show ?thesis
    using False
    by (simp only: summarize_eq Let_def if_False) (simp only: session_events_def day_events_def lost_seconds_def count_where_def)
qed

text \<open>
  Claim C38: a recorded event never lowers a risk level.  As long as the stored events are such as the service
  records, of 0 to 86400 seconds, and fewer than \<open>10 ^ 14\<close>, after any accepted event the report of every
  session ranks at least as high as before (LOW below MEDIUM below HIGH).
\<close>
theorem recorded_event_raises_risk:
  assumes "record_event g now nid e uid d1 d = (Inr e', d')" and "\<not> stmt_fails g' 1"
    and "list_all (\<lambda>e. 0 \<le> pe_duration_seconds e \<and> pe_duration_seconds e \<le> 86400) (proctor_events d)"
    and "length (proctor_events d) < 10 ^ 14"
  shows "\<exists>old new. get_proctor_analytics g' sid d = Inr old \<and> get_proctor_analytics g' sid d' = Inr new
    \<and> risk_rank (ps_risk_level old) \<le> risk_rank (ps_risk_level new)"
proof -
  let ?es = "session_events sid d" and ?new = "session_events sid d @ (if pe_session_id e' = sid then [e'] else [])"
  from record_event_Inr [OF assms(1)] have d': "d' = d\<lparr>proctor_events := proctor_events d @ [e']\<rparr>"
    and e': "0 \<le> pe_duration_seconds e'" "pe_duration_seconds e' \<le> 86400"
    by (auto simp: create_event_Inr valid_event_content_def dest: prepare_event_Inr)
  have es: "session_events sid d' = ?new" by (simp add: session_events_def d')
  have "length ?es \<le> length (proctor_events d)" by (simp add: session_events_def)
  moreover have "list_all (\<lambda>e. 0 \<le> pe_duration_seconds e \<and> pe_duration_seconds e \<le> 86400) ?es"
    using assms(3) by (auto simp: list_all_iff session_events_def)
  ultimately have day: "day_events ?es" "day_events ?new"
    using assms(4) e' by (auto simp: day_events_def)
  have "risk_rank (ps_risk_level (summarize sid ?es)) \<le> risk_rank (ps_risk_level (summarize sid ?new))"
    unfolding summarize_eq day_events_exact [OF day(1)] day_events_exact [OF day(2)] Let_def proctor_summary.select_convs
    using e'(1) by (auto simp: risk_rank_def lost_seconds_def)
  with assms(2) show ?thesis by (simp add: analytics_of_events es)
qed

text \<open>
  An event is recorded only for a session its reporter owns and which is running when it
  is checked; the stored row has a known type, a duration between 0 and 86400 seconds and at most
  4096 bytes of details, trimmed; it is appended and nothing else changes; and a rejected event
  changes nothing.
\<close>
theorem record_event_guarded:
  shows "case record_event g now nid e uid d1 d of
      (Inl _, d') \<Rightarrow> d' = d
    | (Inr e', d') \<Rightarrow> d' = d\<lparr>proctor_events := proctor_events d @ [e']\<rparr>
        \<and> valid_event_content e' \<and> pe_details e' = trim_space (pe_details e) \<and> pe_session_id e' = pe_session_id e
        \<and> list_ex (\<lambda>s. s_id s = pe_session_id e \<and> s_user_id s = uid \<and> s_status s = InProgress) (test_sessions d1)"
proof (cases "record_event g now nid e uid d1 d")
  case (Pair res d')
  show ?thesis
  proof (cases res)
    case (Inl err)
    with Pair show ?thesis by (auto dest: record_event_Inl)
  next
    case (Inr e')
    with Pair have r: "prepare_event g now nid e uid d1 = Inr e'" "create_event g e' d = (Inr e', d')"
      by (auto dest: record_event_Inr)
    from prepare_event_Inr [OF r(1)] r(2) Pair Inr show ?thesis
      using length_trim_space [of "pe_details e"]
      by (auto simp: create_event_Inr valid_event_content_def list_ex_iff)
  qed
qed

end
