(* ===== verification/SessionProps.thy ===== *)
theory SessionProps
  imports SessionInvariants
begin

text \<open>
  The steps of the session service: the step relation of its operations, the preservation of the
  invariant by every step, what a step can change (attempts stay bounded, completed sessions stay
  as they are), and the effect of each operation on the tables, case by case.
\<close>

section \<open>Steps\<close>

text \<open>
  Transactions lock the row they start from, so operations are atomic steps; any user may issue
  any of them at any time, with any clock, fresh identifiers and database behaviour.
\<close>

inductive session_step :: "session_service \<Rightarrow> scorer \<Rightarrow> db \<Rightarrow> db \<Rightarrow> bool" for svc sc where
  step_start: "start_session g now nid did uid d = (res, d') \<Longrightarrow> session_step svc sc d d'"
| step_save: "save_response g now1 now2 rid sid uid iid dat d = (res, d') \<Longrightarrow> session_step svc sc d d'"
| step_submit: "submit_session svc g sc now sid uid d = (res, d', effs) \<Longrightarrow> session_step svc sc d d'"

inductive_cases session_stepE: "session_step svc sc d d'"

lemma session_inv_step [wf_intros]: "session_step svc sc d d' \<Longrightarrow> session_inv d \<Longrightarrow> session_inv d'"
  by (erule session_stepE) (blast intro: wf_intros)+

definition no_sessions :: "db \<Rightarrow> bool" where
  "no_sessions d \<longleftrightarrow> test_sessions d = [] \<and> item_responses d = []"

lemma session_inv_initial: "no_sessions d \<Longrightarrow> session_inv d"
  by (simp add: no_sessions_def session_inv_def attempts_of_def)

text \<open>
  What a step can do to the stored sessions and responses.  Everything else, the configuration
  of deliveries and tests in particular, is not written.
\<close>

lemma start_session_effect:
  assumes "start_session g now nid did uid d = (res, d')"
  obtains (same) "d' = d"
  | (begun) s0 where "s0 \<in> set (test_sessions d)" "s_status s0 = NotStarted"
      "d' = d\<lparr>test_sessions := update_where (\<lambda>x. s_id x = s_id s0) (begin_session g now) (test_sessions d)\<rparr>"
  | (created) dl where "admitted g now (trim_space did) (trim_space uid) d dl"
      "int (attempts_of (trim_space did) (trim_space uid) d) < effective_max_attempts dl"
      "d' = d\<lparr>test_sessions := test_sessions d @
        [new_session g now nid (trim_space did) (trim_space uid) (attempts_of (trim_space did) (trim_space uid) d)]\<rparr>"
proof (cases res)
  case (Inl e)
  with assms show thesis by (intro same) (auto dest: start_session_Inl)
next
  case (Inr s)
  with assms have "start_session_tx g now nid (trim_space did) (trim_space uid) d = Inr (s, d')"
    by (auto dest: start_session_Inr)
  then show thesis
    by (cases rule: start_session_tx_Inr) (use same begun created in blast)+
qed

lemma save_response_effect:
  assumes "save_response g now1 now2 rid sid uid iid dat d = (res, d')"
  obtains (same) "d' = d"
  | (saved) s rows where "find_session g sid uid d = Some s" "s_status s = InProgress"
      "upsert_response (new_response now2 rid sid iid dat) (item_responses d) = Some rows"
      "d' = d\<lparr>item_responses := rows\<rparr>"
proof (cases res)
  case (Inl e)
  with assms show thesis by (intro same) (auto dest: save_response_Inl)
next
  case (Inr r)
  with assms have "save_response_tx g now1 now2 rid sid uid iid dat d = Inr (r, d')"
    by (auto dest: save_response_Inr)
  then show thesis by (rule save_response_tx_Inr) (use saved in blast)
qed

lemma submit_session_effect:
  assumes "session_inv d" and "submit_session svc g sc now sid uid d = (res, d', effs)"
  obtains (same) "d' = d" "effs = []"
  | (completed) s where "s \<in> set (test_sessions d)" "s_id s = sid" "s_user_id s = uid"
      "s_status s = InProgress" "d' = completed_db g sc now s d"
proof (cases res)
  case (Inl e)
  with assms show thesis by (intro same) (auto dest: submit_session_Inl)
next
  case (Inr r)
  with assms(2) obtain dc where tx: "submit_session_tx g sc now sid uid d = Inr ((r, dc), d')"
    and effs: "effs = (if dc then completion_effects svc r else [])"
    by (auto elim: submit_session_Inr)
  show thesis
  proof (cases dc)
    case True
    with tx have "submit_session_tx g sc now sid uid d = Inr ((r, True), d')" by simp
    with assms(1) show thesis by (rule submit_finished) (use completed in blast)
  next
    case False
    with tx effs show thesis by (cases rule: submit_session_tx_Inr) (use same in auto)
  qed
qed

lemma completed_db_other [simp]:
  "deliveries (completed_db g sc now s d) = deliveries d"
  by (simp add: completed_db_def)

lemma session_step_deliveries:
  assumes "session_step svc sc d d'" and "session_inv d"
  shows "deliveries d' = deliveries d"
  using assms(1)
proof cases
  case (step_start g now nid did uid res)
  then show ?thesis by (cases rule: start_session_effect) auto
next
  case (step_save g now1 now2 rid sid uid iid dat res)
  then show ?thesis by (cases rule: save_response_effect) auto
next
  case (step_submit g now sid uid res effs)
  with assms(2) show ?thesis by (cases rule: submit_session_effect) auto
qed

lemma attempts_bounded_step:
  assumes step: "session_step svc sc d d'" and inv: "session_inv d"
    and dl: "dl \<in> set (deliveries d)" "distinct (map d_id (deliveries d))"
    and le: "int (attempts_of (d_id dl) uid d) \<le> effective_max_attempts dl"
  shows "int (attempts_of (d_id dl) uid d') \<le> effective_max_attempts dl"
  using step
proof cases
  case (step_start g now nid did uid' res)
  from step_start show ?thesis
  proof (cases rule: start_session_effect)
    case same
    with le show ?thesis by simp
  next
    case begun
    with le show ?thesis by (simp add: attempts_of_def count_where_update_where)
  next
    case (created dl')
    show ?thesis
    proof (cases "trim_space did = d_id dl \<and> trim_space uid' = uid")
      case True
      have "dl' \<in> set (deliveries d)" "d_id dl' = d_id dl"
        using created(1) True by (auto simp: admitted_def dest: first_by_Some)
      then have "dl' = dl" using dl distinct_map_inj by metis
      with created True show ?thesis by (simp add: attempts_of_def of_user_def new_session_def)
    next
      case False
      with created le show ?thesis by (auto simp: attempts_of_def of_user_def new_session_def)
    qed
  qed
next
  case (step_save g now1 now2 rid sid uid' iid dat res)
  then show ?thesis by (cases rule: save_response_effect) (use le in \<open>auto simp: attempts_of_def\<close>)
next
  case (step_submit g now sid uid' res effs)
  with inv show ?thesis
  proof (cases rule: submit_session_effect)
    case same
    with le show ?thesis by simp
  next
    case completed
    with le show ?thesis by (simp add: attempts_of_def completed_db_def count_where_update_where)
  qed
qed

section \<open>Completed sessions are frozen\<close>

lemma responses_of_upsert_other:
  assumes "upsert_response r rows = Some rows'" "r_session_id r \<noteq> sid"
  shows "filter (\<lambda>x. r_session_id x = sid) rows' = filter (\<lambda>x. r_session_id x = sid) rows"
  using assms(1)
proof (cases rule: upsert_response_cases)
  case overwrite
  show ?thesis unfolding overwrite(2)
    by (rule filter_update_where_other) (use assms(2) in \<open>auto simp: answers_def\<close>)
next
  case insert
  then show ?thesis using assms(2) by simp
qed

lemma in_update_where_other: "x \<in> set xs \<Longrightarrow> \<not> P x \<Longrightarrow> x \<in> set (update_where P f xs)"
  by (auto simp: set_update_where)

lemma completed_frozen_step:
  assumes step: "session_step svc sc d d'" and inv: "session_inv d"
    and s: "s \<in> set (test_sessions d)" "s_status s = Completed"
  shows "s \<in> set (test_sessions d') \<and> responses_of (s_id s) d' = responses_of (s_id s) d"
proof -
  note u = session_invD(1) [OF inv]
  have only: "s_status x = Completed" if "x \<in> set (test_sessions d)" "s_id x = s_id s" for x
    using sessions.rows_determined [OF u that(1) s(1)] that(2) s(2) by (simp add: clash_on_def)
  from step show ?thesis
  proof cases
    case (step_start g now nid did uid res)
    then show ?thesis
    proof (cases rule: start_session_effect)
      case (begun s0)
      then have "s_id s \<noteq> s_id s0" using only [of s0] by auto
      with begun s show ?thesis by (simp add: responses_of_def in_update_where_other)
    qed (use s in \<open>auto simp: responses_of_def\<close>)
  next
    case (step_save g now1 now2 rid sid uid iid dat res)
    then show ?thesis
    proof (cases rule: save_response_effect)
      case (saved s1 rows)
      have "sid \<noteq> s_id s" using find_session_Some [OF saved(1)] only [of s1] saved(2) by auto
      with saved(3) have "filter (\<lambda>x. r_session_id x = s_id s) rows
          = filter (\<lambda>x. r_session_id x = s_id s) (item_responses d)"
        by (intro responses_of_upsert_other) auto
      with saved s show ?thesis by (simp add: responses_of_def)
    qed (use s in simp)
  next
    case (step_submit g now sid uid res effs)
    with inv show ?thesis
    proof (cases rule: submit_session_effect)
      case (completed s1)
      then have "s_id s1 \<noteq> s_id s" using only [of s1] by auto
      with completed s show ?thesis
        by (auto simp: completed_db_def responses_of_def in_update_where_other filter_update_where_other)
    qed (use s in simp)
  qed
qed

section \<open>The life cycle\<close>

definition live_or_done :: "test_session \<Rightarrow> bool" where
  "live_or_done s \<longleftrightarrow>
     s_started_at s \<noteq> None
     \<and> (s_status s = InProgress \<and> s_finished_at s = None \<and> s_total_score s = Fin 0
        \<or> s_status s = Completed \<and> s_finished_at s \<noteq> None)"

lemma live_or_done_step:
  assumes step: "session_step svc sc d d'" and inv: "session_inv d"
    and all: "list_all live_or_done (test_sessions d)"
  shows "list_all live_or_done (test_sessions d')"
  using step
proof cases
  case (step_start g now nid did uid res)
  then show ?thesis
  proof (cases rule: start_session_effect)
    case (begun s0)
    then show ?thesis using all by (auto simp: list_all_iff live_or_done_def)
  qed (use all in \<open>auto simp: live_or_done_def new_session_def\<close>)
next
  case (step_save g now1 now2 rid sid uid iid dat res)
  then show ?thesis by (cases rule: save_response_effect) (use all in auto)
next
  case (step_submit g now sid uid res effs)
  with inv show ?thesis
    by (cases rule: submit_session_effect)
      (use all in \<open>auto simp: completed_db_def list_all_iff set_update_where live_or_done_def\<close>)
qed

end
