(* ===== verification/SessionOps.thy ===== *)
theory SessionOps
  imports SessionProps
begin

text \<open>
  The functional behaviour of the session service's operations: admission and resumption of a
  start, ownership, what a save stores, the time limit, and what a
  submission computes, that it succeeds, and that it is idempotent.
\<close>

section \<open>Starting\<close>

lemma admitted_member:
  assumes "admitted g now did uid d dl" "dg \<in> set (delivery_groups d)" "dg_delivery_id dg = did"
  shows "\<exists>ug \<in> set (user_groups d). ug_user_id ug = uid
     \<and> (\<exists>dg \<in> set (delivery_groups d). dg_delivery_id dg = did \<and> dg_group_id dg = ug_group_id ug)"
proof -
  have "0 < restricted_group_count did d"
    using assms(2,3) by (auto simp: restricted_group_count_def count_where_pos_iff)
  then have "membership_count did uid d \<noteq> 0" using assms(1) by (auto simp: admitted_def)
  then show ?thesis by (auto simp: membership_count_def)
qed

lemma admitted_window:
  assumes "admitted g now did uid d dl"
  shows "dl \<in> set (deliveries d) \<and> d_id dl = did \<and> d_is_active dl
    \<and> (case d_start_time dl of None \<Rightarrow> True | Some t \<Rightarrow> t \<le> now) \<and> (case d_end_time dl of None \<Rightarrow> True | Some t \<Rightarrow> now \<le> t)"
  using assms by (auto simp: admitted_def delivery_closed_def dest: first_by_Some split: option.splits)

text \<open>
  Claim C15: what a start hands out, and all it writes.  It needs an existing, active delivery inside
  its time window, and when the delivery is restricted to groups, a user who is a member of one of
  them.  The session belongs to the (trimmed) user and delivery and is running or paused; and it is one
  of three: a stored session that was running or paused already, and nothing is written; a stored one
  that was not started, of which exactly status, start and update time are set; or, when the user has
  no open session there and fewer attempts than the delivery allows, the next attempt, appended as a
  new row.
\<close>
theorem start_session_admission:
  assumes "start_session g now nid did uid d = (Inr s, d')"
  shows "of_user (trim_space did) (trim_space uid) s \<and> s \<in> set (test_sessions d')
    \<and> (s_status s = InProgress \<or> s_status s = Paused)
    \<and> (list_ex (\<lambda>dg. dg_delivery_id dg = trim_space did) (delivery_groups d) \<longrightarrow>
         list_ex (\<lambda>ug. ug_user_id ug = trim_space uid
           \<and> list_ex (\<lambda>dg. dg_delivery_id dg = trim_space did \<and> dg_group_id dg = ug_group_id ug)
               (delivery_groups d)) (user_groups d))
    \<and> (\<exists>dl \<in> set (deliveries d). d_id dl = trim_space did \<and> d_is_active dl
        \<and> (case d_start_time dl of None \<Rightarrow> True | Some t \<Rightarrow> t \<le> now) \<and> (case d_end_time dl of None \<Rightarrow> True | Some t \<Rightarrow> now \<le> t)
        \<and> (s \<in> set (test_sessions d) \<and> d' = d
           \<or> (\<exists>s0 \<in> set (test_sessions d). of_user (trim_space did) (trim_space uid) s0 \<and> s_status s0 = NotStarted
                \<and> s = s0\<lparr>s_status := InProgress, s_started_at := Some now, s_updated_at := orm_now g\<rparr>
                \<and> d' = d\<lparr>test_sessions := map (\<lambda>x. if s_id x = s_id s0
                    then x\<lparr>s_status := InProgress, s_started_at := Some now, s_updated_at := orm_now g\<rparr> else x) (test_sessions d)\<rparr>)
           \<or> \<not> list_ex (\<lambda>x. s_delivery_id x = trim_space did \<and> s_user_id x = trim_space uid
                  \<and> s_status x \<in> {NotStarted, InProgress, Paused}) (test_sessions d)
             \<and> int (length (filter (of_user (trim_space did) (trim_space uid)) (test_sessions d)))
                 < (if d_max_attempts dl \<le> 0 then 1 else d_max_attempts dl)
             \<and> \<not> list_ex (\<lambda>x. s_id x = nid) (test_sessions d)
             \<and> s = \<lparr>s_id = nid, s_delivery_id = trim_space did, s_user_id = trim_space uid,
                 s_attempt = int (length (filter (of_user (trim_space did) (trim_space uid)) (test_sessions d))) + 1,
                 s_status = InProgress, s_time_spent_seconds = 0, s_total_score = Fin 0, s_started_at = Some now,
                 s_finished_at = None, s_created_at = orm_now g, s_updated_at = orm_now g\<rparr>
             \<and> d' = d\<lparr>test_sessions := test_sessions d @ [s]\<rparr>))"
proof -
  let ?did = "trim_space did" and ?uid = "trim_space uid"
  note stored = start_session_stored [OF assms]
  have groups: "list_ex (\<lambda>dg. dg_delivery_id dg = ?did) (delivery_groups d) \<longrightarrow>
         list_ex (\<lambda>ug. ug_user_id ug = ?uid
           \<and> list_ex (\<lambda>dg. dg_delivery_id dg = ?did \<and> dg_group_id dg = ug_group_id ug)
               (delivery_groups d)) (user_groups d)" if "admitted g now ?did ?uid d dl" for dl
    using admitted_member [OF that] by (force simp: list_ex_iff)
  have tx: "start_session_tx g now nid ?did ?uid d = Inr (s, d')"
    using assms by (auto dest: start_session_Inr)
  then show ?thesis
  proof (cases rule: start_session_tx_Inr)
    case (existing dl)
    with stored groups [OF existing(1)] admitted_window [OF existing(1)] show ?thesis by blast
  next
    case (begun dl s0)
    then have "s = s0\<lparr>s_status := InProgress, s_started_at := Some now, s_updated_at := orm_now g\<rparr>"
      "d' = d\<lparr>test_sessions := map (\<lambda>x. if s_id x = s_id s0
          then x\<lparr>s_status := InProgress, s_started_at := Some now, s_updated_at := orm_now g\<rparr> else x) (test_sessions d)\<rparr>"
      by (simp_all add: begin_session_def update_where_def)
    with begun(2-4) stored groups [OF begun(1)] admitted_window [OF begun(1)] show ?thesis by blast
  next
    case (created dl)
    let ?n = "int (length (filter (of_user ?did ?uid) (test_sessions d)))"
    have n: "int (attempts_of ?did ?uid d) = ?n" by (simp add: attempts_of_def count_where_def)
    have none: "\<not> list_ex (\<lambda>x. s_delivery_id x = ?did \<and> s_user_id x = ?uid
        \<and> s_status x \<in> {NotStarted, InProgress, Paused}) (test_sessions d)"
      using created(2) by (auto simp: latest_open_None open_status_def of_user_def list_ex_iff)
    have fresh: "\<not> list_ex (\<lambda>x. s_id x = nid) (test_sessions d)"
      using created(4,5) by (auto simp: new_session_def clash_on_def list_ex_iff)
    have row: "s = \<lparr>s_id = nid, s_delivery_id = ?did, s_user_id = ?uid, s_attempt = ?n + 1,
        s_status = InProgress, s_time_spent_seconds = 0, s_total_score = Fin 0, s_started_at = Some now,
        s_finished_at = None, s_created_at = orm_now g, s_updated_at = orm_now g\<rparr>"
      using created(4) unfolding new_session_def n .
    have bound: "?n < (if d_max_attempts dl \<le> 0 then 1 else d_max_attempts dl)"
      using created(3) unfolding effective_max_attempts_def n .
    from stored have "of_user ?did ?uid s" "s \<in> set (test_sessions d')" "s_status s = InProgress \<or> s_status s = Paused"
      by blast+
    then show ?thesis
      by (intro conjI groups [OF created(1)] bexI [of _ dl])
        (use none fresh row bound created(6) admitted_window [OF created(1)] in blast)+
  qed
qed

lemma latest_open_unique:
  assumes "session_inv d" "s \<in> set (test_sessions d)" "open_of did uid s"
  shows "latest_open_session g did uid d = Some s"
proof -
  have "length (filter (open_of did uid) (test_sessions d)) \<le> 1"
    using session_invD(4) [OF assms(1)] by (simp add: count_where_def)
  moreover have "s \<in> set (filter (open_of did uid) (test_sessions d))" using assms(2,3) by simp
  ultimately have "filter (open_of did uid) (test_sessions d) = [s]"
    by (cases "filter (open_of did uid) (test_sessions d)") (auto split: if_splits)
  then show ?thesis
    unfolding latest_open_session_def by (intro first_by_single) (simp add: open_of_def [abs_def])
qed

text \<open>
  Starting again is idempotent.  While the user has a running session at the delivery
  and the delivery is still open to them, any further start returns that very session and writes
  nothing, and never consumes another attempt.
\<close>
theorem start_session_resumes:
  assumes "session_inv d" "s \<in> set (test_sessions d)"
    and "of_user (trim_space did) (trim_space uid) s" "s_status s = InProgress"
    and "admitted g now (trim_space did) (trim_space uid) d dl"
    and "trim_space did \<noteq> []" "trim_space uid \<noteq> []" "\<not> (\<exists>k. stmt_fails g k)"
  shows "start_session g now nid did uid d = (Inr s, d)"
proof -
  let ?did = "trim_space did" and ?uid = "trim_space uid"
  have "check_groups g ?did ?uid d = None"
    using assms(5,8) by (auto simp: check_groups_def admitted_def)
  moreover have "latest_open_session g ?did ?uid d = Some s"
    using assms(1-4) by (intro latest_open_unique) (auto simp: open_of_def open_status_def)
  ultimately have "start_session_tx g now nid ?did ?uid d = Inr (s, d)"
    using assms(4,5,8) by (auto simp: start_session_tx_def admitted_def)
  then show ?thesis using assms(6-8) by (auto simp: start_session_def transaction_def)
qed

section \<open>Ownership\<close>

text \<open>
  Claim C18: a session answers only to its owner.  For anyone else reading, answering and submitting
  it end in the not-found error (or a failed first statement) and change nothing, so the existence
  of the session is not disclosed.
\<close>
theorem foreign_session_hidden:
  assumes "\<forall>s \<in> set (test_sessions d). s_id s = sid \<longrightarrow> s_user_id s \<noteq> uid"
  shows "\<exists>e \<in> {ErrSessionNotFound, ErrStatement 1}.
      get_session g sid uid d = Inl e
      \<and> save_response g now1 now2 rid sid uid iid dat d = (Inl e, d)
      \<and> submit_session svc g sc now sid uid d = (Inl e, d, [])"
proof -
  have "find_session g sid uid d = None" using assms by (simp add: find_session_None)
  then show ?thesis
    by (auto simp: get_session_def save_response_def save_response_tx_def submit_session_def
        submit_session_tx_def transaction_def)
qed

section \<open>Answering\<close>

lemma upsert_response_result:
  assumes inv: "unique_rows response_clash rows" and up: "upsert_response r rows = Some rows'"
  obtains x where "filter (answers (r_session_id r) (r_item_id r)) rows' = [x]"
    "r_session_id x = r_session_id r" "r_item_id x = r_item_id r" "r_response_data x = r_response_data r"
    "r_responded_at x = r_responded_at r" "x = r \<or> r_score_given x = Fin 0 \<and> \<not> r_is_correct x"
    "filter (\<lambda>y. \<not> answers (r_session_id r) (r_item_id r) y) rows'
       = filter (\<lambda>y. \<not> answers (r_session_id r) (r_item_id r) y) rows"
  using up
proof (cases rule: upsert_response_cases)
  case overwrite
  let ?Q = "answers (r_session_id r) (r_item_id r)"
  from overwrite obtain x where x: "x \<in> set rows" "?Q x" by blast
  have "filter ?Q rows = [x]"
    by (rule responses.rows_filter_single [of rows x ?Q]) (use inv x in \<open>auto simp: answers_def clash_on_def\<close>)
  moreover have "filter ?Q (update_where ?Q (overwrite_response r) xs) = map (overwrite_response r) (filter ?Q xs)" for xs
    by (induction xs) (auto simp: answers_def)
  ultimately have "filter ?Q rows' = [overwrite_response r x]" by (simp add: overwrite)
  moreover have "filter (\<lambda>y. \<not> ?Q y) rows' = filter (\<lambda>y. \<not> ?Q y) rows"
    unfolding overwrite(2) by (rule filter_update_where_other) (auto simp: answers_def)
    moreover have "r_responded_at (overwrite_response r x) = r_responded_at r"
        "r_score_given (overwrite_response r x) = Fin 0" "\<not> r_is_correct (overwrite_response r x)"
      by (simp_all add: overwrite_response_def)
    ultimately show thesis
      using x(2) by (intro that [of "overwrite_response r x"]) (simp_all add: answers_def)
next
  case insert
  then show thesis by (intro that [of r]) (auto simp: answers_def filter_empty_conv)
qed

lemma ensure_item_None:
  assumes "ensure_item_belongs_to_delivery g k did iid d = None"
  shows "\<exists>ti \<in> set (test_items d). ti_item_id ti = iid
    \<and> (\<exists>sec \<in> set (test_sections d). sec_id sec = ti_section_id ti
        \<and> (\<exists>dl \<in> set (deliveries d). d_id dl = did \<and> d_test_id dl = sec_test_id sec))"
proof -
  from assms obtain ti where
    "first_by (pk_le g) ti_id (\<lambda>ti. ti_item_id ti = iid \<and> in_delivery did d ti) (test_items d) = Some ti"
    by (auto simp: ensure_item_belongs_to_delivery_def find_delivery_test_item_def split: if_splits option.splits)
  from first_by_Some [OF this] show ?thesis by (force simp: in_delivery_def list_ex_iff)
qed

text \<open>
  Claim C16: a saved response is the only response of the session to that item; it holds the
  submitted text, the time of saving, no score and no mark; no other response, no session and no
  other table is touched; and it was accepted only for the owner's running session, and only for an
  item that a section of the test of the session's delivery lists.
\<close>
theorem save_response_stores_answer:
  assumes "session_inv d" and "save_response g now1 now2 rid sid uid iid dat d = (Inr r, d')"
  shows "filter (answers sid iid) (item_responses d') = [r]
    \<and> r_response_data r = dat \<and> r_responded_at r = now2 \<and> r_score_given r = Fin 0 \<and> \<not> r_is_correct r
    \<and> filter (\<lambda>x. \<not> answers sid iid x) (item_responses d')
        = filter (\<lambda>x. \<not> answers sid iid x) (item_responses d)
    \<and> d' = d\<lparr>item_responses := item_responses d'\<rparr>
    \<and> (\<exists>s \<in> set (test_sessions d). s_id s = sid \<and> s_user_id s = uid \<and> s_status s = InProgress
        \<and> (\<exists>ti \<in> set (test_items d). ti_item_id ti = iid
            \<and> (\<exists>sec \<in> set (test_sections d). sec_id sec = ti_section_id ti
                \<and> (\<exists>dl \<in> set (deliveries d). d_id dl = s_delivery_id s \<and> d_test_id dl = sec_test_id sec))))"
proof -
  let ?new = "new_response now2 rid sid iid dat"
  have "save_response_tx g now1 now2 rid sid uid iid dat d = Inr (r, d')"
    using assms(2) by (rule save_response_Inr)
  then obtain s rows where s: "find_session g sid uid d = Some s" "s_status s = InProgress"
    and item: "ensure_item_belongs_to_delivery g 3 (s_delivery_id s) iid d = None"
    and up: "upsert_response ?new (item_responses d) = Some rows"
    and r: "first_by (pk_le g) r_id (\<lambda>r. answers sid iid r \<and> (first_adds_pk g \<longrightarrow> r_id r = rid)) rows = Some r"
    and d': "d' = d\<lparr>item_responses := rows\<rparr>"
    by (rule save_response_tx_Inr)
  from session_invD(2) [OF assms(1)] up obtain x where
    x: "filter (answers sid iid) rows = [x]" "r_response_data x = dat" "r_responded_at x = now2"
      "x = ?new \<or> r_score_given x = Fin 0 \<and> \<not> r_is_correct x"
      "filter (\<lambda>y. \<not> answers sid iid y) rows = filter (\<lambda>y. \<not> answers sid iid y) (item_responses d)"
    by (rule upsert_response_result) auto
  have "r \<in> set rows \<and> answers sid iid r" using first_by_Some [OF r] by simp
  then have "r \<in> set (filter (answers sid iid) rows)" by simp
  then have "r = x" by (simp add: x(1))
  moreover have "r_score_given x = Fin 0 \<and> \<not> r_is_correct x"
    using x(4) by (elim disjE) simp_all
  ultimately have row: "filter (answers sid iid) (item_responses d') = [r]
    \<and> r_response_data r = dat \<and> r_responded_at r = now2 \<and> r_score_given r = Fin 0 \<and> \<not> r_is_correct r
    \<and> filter (\<lambda>x. \<not> answers sid iid x) (item_responses d')
        = filter (\<lambda>x. \<not> answers sid iid x) (item_responses d)
    \<and> d' = d\<lparr>item_responses := item_responses d'\<rparr>"
    using x(1-3,5) by (simp add: d')
  show ?thesis using row find_session_Some [OF s(1)] s(2) ensure_item_None [OF item] by blast
qed

text \<open>
  Claim C14: an answer cannot be changed.  With \<open>First\<close> adding the primary key of its destination
  to the query (as GORM documents), the read-back after the upsert asks for the row with the fresh
  identifier, but the upsert has kept the old row's: once a response to the item is stored, every
  further save for it returns an error and is rolled back.
\<close>
theorem save_response_cannot_overwrite:
  assumes "first_adds_pk g" and "x \<in> set (item_responses d)" and "answers sid iid x"
  shows "\<exists>e. save_response g now1 now2 rid sid uid iid dat d = (Inl e, d)"
proof (cases "save_response g now1 now2 rid sid uid iid dat d")
  case (Pair res d')
  show ?thesis
  proof (cases res)
    case (Inl e)
    with Pair show ?thesis by (auto dest: save_response_Inl)
  next
    case (Inr r)
    let ?new = "new_response now2 rid sid iid dat"
    from Inr Pair have "save_response_tx g now1 now2 rid sid uid iid dat d = Inr (r, d')"
      by (auto dest: save_response_Inr)
    then obtain rows where up: "upsert_response ?new (item_responses d) = Some rows"
      and r: "first_by (pk_le g) r_id (\<lambda>r. answers sid iid r \<and> (first_adds_pk g \<longrightarrow> r_id r = rid)) rows = Some r"
      by (rule save_response_tx_Inr)
    have "r_id r = rid" "r \<in> set rows" using first_by_Some [OF r] assms(1) by auto
    moreover have "rows = update_where (answers sid iid) (overwrite_response ?new) (item_responses d)"
      using up by (cases rule: upsert_response_cases) (use assms(2,3) in auto)
    moreover have "r_id ` set (update_where P (overwrite_response ?new) rs) = r_id ` set rs" for P rs
      using map_update_where [of r_id "overwrite_response ?new" P rs] by (simp flip: set_map)
    ultimately have "rid \<in> r_id ` set (item_responses d)" by (metis imageI)
    then have "\<exists>y \<in> set (item_responses d). r_id y = rid" by auto
    with upsert_response_fresh [OF up] show ?thesis by auto
  qed
qed

lemma concat_map_single:
  assumes "distinct (map k xs)" and "x \<in> set xs"
  shows "concat (map (\<lambda>y. if k y = k x then h y else []) xs) = h x"
  using assms
proof (induction xs)
  case (Cons y ys)
  have "concat (map (\<lambda>y. if k y = k x then h y else []) zs) = []" if "k x \<notin> k ` set zs" for zs
    using that by (induction zs) auto
  with Cons show ?case by (cases "y = x") auto
qed simp

lemma delivery_time_limit_of:
  assumes "distinct (map d_id (deliveries d))" and "distinct (map t_id (tests d))"
    and "dl \<in> set (deliveries d)" and "t \<in> set (tests d)" and "t_id t = d_test_id dl"
  shows "delivery_time_limit (d_id dl) d = t_time_limit_seconds t"
proof -
  have "concat (map (\<lambda>x. if t_id x = d_test_id dl then [t_time_limit_seconds x] else []) (tests d)) = [t_time_limit_seconds t]"
    using concat_map_single [OF assms(2,4), of "\<lambda>x. [t_time_limit_seconds x]"] assms(5) by simp
  then show ?thesis
    using concat_map_single [OF assms(1,3), of "\<lambda>x. concat (map (\<lambda>y. if t_id y = d_test_id x
        then [t_time_limit_seconds y] else []) (tests d))"]
    by (simp add: delivery_time_limit_def)
qed

lemma save_response_expired:
  assumes "session_inv d" and "s \<in> set (test_sessions d)" and "s_status s = InProgress"
    and "s_started_at s = Some started" and "\<not> stmt_fails g 1" and "\<not> stmt_fails g 2"
  shows "save_response g now1 now2 rid (s_id s) (s_user_id s) iid dat d = (Inl ErrSessionExpired, d)
    \<longleftrightarrow> ensure_session_within_time_limit g 2 now1 s d = Some ErrSessionExpired"
proof -
  have f: "find_session g (s_id s) (s_user_id s) d = Some s"
    using find_session_unique [OF session_invD(1) [OF assms(1)] assms(2)] by simp
  have "ensure_item_belongs_to_delivery g k did iid d \<noteq> Some ErrSessionExpired" for k did
    by (auto simp: ensure_item_belongs_to_delivery_def find_delivery_test_item_def split: if_splits option.splits)
  moreover have "transaction g d b = (Inl ErrSessionExpired, d) \<longleftrightarrow> b = Inl ErrSessionExpired" for b :: "service_err + (item_response \<times> db)"
    by (auto simp: transaction_def split: sum.splits if_splits)
  ultimately show ?thesis
    using f assms(3,5,6)
    by (auto simp: save_response_def save_response_tx_def Let_def split: option.splits if_splits)
qed

text \<open>
  Claim C19: the time limit of the test is enforced to the nanosecond.  An answer to the owner's running
  session is refused as expired, and nothing stored, exactly when the test of its delivery has a
  positive limit and the clock has passed the start plus the limit; without a limit it never is.
  Identifiers of deliveries and tests are unique, and the limit is at most 9223372036 seconds, the range
  in which the product of durations does not wrap around.
\<close>
theorem time_limit_enforced:
  assumes "session_inv d" and "s \<in> set (test_sessions d)" and "s_status s = InProgress"
    and "s_started_at s = Some started" and "\<not> stmt_fails g 1" and "\<not> stmt_fails g 2"
    and "distinct (map d_id (deliveries d))" and "distinct (map t_id (tests d))"
    and "dl \<in> set (deliveries d)" and "d_id dl = s_delivery_id s"
    and "t \<in> set (tests d)" and "t_id t = d_test_id dl" and "t_time_limit_seconds t \<le> 9223372036"
  shows "save_response g now1 now2 rid (s_id s) (s_user_id s) iid dat d = (Inl ErrSessionExpired, d)
    \<longleftrightarrow> 0 < t_time_limit_seconds t \<and> started + t_time_limit_seconds t * 1000000000 < now1"
proof -
  have "delivery_time_limit (s_delivery_id s) d = t_time_limit_seconds t"
    using delivery_time_limit_of [OF assms(7-9,11,12)] assms(10) by simp
  then show ?thesis
    unfolding save_response_expired [OF assms(1-6)] using assms(4,6,13) seconds_duration_exact [of "t_time_limit_seconds t"]
    by (cases "0 < t_time_limit_seconds t") (simp_all add: ensure_session_within_time_limit_def second_def)
qed

section \<open>Submitting\<close>

text \<open>
  Claim C1: submitting the owner's running session scores every stored response against its item
  (raw score times weight), stores the scores, sets the session to completed with the total of its
  responses' scores in their stored order, changes nothing else, and starts exactly the effects of
  the injected collaborators.
\<close>
theorem submit_session_scores:
  assumes "session_inv d" and "find_session g sid uid d = Some s" and "s_status s \<noteq> Completed"
    and "submit_session svc g sc now sid uid d = (Inr (s', rs'), d', effs)"
  shows "s_status s = InProgress \<and> s' = finish_session g now (s_total_score s') s
    \<and> rs' = map (apply_points g sc (s_delivery_id s) d) (responses_of sid d)
    \<and> s_total_score s' = foldl f64_add (Fin 0) (map r_score_given rs')
    \<and> d' = completed_db g sc now s d
    \<and> effs = completion_effects svc (s', rs')"
proof -
  from assms(4) obtain dc where tx: "submit_session_tx g sc now sid uid d = Inr (((s', rs'), dc), d')"
    and effs: "effs = (if dc then completion_effects svc (s', rs') else [])"
    by (rule submit_session_Inr)
  have dc: "dc"
    using tx by (cases rule: submit_session_tx_Inr) (use assms(2,3) in auto)
  with tx have "submit_session_tx g sc now sid uid d = Inr (((s', rs'), True), d')" by simp
  with assms(1) show ?thesis
  proof (rule submit_finished)
    fix t
    assume t: "t \<in> set (test_sessions d)" "s_id t = sid" "s_user_id t = uid" "s_status t = InProgress"
      and d': "d' = completed_db g sc now t d"
      and res: "(s', rs') = (finish_session g now (sum_points g sc (s_delivery_id t) d (Fin 0) (responses_of sid d)) t,
            map (apply_points g sc (s_delivery_id t) d) (responses_of sid d))"
    have "t = s"
      using find_session_unique [OF session_invD(1) [OF assms(1)] t(1)] assms(2) t by simp
    moreover have "sum_points g sc did d x rs = foldl f64_add x (map r_score_given (map (apply_points g sc did d) rs))"
      for did x rs
      by (induction rs arbitrary: x) (auto simp: sum_points_def apply_points_def)
    ultimately show ?thesis using t d' res dc effs by simp
  qed
qed

text \<open>
  Claim C17: submission is idempotent.  After a successful submission every further one by the same
  user, at any later time and with any scorer, returns the same completed session and responses,
  writes nothing and starts no effect, so the webhook, the event and the grade transfer happen once.
\<close>
theorem submit_session_idempotent:
  assumes "session_inv d" and "submit_session svc g sc now sid uid d = (Inr res, d', effs)"
    and "\<not> (\<exists>k. stmt_fails g' k)"
  shows "submit_session svc' g' sc' now' sid uid d' = (Inr res, d', [])"
proof -
  from assms(2) obtain dc where tx: "submit_session_tx g sc now sid uid d = Inr ((res, dc), d')"
    by (rule submit_session_Inr)
  have again: "submit_session svc' g' sc' now' sid uid d' = (Inr res, d', [])"
    if "session_inv d'" "s \<in> set (test_sessions d')" "s_id s = sid" "s_user_id s = uid" "s_status s = Completed"
      "res = (s, responses_of sid d')" for s
  proof -
    have "find_session g' sid uid d' = Some s"
      using find_session_unique [OF session_invD(1) [OF that(1)] that(2)] that(3,4) by simp
    then show ?thesis
      using that assms(3) by (auto simp: submit_session_def submit_session_tx_def transaction_def)
  qed
  show ?thesis
  proof (cases dc)
    case True
    with tx have "submit_session_tx g sc now sid uid d = Inr ((res, True), d')" by simp
    with assms(1) show ?thesis
    proof (rule submit_finished)
      fix s
      assume s: "s \<in> set (test_sessions d)" "s_id s = sid" "s_user_id s = uid" "s_status s = InProgress"
        and d': "d' = completed_db g sc now s d"
        and res: "res = (finish_session g now (sum_points g sc (s_delivery_id s) d (Fin 0) (responses_of sid d)) s,
            map (apply_points g sc (s_delivery_id s) d) (responses_of sid d))"
      have "responses_of sid d' = map (apply_points g sc (s_delivery_id s) d) (responses_of sid d)"
      proof -
        have "filter (\<lambda>r. r_session_id r = sid)
            (update_where (\<lambda>r. r_session_id r = sid) (apply_points g sc (s_delivery_id s) d) xs)
          = map (apply_points g sc (s_delivery_id s) d) (filter (\<lambda>r. r_session_id r = sid) xs)" for xs
          by (induction xs) auto
        then show ?thesis by (simp add: responses_of_def d' completed_db_def s)
      qed
      moreover have "fst res \<in> set (test_sessions d')"
        using s by (auto simp: res d' completed_db_def set_update_where)
      moreover have "session_inv d'" unfolding d' using assms(1) s(1) by (rule session_inv_completed)
      ultimately show ?thesis using s by (intro again [of "fst res"]) (auto simp: res)
    qed
  next
    case False
    with tx show ?thesis
    proof (cases rule: submit_session_tx_Inr)
      case (already s)
      with find_session_Some [OF already(1)] assms(1) show ?thesis by (intro again [of s]) auto
    qed simp
  qed
qed

text \<open>
  Every response of the session answers an item of the delivery whose weight and maximum score are
  in range: what submitting needs to succeed.
\<close>

definition scorable :: "gorm \<Rightarrow> string \<Rightarrow> db \<Rightarrow> item_response \<Rightarrow> bool" where
  "scorable g did d r \<longleftrightarrow>
     (case delivery_test_item g did (r_item_id r) d of
        None \<Rightarrow> False
      | Some ti \<Rightarrow> \<not> bad_points (ti_weight ti) \<and> \<not> bad_points (i_max_score (preload_item d ti)))"

lemma scorable_responses [simp]: "scorable g did (d\<lparr>item_responses := x\<rparr>) = scorable g did d"
  by (simp add: scorable_def fun_eq_iff split: option.split)

lemma score_responses_succeeds:
  assumes "scoring_contract sc" and "\<forall>k. \<not> stmt_fails g k"
    and "list_all (scorable g did d) rs" and "fin_within (of_nat b) tot"
    and "b + length rs * 10 ^ 12 < 2 ^ 53"
  shows "\<exists>k' tot' d'. score_responses g sc did rs k tot d = Inr (k', tot', d')
    \<and> fin_within (of_nat (b + length rs * 10 ^ 12)) tot'
    \<and> (\<exists>rows. d' = d\<lparr>item_responses := rows\<rparr>)"
  using assms(3-5)
proof (induction rs arbitrary: k tot d b)
  case Nil
  then show ?case by (auto intro: exI [of _ "item_responses d"])
next
  case (Cons r rs)
  from Cons.prems(1) obtain ti where ti: "delivery_test_item g did (r_item_id r) d = Some ti"
    "\<not> bad_points (ti_weight ti)" "\<not> bad_points (i_max_score (preload_item d ti))"
    by (auto simp: scorable_def split: option.splits)
  define p where "p = sc (preload_item d ti) (r_response_data r)"
  define score where "score = f64_mul (fst p) (ti_weight ti)"
  define d1 where "d1 = d\<lparr>item_responses :=
    update_where (\<lambda>x. r_id x = r_id r) (record_score score (snd p)) (item_responses d)\<rparr>"
  have "fin_within (of_nat (10 ^ 12)) score"
    unfolding score_def p_def by (rule scoring_contract.weighted_within [OF assms(1) ti(2)])
  then have tot: "fin_within (of_nat (b + 10 ^ 12)) (f64_add tot score)"
    using Cons.prems(2,3) by (intro f64_add_within) auto
  have all: "list_all (scorable g did d1) rs" using Cons.prems(1) by (simp add: d1_def)
  have le: "b + 10 ^ 12 + length rs * 10 ^ 12 < 2 ^ 53" using Cons.prems(3) by simp
  have "find_delivery_test_item g k did (r_item_id r) d = Inr (ti, preload_item d ti)"
    using ti assms(2) by (simp add: find_delivery_test_item_Inr)
  then have step: "score_responses g sc did (r # rs) k tot d = score_responses g sc did rs (k + 3) (f64_add tot score) d1"
    using ti(2,3) assms(2) fin_within_not_special [OF tot]
    by (simp add: d1_def score_def p_def Let_def case_prod_beta)
  from Cons.IH [OF all tot le, of "k + 3"] obtain k' tot' d' rows where
    "score_responses g sc did rs (k + 3) (f64_add tot score) d1 = Inr (k', tot', d')"
    "fin_within (of_nat (b + length (r # rs) * 10 ^ 12)) tot'" "d' = d1\<lparr>item_responses := rows\<rparr>"
    by (auto simp: add_ac)
  then show ?case unfolding step by (auto simp: d1_def)
qed

text \<open>
  Claim C13: submitting a running session never gets stuck.  When the database answers, every stored
  response is to an item of the delivery with acceptable points, and there are at most 9000 of them
  (so that the totals stay below \<open>2 ^ 53\<close>), the submission succeeds and returns the completed
  session with a finite total between 0 and \<open>10 ^ 12\<close> per response: the overflow check never fires.
\<close>
theorem submit_session_succeeds:
  assumes "session_inv d" and "s \<in> set (test_sessions d)" and "s_status s = InProgress"
    and "\<not> (\<exists>k. stmt_fails g k)" and "list_all (scorable g (s_delivery_id s) d) (responses_of (s_id s) d)"
    and "length (responses_of (s_id s) d) \<le> 9000"
  shows "\<exists>s' rs' d'. submit_session svc g (\<lambda>i. score_item U (Some i)) now (s_id s) (s_user_id s) d
      = (Inr (s', rs'), d', completion_effects svc (s', rs'))
    \<and> s_status s' = Completed
    \<and> fin_within (of_nat (length (responses_of (s_id s) d) * 10 ^ 12)) (s_total_score s')"
proof -
  let ?sc = "\<lambda>i. score_item U (Some i)" and ?rs = "responses_of (s_id s) d"
  note u = session_invD(1) [OF assms(1)]
  have f: "find_session g (s_id s) (s_user_id s) d = Some s"
    using u assms(2) by (rule find_session_unique)
  obtain k tot d1 rows where sr: "score_responses g ?sc (s_delivery_id s) ?rs 3 (Fin 0) d = Inr (k, tot, d1)"
    and tot: "fin_within (of_nat (length ?rs * 10 ^ 12)) tot" and d1: "d1 = d\<lparr>item_responses := rows\<rparr>"
    using score_responses_succeeds [OF engine.scoring_contract_axioms [of U], of g "s_delivery_id s" d ?rs 0 "Fin 0" 3] assms(4-6)
    by (auto simp: fin_within_def)
  let ?hit = "\<lambda>x. s_id x = s_id s \<and> s_user_id x = s_user_id s \<and> s_status x = InProgress"
  let ?ss = "update_where ?hit (finish_session g now tot) (test_sessions d)"
  have "count_where ?hit (test_sessions d1) = 1"
    using sessions.rows_first(3) [OF u assms(2), of ?hit] assms(3) by (simp add: d1 clash_on_def)
  moreover have "first_by (pk_le g) s_id (\<lambda>x. s_id x = s_id s) ?ss = Some (finish_session g now tot s)"
  proof (rule sessions.rows_first(1))
    show "unique_rows session_clash ?ss" by (rule sessions.rows_update [OF u]) (simp add: clash_on_def)
    show "finish_session g now tot s \<in> set ?ss" using assms(2,3) by (auto simp: set_update_where)
  qed (auto simp: clash_on_def)
  ultimately show ?thesis
    using f sr tot assms(3,4) d1
    by (auto simp: submit_session_def submit_session_tx_def transaction_def Let_def)
qed

end
