(* ===== verification/Api.thy ===== *)
theory Api
  imports Auth Proctor SessionOps
begin

text \<open>
  The HTTP surface: the routes \<open>cmd/server/main.go\<close> registers with the layers in front of each, and
  the session and proctoring handlers of \<open>internal/handler\<close>, which translate between requests,
  services and status codes.  \<open>c.ShouldBindJSON\<close> is a parameter: what the decoder and validator
  make of a body (\<open>None\<close> when they reject it).
\<close>

section \<open>Routes\<close>

datatype endpoint =
    EpHome | EpHealth | EpReady | EpUploads | EpMetrics
  | EpStartSession | EpGetSession | EpSaveResponse | EpSubmitSession | EpRecordEvent
  | EpProctorLog | EpProctorAnalytics | EpResultsCsv | EpImportQti
  | EpRegisterPlatform | EpRegisterResourceLink | EpRegisterWebhook | EpWebhookLogs
  | EpLtiLogin | EpLtiLaunch

datatype layer = AuthLayer | RoleLayer string | RateLayer

record route =
  rt_method :: string
  rt_path :: string
  rt_layers :: "layer list"
  rt_endpoint :: endpoint

record route_group =
  gr_prefix :: string
  gr_layers :: "layer list"

definition sub_group :: "route_group \<Rightarrow> string \<Rightarrow> route_group" where
  "sub_group gr p = gr\<lparr>gr_prefix := gr_prefix gr @ p\<rparr>"

definition use_layers :: "layer list \<Rightarrow> route_group \<Rightarrow> route_group" where
  "use_layers ls gr = gr\<lparr>gr_layers := gr_layers gr @ ls\<rparr>"

definition handle :: "route_group \<Rightarrow> string \<Rightarrow> string \<Rightarrow> layer list \<Rightarrow> endpoint \<Rightarrow> route" where
  "handle gr m p ls ep =
     \<lparr>rt_method = m, rt_path = gr_prefix gr @ p, rt_layers = gr_layers gr @ ls, rt_endpoint = ep\<rparr>"

definition root_group :: route_group where
  "root_group = \<lparr>gr_prefix = [], gr_layers = []\<rparr>"

definition admin_layer :: layer where
  "admin_layer = RoleLayer ''ADMIN''"

definition operational_routes :: "route list" where
  "operational_routes =
     [handle root_group ''GET'' ''/health'' [] EpHealth, handle root_group ''GET'' ''/ready'' [] EpReady]"

definition protected_routes :: "route list" where
  "protected_routes =
     (let protected_media = use_layers [AuthLayer] (sub_group root_group '''');
          api = sub_group root_group ''/api/v1'';
          authenticated = use_layers [AuthLayer] (sub_group api '''');
          sessions_group = sub_group authenticated ''/sessions'';
          admin_api = use_layers [AuthLayer, admin_layer] (sub_group api '''');
          lti = use_layers [RateLayer] (sub_group api ''/lti'')
      in [handle protected_media ''GET'' ''/uploads/*filepath'' [] EpUploads,
          handle protected_media ''HEAD'' ''/uploads/*filepath'' [] EpUploads,
          handle root_group ''GET'' ''/metrics'' [AuthLayer, admin_layer] EpMetrics,
          handle sessions_group ''POST'' ''/start'' [] EpStartSession,
          handle sessions_group ''GET'' ''/:id'' [] EpGetSession,
          handle sessions_group ''POST'' ''/:id/response'' [RateLayer] EpSaveResponse,
          handle sessions_group ''POST'' ''/:id/submit'' [] EpSubmitSession,
          handle sessions_group ''POST'' ''/:id/proctor/event'' [] EpRecordEvent,
          handle admin_api ''GET'' ''/sessions/:id/proctor/log'' [] EpProctorLog,
          handle admin_api ''GET'' ''/sessions/:id/proctor/analytics'' [] EpProctorAnalytics,
          handle admin_api ''GET'' ''/deliveries/:id/results/csv'' [] EpResultsCsv,
          handle admin_api ''POST'' ''/items/import-qti'' [] EpImportQti,
          handle admin_api ''POST'' ''/lti/platforms'' [] EpRegisterPlatform,
          handle admin_api ''POST'' ''/lti/resource-links'' [] EpRegisterResourceLink,
          handle admin_api ''POST'' ''/webhooks/configs'' [] EpRegisterWebhook,
          handle admin_api ''GET'' ''/webhooks/logs'' [] EpWebhookLogs,
          handle lti ''GET'' ''/login'' [] EpLtiLogin,
          handle lti ''POST'' ''/login'' [] EpLtiLogin,
          handle lti ''POST'' ''/launch'' [] EpLtiLaunch])"

definition all_routes :: "route list" where
  "all_routes = handle root_group ''GET'' ''/'' [] EpHome # operational_routes @ protected_routes"

text \<open>What the layers of one request use: token library, configuration, clock, eviction choice.\<close>

record layer_env =
  le_jwt :: jwt_library
  le_config :: jwt_config
  le_now :: time
  le_pick :: nat
  le_unicode :: unicode_tables

fun run_layer :: "layer_env \<Rightarrow> layer \<Rightarrow> middleware" where
  "run_layer E AuthLayer = jwt_auth (le_jwt E) (le_config E) (le_now E)"
| "run_layer E (RoleLayer r) = require_role r"
| "run_layer E RateLayer = rate_limit (le_pick E) (le_now E)"

definition global_layers :: "layer_env \<Rightarrow> middleware list" where
  "global_layers E = [metrics_collector, security_headers, json_body_limit (le_unicode E) (2 ^ 20)]"

definition serve_layers :: "layer_env \<Rightarrow> route \<Rightarrow> middleware" where
  "serve_layers E rt = run_chain (global_layers E @ map (run_layer E) (rt_layers rt))"

section \<open>Handlers\<close>

text \<open>\<open>/ready\<close>: the ping succeeds or not; a nil pinger counts as not ready.\<close>

definition ready_status :: "bool option \<Rightarrow> nat" where
  "ready_status ping = (case ping of Some True \<Rightarrow> 200 | _ \<Rightarrow> 503)"

definition authenticated_user_id :: "ctx \<Rightarrow> string option" where
  "authenticated_user_id c =
     (case ctx_get c ''user_id'' of
        Some (CtxString u) \<Rightarrow> if trim_space u = [] then None else Some u
      | _ \<Rightarrow> None)"

definition unauthenticated :: "nat \<times> reply" where
  "unauthenticated = (401, ErrorReply ''no authenticated user'')"

definition session_error_status :: "service_err \<Rightarrow> nat" where
  "session_error_status e =
     (if e = ErrSessionNotFound \<or> e = ErrDeliveryNotFound then 404
      else if e = ErrDeliveryForbidden then 403
      else if e = ErrDeliveryClosed \<or> e = ErrMaxAttempts \<or> e = ErrSessionCompleted
        \<or> e = ErrSessionNotActive \<or> e = ErrSessionExpired then 409
      else if e = ErrItemNotInDelivery then 400
      else 500)"

definition write_session_error :: "service_err \<Rightarrow> nat \<times> reply" where
  "write_session_error e = (session_error_status e, ErrorReply ''service error'')"

text \<open>What one request hands to the services, and the binding of its body.\<close>

record handler_env =
  he_gorm :: gorm
  he_clock :: time
  he_clock2 :: time
  he_id :: string
  he_service :: session_service
  he_scorer :: scorer
  he_bind_start :: "string \<Rightarrow> string option"
  he_bind_save :: "string \<Rightarrow> (string \<times> string) option"
  he_bind_event :: "string \<Rightarrow> (proctor_event_type \<times> int \<times> string) option"

definition body_of :: "ctx \<Rightarrow> string" where
  "body_of c = (case cx_body c of None \<Rightarrow> [] | Some b \<Rightarrow> body_bytes b)"

definition start_session_handler :: "handler_env \<Rightarrow> ctx \<Rightarrow> db \<Rightarrow> (nat \<times> reply) \<times> db" where
  "start_session_handler H c d =
     (case authenticated_user_id c of
        None \<Rightarrow> (unauthenticated, d)
      | Some uid \<Rightarrow>
          (case he_bind_start H (body_of c) of
             None \<Rightarrow> ((400, ErrorReply ''bad request''), d)
           | Some did \<Rightarrow>
               (case start_session (he_gorm H) (he_clock H) (he_id H) did uid d of
                  (Inl e, d') \<Rightarrow> (write_session_error e, d')
                | (Inr s, d') \<Rightarrow> ((200, SessionReply s []), d'))))"

definition save_response_handler :: "handler_env \<Rightarrow> ctx \<Rightarrow> db \<Rightarrow> (nat \<times> reply) \<times> db" where
  "save_response_handler H c d =
     (case authenticated_user_id c of
        None \<Rightarrow> (unauthenticated, d)
      | Some uid \<Rightarrow>
          (case he_bind_save H (body_of c) of
             None \<Rightarrow> ((400, ErrorReply ''bad request''), d)
           | Some (iid, dat) \<Rightarrow>
               (case save_response (he_gorm H) (he_clock H) (he_clock2 H) (he_id H) (ctx_param c ''id'') uid iid dat d of
                  (Inl e, d') \<Rightarrow> (write_session_error e, d')
                | (Inr r, d') \<Rightarrow> ((200, ResponseReply r), d'))))"

definition submit_session_handler :: "handler_env \<Rightarrow> ctx \<Rightarrow> db \<Rightarrow> (nat \<times> reply) \<times> db \<times> effect list" where
  "submit_session_handler H c d =
     (case authenticated_user_id c of
        None \<Rightarrow> (unauthenticated, d, [])
      | Some uid \<Rightarrow>
          (case submit_session (he_service H) (he_gorm H) (he_scorer H) (he_clock H) (ctx_param c ''id'') uid d of
             (Inl e, d', effs) \<Rightarrow> (write_session_error e, d', effs)
           | (Inr (s, rs), d', effs) \<Rightarrow> ((200, SessionReply s rs), d', effs)))"

definition get_session_handler :: "handler_env \<Rightarrow> ctx \<Rightarrow> db \<Rightarrow> nat \<times> reply" where
  "get_session_handler H c d =
     (case authenticated_user_id c of
        None \<Rightarrow> unauthenticated
      | Some uid \<Rightarrow>
          (case get_session (he_gorm H) (ctx_param c ''id'') uid d of
             Inl e \<Rightarrow> write_session_error e
           | Inr (s, rs) \<Rightarrow> (200, SessionReply s rs)))"

definition record_event_handler :: "handler_env \<Rightarrow> ctx \<Rightarrow> db \<Rightarrow> (nat \<times> reply) \<times> db" where
  "record_event_handler H c d =
     (case authenticated_user_id c of
        None \<Rightarrow> (unauthenticated, d)
      | Some uid \<Rightarrow>
          (case he_bind_event H (body_of c) of
             None \<Rightarrow> ((400, ErrorReply ''bad request''), d)
           | Some (typ, dur, details) \<Rightarrow>
               (case record_event (he_gorm H) (he_clock H) (he_id H)
                   \<lparr>pe_id = [], pe_session_id = ctx_param c ''id'', pe_event_type = typ, pe_duration_seconds = dur,
                    pe_details = details, pe_created_at = zero_time\<rparr> uid d d of
                  (Inl e, d') \<Rightarrow> (write_session_error e, d')
                | (Inr ev, d') \<Rightarrow> ((201, EventReply ev), d'))))"

definition proctor_log_handler :: "handler_env \<Rightarrow> ctx \<Rightarrow> db \<Rightarrow> nat \<times> reply" where
  "proctor_log_handler H c d =
     (case get_session_proctor_log (he_gorm H) (ctx_param c ''id'') d of
        Inl e \<Rightarrow> (500, ErrorReply ''query failed'')
      | Inr events \<Rightarrow> (200, LogReply (ctx_param c ''id'') (length events) events))"

definition proctor_analytics_handler :: "handler_env \<Rightarrow> ctx \<Rightarrow> db \<Rightarrow> nat \<times> reply" where
  "proctor_analytics_handler H c d =
     (case get_proctor_analytics (he_gorm H) (ctx_param c ''id'') d of
        Inl e \<Rightarrow> (500, ErrorReply ''query failed'')
      | Inr s \<Rightarrow> (200, AnalyticsReply s))"

section \<open>The security boundary\<close>

definition public_endpoint :: "endpoint \<Rightarrow> bool" where
  "public_endpoint ep \<longleftrightarrow> ep \<in> {EpHome, EpHealth, EpReady, EpLtiLogin, EpLtiLaunch}"

definition user_endpoint :: "endpoint \<Rightarrow> bool" where
  "user_endpoint ep \<longleftrightarrow>
     ep \<in> {EpUploads, EpStartSession, EpGetSession, EpSaveResponse, EpSubmitSession, EpRecordEvent}"

lemma layers_of_routes:
  "rt \<in> set all_routes \<Longrightarrow>
     (public_endpoint (rt_endpoint rt) \<longrightarrow> AuthLayer \<notin> set (rt_layers rt))
     \<and> (user_endpoint (rt_endpoint rt) \<longrightarrow> (\<exists>ls. rt_layers rt = AuthLayer # ls \<and> set ls \<subseteq> {RateLayer}))
     \<and> (\<not> public_endpoint (rt_endpoint rt) \<and> \<not> user_endpoint (rt_endpoint rt) \<longrightarrow>
          rt_layers rt = [AuthLayer, RoleLayer ''ADMIN''])"
  by (auto simp: all_routes_def operational_routes_def protected_routes_def Let_def handle_def use_layers_def
      sub_group_def root_group_def admin_layer_def public_endpoint_def user_endpoint_def)

lemma global_layers_Next:
  assumes "run_chain (global_layers E) s c = (s', Next c')"
  shows "get_header c' = get_header c \<and> ctx_get c' = ctx_get c \<and> cx_params c' = cx_params c"
  using assms
  by (auto simp: global_layers_def metrics_collector_def security_headers_def json_body_limit_def
      get_header_def ctx_get_def set_header_def fun_eq_iff split: option.splits if_splits)

lemma cx_params_set [simp]: "cx_params (ctx_set k v c) = cx_params c"
  by (simp add: ctx_set_def)

lemma authenticates_cong: "get_header c' = get_header c \<Longrightarrow> authenticates J cfg t c' = authenticates J cfg t c"
  by (simp add: authenticates_def fun_eq_iff)

lemma rate_limit_Next: "rate_limit pick t s c = (s', Next c') \<Longrightarrow> c' = c"
  by (auto simp: rate_limit_def split: prod.splits if_splits)

lemma rate_layers_Next: "run_chain (map (run_layer E) ls) s c = (s', Next c') \<Longrightarrow> set ls \<subseteq> {RateLayer} \<Longrightarrow> c' = c"
proof (induction ls arbitrary: s)
  case (Cons l ls)
  then show ?case by (auto split: prod.splits outcome.splits dest: rate_limit_Next)
qed simp

lemma serve_layers_auth:
  assumes "serve_layers E rt s c = (s', Next c')" and "rt_layers rt = AuthLayer # ls"
  obtains cl c1 s1 where "authenticates (le_jwt E) (le_config E) (le_now E) c cl"
    "ctx_get c1 ''user_id'' = Some (CtxString (cl_user_id cl))"
    "ctx_get c1 ''user_roles'' = Some (CtxStrings (cl_roles cl))"
    "cx_params c1 = cx_params c" "run_chain (map (run_layer E) ls) s1 c1 = (s', Next c')"
proof -
  from assms obtain sa ca where g: "run_chain (global_layers E) s c = (sa, Next ca)"
    and r: "run_chain (map (run_layer E) (AuthLayer # ls)) sa ca = (s', Next c')"
    by (auto simp: serve_layers_def run_chain_append simp del: run_chain.simps split: prod.splits outcome.splits)
  from r obtain s1 c1 where a: "jwt_auth (le_jwt E) (le_config E) (le_now E) sa ca = (s1, Next c1)"
    and rest: "run_chain (map (run_layer E) ls) s1 c1 = (s', Next c')"
    by (auto split: prod.splits outcome.splits)
  from a obtain cl where "authenticates (le_jwt E) (le_config E) (le_now E) ca cl"
    "c1 = ctx_set ''user_roles'' (CtxStrings (cl_roles cl)) (ctx_set ''user_id'' (CtxString (cl_user_id cl)) ca)"
    by (rule jwt_auth_Next)
  with rest global_layers_Next [OF g] show thesis
    by (intro that [of cl c1 s1]) (auto simp: authenticates_cong [of ca c])
qed

lemma routes_protected_user:
  assumes "rt \<in> set all_routes" and "\<not> public_endpoint (rt_endpoint rt)"
    and "serve_layers E rt s c = (s', Next c')"
  shows "\<exists>cl. authenticates (le_jwt E) (le_config E) (le_now E) c cl
    \<and> ctx_get c' ''user_id'' = Some (CtxString (cl_user_id cl))
    \<and> (user_endpoint (rt_endpoint rt) \<or> ''ADMIN'' \<in> set (cl_roles cl))"
proof (cases "user_endpoint (rt_endpoint rt)")
  case True
  with layers_of_routes [OF assms(1)] obtain ls where ls: "rt_layers rt = AuthLayer # ls" "set ls \<subseteq> {RateLayer}"
    by blast
  from assms(3) ls(1) obtain cl c1 s1 where "authenticates (le_jwt E) (le_config E) (le_now E) c cl"
    "ctx_get c1 ''user_id'' = Some (CtxString (cl_user_id cl))"
    "run_chain (map (run_layer E) ls) s1 c1 = (s', Next c')"
    by (rule serve_layers_auth)
  with True rate_layers_Next [OF _ ls(2)] show ?thesis by blast
next
  case False
  with layers_of_routes [OF assms(1)] assms(2) have ls: "rt_layers rt = AuthLayer # [RoleLayer ''ADMIN'']"
    by blast
  from assms(3) ls obtain cl c1 s1 where cl: "authenticates (le_jwt E) (le_config E) (le_now E) c cl"
    "ctx_get c1 ''user_id'' = Some (CtxString (cl_user_id cl))"
    "ctx_get c1 ''user_roles'' = Some (CtxStrings (cl_roles cl))"
    and "run_chain (map (run_layer E) [RoleLayer ''ADMIN'']) s1 c1 = (s', Next c')"
    by (rule serve_layers_auth)
  then have "require_role ''ADMIN'' s1 c1 = (s', Next c')" by (auto split: prod.splits outcome.splits)
  with cl show ?thesis by (auto simp: require_role_Next)
qed

text \<open>
  Claim C2: the API security boundary.  On every registered route that is not one of the five public
  ones, a request reaches its handler only with a bearer token the library accepts, and the handler
  sees that token's user; on every route that is not a user's own, the token also has the role
  ADMIN.
\<close>
theorem routes_protected:
  assumes "rt \<in> set all_routes" and "\<not> public_endpoint (rt_endpoint rt)"
    and "serve_layers E rt s c = (s', Next c')"
  shows "\<exists>cl. authenticates (le_jwt E) (le_config E) (le_now E) c cl
    \<and> ctx_get c' ''user_id'' = Some (CtxString (cl_user_id cl))
    \<and> (user_endpoint (rt_endpoint rt) \<or> ''ADMIN'' \<in> set (cl_roles cl))"
  using assms by (rule routes_protected_user)

section \<open>Users are isolated from each other\<close>

text \<open>What an operation for a user leaves of a session of someone else: the row and its responses.\<close>

definition keeps_session :: "test_session \<Rightarrow> db \<Rightarrow> db \<Rightarrow> bool" where
  "keeps_session s d d' \<longleftrightarrow> s \<in> set (test_sessions d') \<and> responses_of (s_id s) d' = responses_of (s_id s) d"

lemma other_session_id:
  assumes "session_inv d" "s \<in> set (test_sessions d)" "x \<in> set (test_sessions d)" "s_user_id x \<noteq> s_user_id s"
  shows "s_id x \<noteq> s_id s"
  using sessions.rows_determined [OF session_invD(1) [OF assms(1)] assms(3,2)] assms(4)
  by (auto simp: clash_on_def)

lemma start_keeps_others:
  assumes inv: "session_inv d" and s: "s \<in> set (test_sessions d)" "s_user_id s \<noteq> trim_space uid"
    and "start_session g now nid did uid d = (res, d')"
  shows "keeps_session s d d'"
proof (cases res)
  case (Inl e)
  with assms show ?thesis by (auto simp: keeps_session_def dest: start_session_Inl)
next
  case (Inr t)
  with assms(4) have "start_session_tx g now nid (trim_space did) (trim_space uid) d = Inr (t, d')"
    by (auto dest: start_session_Inr)
  then show ?thesis
  proof (cases rule: start_session_tx_Inr)
    case (begun dl s0)
    then have "s_id s0 \<noteq> s_id s" using s(2) by (intro other_session_id [OF inv s(1)]) (auto simp: of_user_def)
    with begun s show ?thesis by (simp add: keeps_session_def responses_of_def in_update_where_other)
  qed (use s in \<open>auto simp: keeps_session_def responses_of_def\<close>)
qed

lemma save_keeps_others:
  assumes inv: "session_inv d" and s: "s \<in> set (test_sessions d)" "s_user_id s \<noteq> uid"
    and "save_response g now1 now2 rid sid uid iid dat d = (res, d')"
  shows "keeps_session s d d'"
  using assms(4)
proof (cases rule: save_response_effect)
  case (saved s1 rows)
  have "sid \<noteq> s_id s"
    using find_session_Some [OF saved(1)] other_session_id [OF inv s(1), of s1] s(2) by auto
  with saved(3) have "filter (\<lambda>x. r_session_id x = s_id s) rows
      = filter (\<lambda>x. r_session_id x = s_id s) (item_responses d)"
    by (intro responses_of_upsert_other) auto
  with saved s show ?thesis by (simp add: keeps_session_def responses_of_def)
qed (use s in \<open>simp add: keeps_session_def\<close>)

lemma submit_keeps_others:
  assumes inv: "session_inv d" and s: "s \<in> set (test_sessions d)" "s_user_id s \<noteq> uid"
    and "submit_session svc g sc now sid uid d = (res, d', effs)"
  shows "keeps_session s d d'"
  using inv assms(4)
proof (cases rule: submit_session_effect)
  case (completed s1)
  then have "s_id s1 \<noteq> s_id s" using s(2) by (intro other_session_id [OF inv s(1)]) auto
  with completed s show ?thesis
    by (auto simp: keeps_session_def completed_db_def responses_of_def in_update_where_other filter_update_where_other)
qed (use s in \<open>simp add: keeps_session_def\<close>)

lemma record_keeps_others:
  assumes "s \<in> set (test_sessions d)" and "record_event g now nid e uid d1 d = (res, d')"
  shows "keeps_session s d d'"
proof (cases res)
  case (Inl err)
  with assms show ?thesis by (auto simp: keeps_session_def dest: record_event_Inl)
next
  case (Inr e')
  with assms(2) have "d' = d\<lparr>proctor_events := proctor_events d @ [e']\<rparr>"
    by (auto simp: create_event_Inr dest!: record_event_Inr)
  with assms(1) show ?thesis by (simp add: keeps_session_def responses_of_def)
qed

end
