(* ===== verification/GoJson.thy ===== *)
theory GoJson
  imports Models
begin

text \<open>
  \<open>encoding/json\<close> on the values the services marshal to text columns: strings with the escapes
  of Go's encoder (HTML-sensitive bytes, control bytes, the two line separators and invalid UTF-8
  are escaped, other UTF-8 is copied), and lists of options as the objects of their JSON tags.
\<close>

section \<open>Strings\<close>

definition hex_digit :: "nat \<Rightarrow> nat" where
  "hex_digit n = (if n < 10 then 48 + n else 87 + n)"

definition json_escape_byte :: "nat \<Rightarrow> nat list" where
  "json_escape_byte b =
     (if b = 0x22 \<or> b = 0x5C then [0x5C, b]
      else if b = 0x08 then [0x5C, 0x62]
      else if b = 0x0C then [0x5C, 0x66]
      else if b = 0x0A then [0x5C, 0x6E]
      else if b = 0x0D then [0x5C, 0x72]
      else if b = 0x09 then [0x5C, 0x74]
      else if b < 0x20 \<or> b = 0x3C \<or> b = 0x3E \<or> b = 0x26
        then [0x5C, 0x75, 0x30, 0x30, hex_digit (b div 16), hex_digit (b mod 16)]
      else [b])"

function json_string_bytes :: "nat list \<Rightarrow> nat list" where
  "json_string_bytes bs =
     (case bs of
        [] \<Rightarrow> []
      | b # r \<Rightarrow>
          if b < 0x80 then json_escape_byte b @ json_string_bytes r
          else
            let (x, n) = decode_rune bs
            in (if x = rune_error \<and> n = 1 then [0x5C, 0x75, 0x66, 0x66, 0x66, 0x64]
                else if x = 0x2028 then [0x5C, 0x75, 0x32, 0x30, 0x32, 0x38]
                else if x = 0x2029 then [0x5C, 0x75, 0x32, 0x30, 0x32, 0x39]
                else take n bs) @ json_string_bytes (drop (n - 1) r))"
  by pat_completeness auto
termination
  by (relation "measure length") auto

declare json_string_bytes.simps [simp del]

definition json_string :: "string \<Rightarrow> string" where
  "json_string s = ''\"'' @ bytes (json_string_bytes (map of_char s)) @ ''\"''"

section \<open>Option lists\<close>

definition json_option :: "choice \<Rightarrow> string" where
  "json_option c =
     ''{\"identifier\":'' @ json_string (c_identifier c) @ '',\"text\":'' @ json_string (c_text c) @ ''}''"

definition json_options :: "choice list \<Rightarrow> string" where
  "json_options cs = ''['' @ join_with '','' (map json_option cs) @ '']''"

text \<open>No unescaped quote, backslash or control byte survives, so the string ends where it should.\<close>

definition json_clean :: "nat list \<Rightarrow> bool" where
  "json_clean bs \<longleftrightarrow> (\<forall>b \<in> set bs. 0x20 \<le> b)"

lemma json_escape_byte_clean: "json_clean (json_escape_byte b)"
  by (auto simp: json_escape_byte_def json_clean_def hex_digit_def)

end
