(* ===== verification/Demo.thy ===== *)
theory Demo
  imports GoJson SessionOps
begin

text \<open>
  The demonstration data of \<open>seedDemoData\<close> in \<open>cmd/server/main.go\<close>: an item bank of two items, a
  test with one section, and the open delivery \<open>delivery-demo-01\<close>.  The titles are given by
  their UTF-8 bytes, as the source file has them.  It is the concrete database on which the
  properties of the session service are exercised: what the code does on it, from starting a
  session to submitting it, is evaluated here step by step.
\<close>

section \<open>Seeding\<close>

text \<open>\<open>db.Create\<close> with its error ignored.\<close>

definition create_ignoring :: "gorm \<Rightarrow> nat \<Rightarrow> ('r \<Rightarrow> 'k) \<Rightarrow> 'r \<Rightarrow> 'r list \<Rightarrow> 'r list" where
  "create_ignoring g k key row rows =
     (if stmt_fails g k then rows
      else case insert_row (clash_on key key) row rows of None \<Rightarrow> rows | Some rows' \<Rightarrow> rows')"

definition demo_options_1 :: "choice list" where
  "demo_options_1 =
     [\<lparr>c_identifier = ''A'', c_text = bytes [229, 143, 176, 229, 140, 151, 229, 184, 130]\<rparr>,
      \<lparr>c_identifier = ''B'', c_text = bytes [233, 171, 152, 233, 155, 132, 229, 184, 130]\<rparr>,
      \<lparr>c_identifier = ''C'', c_text = bytes [229, 143, 176, 228, 184, 173, 229, 184, 130]\<rparr>,
      \<lparr>c_identifier = ''D'', c_text = bytes [229, 143, 176, 229, 141, 151, 229, 184, 130]\<rparr>]"

definition demo_item_1 :: "gorm \<Rightarrow> item" where
  "demo_item_1 g =
     \<lparr>i_id = ''item-demo-01'',
      i_title = bytes [229, 143, 176, 231, 129, 163, 231, 154, 132, 233, 166, 150, 233, 131, 189, 230,
       152, 175, 229, 147, 170, 232, 163, 161, 239, 188, 159],
      i_prompt = bytes [232, 171, 139, 233, 129, 184, 229, 135, 186, 230, 173, 163, 231, 162, 186, 231,
       154, 132, 229, 159, 142, 229, 184, 130, 239, 188, 154],
      i_type = SingleChoice,
      i_options_json = json_options demo_options_1,
      i_correct_answer = ''A'', i_max_score = Fin 10, i_layout_hint = ''AUTO'',
      i_created_at = orm_now g, i_updated_at = orm_now g\<rparr>"

definition demo_options_2 :: "choice list" where
  "demo_options_2 =
     [\<lparr>c_identifier = ''A'', c_text = ''Go (Golang)''\<rparr>,
      \<lparr>c_identifier = ''B'', c_text = ''PHP 5.3''\<rparr>,
      \<lparr>c_identifier = ''C'', c_text = ''Rust''\<rparr>,
      \<lparr>c_identifier = ''D'', c_text = ''Bash''\<rparr>]"

definition demo_item_2 :: "gorm \<Rightarrow> item" where
  "demo_item_2 g =
     \<lparr>i_id = ''item-demo-02'',
      i_title = bytes [228, 187, 165, 228, 184, 139, 229, 147, 170, 228, 186, 155, 231, 168, 139, 229,
       188, 143, 232, 170, 158, 232, 168, 128, 230, 148, 175, 230, 143, 180, 233, 171,
       152, 228, 189, 181, 231, 153, 188, 232, 136, 135, 229, 188, 183, 229, 158, 139,
       229, 136, 165, 239, 188, 159],
      i_prompt = bytes [232, 171, 139, 233, 129, 184, 229, 135, 186, 230, 137, 128, 230, 156, 137, 230,
       173, 163, 231, 162, 186, 233, 129, 184, 233, 160, 133, 239, 188, 154],
      i_type = MultipleChoice,
      i_options_json = json_options demo_options_2,
      i_correct_answer = ''A,C'', i_max_score = Fin 10, i_layout_hint = ''AUTO'',
      i_created_at = orm_now g, i_updated_at = orm_now g\<rparr>"

definition demo_test :: "gorm \<Rightarrow> string \<Rightarrow> test" where
  "demo_test g tid =
     \<lparr>t_id = tid,
      t_title = bytes [84, 65, 79, 32, 67, 111, 114, 101, 32, 71, 111, 32, 230, 160, 184, 229, 191,
       131, 232, 131, 189, 229, 138, 155, 230, 188, 148, 231, 164, 186, 230, 184, 172,
       233, 169, 151, 229, 141, 183],
      t_description = [], t_qti_version = ''3.0'', t_time_limit_seconds = 1800,
      t_created_at = orm_now g, t_updated_at = orm_now g\<rparr>"

definition demo_section :: "string \<Rightarrow> string \<Rightarrow> test_section" where
  "demo_section tid secid =
     \<lparr>sec_id = secid, sec_test_id = tid,
      sec_title = bytes [231, 172, 172, 228, 184, 128, 229, 164, 167, 233, 161, 140, 239, 188, 154, 229,
       159, 186, 231, 164, 142, 232, 131, 189, 229, 138, 155, 230, 184, 172, 232, 169,
       166],
      sec_order_index = 1, sec_section_type = ''MAIN''\<rparr>"

definition demo_delivery :: "gorm \<Rightarrow> string \<Rightarrow> delivery" where
  "demo_delivery g tid =
     \<lparr>d_id = ''delivery-demo-01'', d_test_id = tid,
      d_title = bytes [50, 48, 50, 54, 32, 229, 133, 168, 229, 156, 139, 230, 168, 161, 230, 147, 172,
       232, 128, 131, 230, 188, 148, 231, 164, 186, 229, 160, 180, 230, 172, 161],
      d_start_time = None, d_end_time = None, d_is_active = True, d_max_attempts = 1,
      d_created_at = orm_now g\<rparr>"

definition seed_demo_data ::
    "gorm \<Rightarrow> string \<Rightarrow> string \<Rightarrow> string \<Rightarrow> string \<Rightarrow> db \<Rightarrow> db" where
  "seed_demo_data g tid secid ti1 ti2 d =
     (if \<not> stmt_fails g 1 \<and> deliveries d \<noteq> [] then d
      else
        d\<lparr>items := create_ignoring g 3 i_id (demo_item_2 g) (create_ignoring g 2 i_id (demo_item_1 g) (items d)),
          tests := create_ignoring g 4 t_id (demo_test g tid) (tests d),
          test_sections := create_ignoring g 5 sec_id (demo_section tid secid) (test_sections d),
          test_items :=
            create_ignoring g 7 ti_id
              \<lparr>ti_id = ti2, ti_section_id = secid, ti_item_id = ''item-demo-02'', ti_order_index = 2, ti_weight = Fin 1\<rparr>
              (create_ignoring g 6 ti_id
                \<lparr>ti_id = ti1, ti_section_id = secid, ti_item_id = ''item-demo-01'', ti_order_index = 1, ti_weight = Fin 1\<rparr>
                (test_items d)),
          deliveries := create_ignoring g 8 d_id (demo_delivery g tid) (deliveries d)\<rparr>)"

text \<open>Seeding again changes nothing: the delivery is there.\<close>

lemma seed_demo_data_idem:
  "\<not> (\<exists>k. stmt_fails g k) \<Longrightarrow>
     seed_demo_data g tid' secid' ti1' ti2' (seed_demo_data g tid secid ti1 ti2 d) = seed_demo_data g tid secid ti1 ti2 d"
  by (auto simp: seed_demo_data_def create_ignoring_def insert_row_def)

section \<open>The seeded database\<close>

definition demo_db :: db where
  "demo_db = seed_demo_data healthy ''t'' ''sec'' ''ti1'' ''ti2'' empty_db"

lemma demo_rows [simp]:
  "deliveries demo_db = [demo_delivery healthy ''t'']"
  "items demo_db = [demo_item_1 healthy, demo_item_2 healthy]"
  "tests demo_db = [demo_test healthy ''t'']"
  "test_sections demo_db = [demo_section ''t'' ''sec'']"
  "test_items demo_db =
     [\<lparr>ti_id = ''ti1'', ti_section_id = ''sec'', ti_item_id = ''item-demo-01'', ti_order_index = 1, ti_weight = Fin 1\<rparr>,
      \<lparr>ti_id = ''ti2'', ti_section_id = ''sec'', ti_item_id = ''item-demo-02'', ti_order_index = 2, ti_weight = Fin 1\<rparr>]"
  "test_sessions demo_db = []" "item_responses demo_db = []"
  "delivery_groups demo_db = []" "user_groups demo_db = []"
  by (simp_all add: demo_db_def seed_demo_data_def create_ignoring_def insert_row_def empty_db_def clash_on_def
      demo_item_1_def demo_item_2_def)

lemma demo_columns [simp]:
  "d_id (demo_delivery g tid) = ''delivery-demo-01''" "d_test_id (demo_delivery g tid) = tid"
  "d_start_time (demo_delivery g tid) = None" "d_end_time (demo_delivery g tid) = None"
  "d_is_active (demo_delivery g tid)" "d_max_attempts (demo_delivery g tid) = 1"
  "t_id (demo_test g tid) = tid" "t_time_limit_seconds (demo_test g tid) = 1800"
  "sec_id (demo_section tid secid) = secid" "sec_test_id (demo_section tid secid) = tid"
  "i_id (demo_item_1 g) = ''item-demo-01''" "i_type (demo_item_1 g) = SingleChoice"
  "i_correct_answer (demo_item_1 g) = ''A''" "i_max_score (demo_item_1 g) = Fin 10"
  "i_id (demo_item_2 g) = ''item-demo-02''" "i_type (demo_item_2 g) = MultipleChoice"
  "i_correct_answer (demo_item_2 g) = ''A,C''" "i_max_score (demo_item_2 g) = Fin 10"
  by (simp_all add: demo_delivery_def demo_test_def demo_section_def demo_item_1_def demo_item_2_def)

lemma demo_no_sessions: "no_sessions demo_db"
  by (simp add: no_sessions_def)

section \<open>A session on the demonstration delivery\<close>

definition demo_session :: test_session where
  "demo_session = new_session healthy 0 ''s1'' ''delivery-demo-01'' ''alice'' 0"

definition demo_started :: db where
  "demo_started = demo_db\<lparr>test_sessions := [demo_session]\<rparr>"

lemma demo_session_columns [simp]:
  "s_id demo_session = ''s1''" "s_delivery_id demo_session = ''delivery-demo-01''"
  "s_user_id demo_session = ''alice''" "s_attempt demo_session = 1" "s_status demo_session = InProgress"
  "s_started_at demo_session = Some 0" "s_time_spent_seconds demo_session = 0"
  by (simp_all add: demo_session_def new_session_def)

lemma demo_trim [simp]:
  "trim_space ''delivery-demo-01'' = ''delivery-demo-01''" "trim_space ''alice'' = ''alice''"
  by (simp_all add: go_simps)

lemma demo_admitted:
  "admitted healthy 0 ''delivery-demo-01'' ''alice'' demo_db (demo_delivery healthy ''t'')"
  by (simp add: admitted_def first_by_def delivery_closed_def restricted_group_count_def)

lemma demo_start:
  "start_session healthy 0 ''s1'' ''delivery-demo-01'' ''alice'' demo_db = (Inr demo_session, demo_started)"
  by (simp add: start_session_def transaction_def start_session_tx_def first_by_def delivery_closed_def
      check_groups_def restricted_group_count_def latest_open_session_def effective_max_attempts_def
      attempts_of_def insert_row_def demo_session_def [symmetric] demo_started_def)

definition demo_response :: item_response where
  "demo_response = new_response 1 ''r1'' ''s1'' ''item-demo-02'' ''C, A''"

definition demo_answered :: db where
  "demo_answered = demo_started\<lparr>item_responses := [demo_response]\<rparr>"

lemma demo_find_item:
  "find_delivery_test_item healthy k ''delivery-demo-01'' ''item-demo-02'' (demo_db\<lparr>test_sessions := ss, item_responses := rs\<rparr>) =
     Inr (\<lparr>ti_id = ''ti2'', ti_section_id = ''sec'', ti_item_id = ''item-demo-02'', ti_order_index = 2, ti_weight = Fin 1\<rparr>,
          demo_item_2 healthy)"
  by (simp add: find_delivery_test_item_def first_by_def in_delivery_def preload_item_def)

lemma demo_limit:
  "delivery_time_limit ''delivery-demo-01'' (demo_db\<lparr>test_sessions := ss, item_responses := rs\<rparr>) = 1800"
  by (simp add: delivery_time_limit_def)

lemma demo_started_eq: "demo_started = demo_db\<lparr>test_sessions := [demo_session], item_responses := []\<rparr>"
  by (simp add: demo_started_def demo_db_def seed_demo_data_def empty_db_def)

lemma demo_answered_eq: "demo_answered = demo_db\<lparr>test_sessions := [demo_session], item_responses := [demo_response]\<rparr>"
  by (simp add: demo_started_def demo_answered_def)

lemma demo_save:
  "save_response healthy 1 1 ''r1'' ''s1'' ''alice'' ''item-demo-02'' ''C, A'' demo_started =
     (Inr demo_response, demo_answered)"
  by (simp add: save_response_def transaction_def save_response_tx_def find_session_def first_by_def
      ensure_session_within_time_limit_def demo_limit ensure_item_belongs_to_delivery_def demo_find_item
      seconds_duration_def wrap_int64_def second_def upsert_response_def insert_row_def answers_def
      demo_started_eq demo_answered_eq demo_response_def Let_def)

lemma demo_invariants: "session_inv demo_db" "session_inv demo_started" "session_inv demo_answered"
proof -
  show a: "session_inv demo_db" by (rule session_inv_initial [OF demo_no_sessions])
  from this demo_start show b: "session_inv demo_started" by (rule session_inv_start)
  from this demo_save show "session_inv demo_answered" by (rule session_inv_save)
qed

text \<open>Scoring the answer and submitting after one minute.\<close>

lemma demo_score: "score_item U (Some (demo_item_2 healthy)) ''C, A'' = (Fin 10, True)"
proof -
  have "same_choices ''C, A'' ''A,C''"
    by (simp add: same_choices_iff answer_parts_def go_simps)
  then show ?thesis by (simp add: score_item_def bad_points_def go_simps)
qed

lemma demo_arith:
  "f64_mul (Fin 10) (Fin 1) = Fin 10" "f64_add (Fin 0) (Fin 10) = Fin 10"
  "f64_to_int (duration_seconds (time_sub 60000000000 0)) = 60"
    apply code_simp
   apply code_simp
  apply code_simp
  done

definition demo_scored :: item_response where
  "demo_scored = record_score (Fin 10) True demo_response"

definition demo_finished :: test_session where
  "demo_finished = demo_session\<lparr>s_status := Completed, s_total_score := Fin 10,
     s_finished_at := Some 60000000000, s_time_spent_seconds := 60\<rparr>"

definition demo_completed :: db where
  "demo_completed = demo_db\<lparr>item_responses := [demo_scored], test_sessions := [demo_finished]\<rparr>"

lemma demo_finish: "finish_session healthy 60000000000 (Fin 10) demo_session = demo_finished"
  by (simp add: finish_session_def demo_finished_def demo_arith demo_session_def new_session_def)

lemma demo_finished_columns [simp]:
  "s_id demo_finished = ''s1''" "s_user_id demo_finished = ''alice''" "s_status demo_finished = Completed"
  "s_total_score demo_finished = Fin 10" "s_finished_at demo_finished = Some 60000000000"
  "s_time_spent_seconds demo_finished = 60" "s_delivery_id demo_finished = ''delivery-demo-01''"
  by (simp_all add: demo_finished_def)

lemma demo_scores:
  "score_responses healthy (\<lambda>i. score_item U (Some i)) ''delivery-demo-01'' [demo_response] 3 (Fin 0) demo_answered =
     Inr (6, Fin 10, demo_db\<lparr>test_sessions := [demo_session], item_responses := [demo_scored]\<rparr>)"
  by (simp add: demo_answered_eq demo_find_item demo_score demo_arith bad_points_def demo_scored_def
      demo_response_def Let_def del: f64_mul.simps f64_add.simps)

lemma demo_submit:
  "submit_session svc healthy (\<lambda>i. score_item U (Some i)) 60000000000 ''s1'' ''alice'' demo_answered =
     (Inr (demo_finished, [demo_scored]), demo_completed, completion_effects svc (demo_finished, [demo_scored]))"
proof -
  have r: "responses_of ''s1'' demo_answered = [demo_response]"
    by (simp add: responses_of_def demo_answered_eq demo_response_def)
  have r': "responses_of ''s1'' demo_completed = [demo_scored]"
    by (simp add: responses_of_def demo_completed_def demo_scored_def demo_response_def)
  have f: "find_session healthy ''s1'' ''alice'' demo_answered = Some demo_session"
    by (simp add: find_session_def first_by_def demo_answered_eq)
  have "update_where (\<lambda>x. s_id x = ''s1'' \<and> s_user_id x = ''alice'' \<and> s_status x = InProgress)
      (finish_session healthy 60000000000 (Fin 10)) [demo_session] = [demo_finished]"
    by (simp add: demo_finish)
  then have "submit_session_tx healthy (\<lambda>i. score_item U (Some i)) 60000000000 ''s1'' ''alice'' demo_answered
      = Inr (((demo_finished, responses_of ''s1'' demo_completed), True), demo_completed)"
    by (simp add: submit_session_tx_def f r demo_scores [simplified] Let_def first_by_def demo_completed_def)
  then show ?thesis by (simp add: submit_session_def transaction_def r')
qed

lemma demo_completed_inv: "session_inv demo_completed"
  using demo_invariants(3) demo_submit by (rule session_inv_submit)

end
