(* ===== verification/SessionWitnesses.thy ===== *)
theory SessionWitnesses
  imports Demo
begin

text \<open>
  The properties of the session service at work on the demonstration delivery: each is applied to
  the run of \<open>alice\<close> who starts a session, answers the second item and submits after a minute.
\<close>

abbreviation demo_scorer :: scorer where
  "demo_scorer \<equiv> \<lambda>i. score_item ascii_unicode (Some i)"

definition demo_svc :: session_service where
  "demo_svc = \<lparr>has_event_bus = True, has_webhook = True, has_lti = True\<rparr>"

lemma start_session_admission_witness:
  "of_user ''delivery-demo-01'' ''alice'' demo_session \<and> demo_session \<notin> set (test_sessions demo_db)
   \<and> s_attempt demo_session = 1 \<and> demo_started = demo_db\<lparr>test_sessions := test_sessions demo_db @ [demo_session]\<rparr>"
  using start_session_admission [OF demo_start] by simp

lemma start_session_resumes_witness:
  "start_session healthy 0 ''s2'' ''delivery-demo-01'' ''alice'' demo_started = (Inr demo_session, demo_started)"
proof -
  have "admitted healthy 0 ''delivery-demo-01'' ''alice'' demo_started (demo_delivery healthy ''t'')"
    using demo_admitted by (simp add: admitted_def demo_started_def restricted_group_count_def)
  then show ?thesis
    by (intro start_session_resumes [OF demo_invariants(2)]) (simp_all add: demo_started_def of_user_def)
qed

lemma foreign_session_hidden_witness:
  "\<exists>e \<in> {ErrSessionNotFound, ErrStatement 1}. get_session healthy ''s1'' ''bob'' demo_started = Inl e"
  using foreign_session_hidden [of demo_started "''s1''" "''bob''" healthy 0 0 "''r1''" "''item-demo-01''" "''A''"
      demo_svc demo_scorer 0]
  by (auto simp: demo_started_def)

lemma save_response_stores_answer_witness:
  "filter (answers ''s1'' ''item-demo-02'') (item_responses demo_answered) = [demo_response]
   \<and> r_response_data demo_response = ''C, A''"
  using save_response_stores_answer [OF demo_invariants(2) demo_save] by blast

lemma save_response_cannot_overwrite_witness:
  "\<exists>e. save_response healthy 5 5 ''r2'' ''s1'' ''alice'' ''item-demo-02'' ''A,C'' demo_answered = (Inl e, demo_answered)"
  using save_response_cannot_overwrite [of healthy demo_response demo_answered "''s1''" "''item-demo-02''"
      5 5 "''r2''" "''alice''" "''A,C''"]
  by (simp add: demo_answered_eq demo_response_def answers_def)

lemma time_limit_enforced_witness:
  "save_response healthy 1800000000001 5 ''r1'' ''s1'' ''alice'' ''item-demo-02'' ''C, A'' demo_started
     = (Inl ErrSessionExpired, demo_started)"
proof -
  have "save_response healthy 1800000000001 5 ''r1'' (s_id demo_session) (s_user_id demo_session) ''item-demo-02'' ''C, A''
      demo_started = (Inl ErrSessionExpired, demo_started)"
    by (rule iffD2 [OF time_limit_enforced [OF demo_invariants(2), of demo_session 0 healthy "hd (deliveries demo_started)"
          "hd (tests demo_started)"]])
      (simp_all add: demo_started_def)
  then show ?thesis by simp
qed

lemma submit_session_scores_witness:
  "s_total_score demo_finished = foldl f64_add (Fin 0) (map r_score_given [demo_scored])
   \<and> demo_completed = completed_db healthy demo_scorer 60000000000 demo_session demo_answered"
proof -
  have "find_session healthy ''s1'' ''alice'' demo_answered = Some demo_session"
    by (simp add: find_session_def first_by_def demo_answered_eq)
  from submit_session_scores [OF demo_invariants(3) this _ demo_submit [of demo_svc]] show ?thesis by simp
qed

lemma submit_session_idempotent_witness:
  "submit_session demo_svc healthy demo_scorer 90000000000 ''s1'' ''alice'' demo_completed
     = (Inr (demo_finished, [demo_scored]), demo_completed, [])"
  by (rule submit_session_idempotent [OF demo_invariants(3) demo_submit [of demo_svc ascii_unicode]]) simp

lemma submit_session_succeeds_witness:
  "\<exists>s' rs' d'. submit_session demo_svc healthy demo_scorer 5 ''s1'' ''alice'' demo_answered
      = (Inr (s', rs'), d', completion_effects demo_svc (s', rs')) \<and> s_status s' = Completed"
proof -
  have r: "responses_of ''s1'' demo_answered = [demo_response]"
    by (simp add: responses_of_def demo_answered_eq demo_response_def)
  have "scorable healthy ''delivery-demo-01'' demo_answered demo_response"
    by (simp add: scorable_def delivery_test_item_def first_by_def in_delivery_def preload_item_def
        demo_answered_eq demo_response_def bad_points_def)
  then have "\<exists>s' rs' d'. submit_session demo_svc healthy demo_scorer 5 (s_id demo_session) (s_user_id demo_session)
      demo_answered = (Inr (s', rs'), d', completion_effects demo_svc (s', rs')) \<and> s_status s' = Completed
      \<and> fin_within (of_nat (length (responses_of (s_id demo_session) demo_answered) * 10 ^ 12)) (s_total_score s')"
    by (intro submit_session_succeeds [OF demo_invariants(3)]) (simp_all add: r, simp add: demo_answered_eq)
  then show ?thesis by auto
qed

end
