(* ===== verification/ApiWitnesses.thy ===== *)
theory ApiWitnesses
  imports Api SessionWitnesses
begin

text \<open>
  The properties of the HTTP surface on concrete requests: a student's token on the start route,
  and \<open>bob\<close>'s token against the session of \<open>alice\<close>.
\<close>

definition start_route :: route where
  "start_route = handle \<lparr>gr_prefix = ''/api/v1/sessions'', gr_layers = [AuthLayer]\<rparr> ''POST'' ''/start'' [] EpStartSession"

lemma start_route_registered: "start_route \<in> set all_routes"
  by (simp add: start_route_def all_routes_def protected_routes_def Let_def handle_def use_layers_def sub_group_def
      root_group_def)

definition sample_env :: layer_env where
  "sample_env = \<lparr>le_jwt = sample_jwt, le_config = sample_jwt_config, le_now = second, le_pick = 0, le_unicode = ascii_unicode\<rparr>"

lemma sample_authenticates:
  "authenticates sample_jwt sample_jwt_config second (sample_request ''Bearer tok'') sample_claims"
  by (simp add: authenticates_def get_header_def sample_request_def sample_jwt_def claims_valid_at_def
      sample_claims_def issued_claims_def numeric_date_def second_def go_simps)

lemma set_header_body [simp]:
  "cx_body (set_header k v c) = cx_body c" "cx_content_length (set_header k v c) = cx_content_length c"
  by (simp_all add: set_header_def)

lemma security_headers_Next:
  "\<exists>c'. security_headers s c = (s, Next c') \<and> get_header c' = get_header c \<and> cx_body c' = cx_body c
     \<and> cx_content_length c' = cx_content_length c"
  by (simp add: security_headers_def)

lemma small_json_Next:
  assumes "get_header c ''Content-Type'' = ''application/json''"
    and "cx_body c = Some \<lparr>body_bytes = ''{}'', body_breaks = False\<rparr>" and "cx_content_length c = 2"
  shows "\<exists>c'. json_body_limit U (2 ^ 20) s c = (s, Next c')"
proof -
  have "to_lower U ''application/json'' = ''application/json''"
    by (simp add: go_simps)
  moreover have "read_limited (2 ^ 20) \<lparr>body_bytes = ''{}'', body_breaks = False\<rparr> = Some ''{}''"
    by (simp add: read_limited_def)
  ultimately show ?thesis by (simp add: json_body_limit_def assms)
qed

lemma sample_global:
  "\<exists>s1 c1. run_chain (global_layers sample_env) s (sample_request h) = (s1, Next c1) \<and> limiter s1 = limiter s"
proof -
  define s0 where "s0 = s\<lparr>total_requests := total_requests s + 1\<rparr>"
  obtain c' where c': "security_headers s0 (sample_request h) = (s0, Next c')"
      "get_header c' = get_header (sample_request h)" "cx_body c' = cx_body (sample_request h)"
      "cx_content_length c' = cx_content_length (sample_request h)"
    using security_headers_Next by blast
  have "get_header (sample_request h) ''Content-Type'' = ''application/json''"
      "cx_body (sample_request h) = Some \<lparr>body_bytes = ''{}'', body_breaks = False\<rparr>"
      "cx_content_length (sample_request h) = 2"
    by (simp_all add: get_header_def sample_request_def)
  then obtain c'' where j: "json_body_limit (le_unicode sample_env) (2 ^ 20) s0 c' = (s0, Next c'')"
    using small_json_Next [of c' "le_unicode sample_env" s0] c'(2-4) by auto
  have "run_chain (global_layers sample_env) s (sample_request h) = (s0, Next c'')"
    unfolding global_layers_def run_chain.simps metrics_collector_def s0_def [symmetric]
    by (simp only: prod.case outcome.case c'(1) j)
  then show ?thesis by (auto simp: s0_def)
qed

text \<open>The token's user passes the layers of a user route, before anybody else has been counted.\<close>

lemma sample_passes:
  assumes layers: "rt_layers rt = AuthLayer # ls" "set ls \<subseteq> {RateLayer}" "length ls \<le> 1"
    and unseen: "ls \<noteq> [] \<Longrightarrow> visitors (limiter s) = []"
  shows "\<exists>s' c'. serve_layers sample_env rt s (sample_request ''Bearer tok'') = (s', Next c')
    \<and> authenticated_user_id c' = Some ''alice'' \<and> ctx_param c' ''id'' = ''s1'' \<and> (ls = [] \<longrightarrow> limiter s' = limiter s)"
proof -
  obtain s1 c1 where g: "run_chain (global_layers sample_env) s (sample_request ''Bearer tok'') = (s1, Next c1)"
      "limiter s1 = limiter s"
    using sample_global by blast
  note keeps = global_layers_Next [OF g(1)]
  then have "authenticates sample_jwt sample_jwt_config second c1 sample_claims"
    using sample_authenticates authenticates_cong [of c1 "sample_request ''Bearer tok''" sample_jwt sample_jwt_config second]
    by simp
  note a = jwt_auth_accepts [OF sample_config_valid this, of s1]
  have l: "le_jwt sample_env = sample_jwt" "le_config sample_env = sample_jwt_config" "le_now sample_env = second"
    by (simp_all add: sample_env_def)
  let ?c = "ctx_set ''user_roles'' (CtxStrings (cl_roles sample_claims)) (ctx_set ''user_id'' (CtxString (cl_user_id sample_claims)) c1)"
  have auth: "run_layer sample_env AuthLayer s1 c1 = (s1, Next ?c)" by (simp add: l a)
  have user: "authenticated_user_id ?c = Some ''alice''"
    by (simp add: authenticated_user_id_def sample_claims_def issued_claims_def go_simps)
  have param: "ctx_param ?c ''id'' = ''s1''"
    using keeps by (simp add: ctx_param_def sample_request_def)
  consider "ls = []" | "ls = [RateLayer]" using layers(2,3) by (cases ls) auto
  then have "\<exists>s'. run_chain (map (run_layer sample_env) (rt_layers rt)) s1 c1 = (s', Next ?c)
      \<and> (ls = [] \<longrightarrow> limiter s' = limiter s)"
  proof cases
    case 1
    then show ?thesis using auth g(2) by (simp add: layers(1))
  next
    case 2
    have "\<exists>s'. run_layer sample_env RateLayer s1 ?c = (s', Next ?c)"
      using g(2) unseen 2 by (simp add: rate_limit_def admit_def max_tracked_clients_def)
    with 2 auth show ?thesis by (auto simp: layers(1) simp del: run_layer.simps)
  qed
  then show ?thesis
    using user param by (auto simp: serve_layers_def run_chain_append g(1))
qed

lemma routes_protected_witness:
  "\<exists>s' c' cl. serve_layers sample_env start_route sample_server (sample_request ''Bearer tok'') = (s', Next c')
    \<and> authenticates sample_jwt sample_jwt_config second (sample_request ''Bearer tok'') cl
    \<and> ctx_get c' ''user_id'' = Some (CtxString (cl_user_id cl))"
proof -
  have "rt_layers start_route = AuthLayer # []"
    by (simp add: start_route_def handle_def)
  from sample_passes [OF this] obtain s' c' where
    n: "serve_layers sample_env start_route sample_server (sample_request ''Bearer tok'') = (s', Next c')" by fastforce
  have "\<not> public_endpoint (rt_endpoint start_route)"
    by (simp add: start_route_def handle_def public_endpoint_def)
  from routes_protected [OF start_route_registered this n] n show ?thesis
    by (auto simp: sample_env_def)
qed

definition sample_event :: proctor_event where
  "sample_event =
     \<lparr>pe_id = [], pe_session_id = ''s1'', pe_event_type = CopyAttempt, pe_duration_seconds = 0,
      pe_details = ''x'', pe_created_at = zero_time\<rparr>"

lemma recorded_event_raises_risk_witness:
  "\<exists>e' d'. record_event healthy 7 ''e1'' sample_event ''alice'' demo_started demo_started = (Inr e', d')
     \<and> (\<exists>new. get_proctor_analytics healthy ''s1'' d' = Inr new \<and> risk_rank ''LOW'' \<le> risk_rank (ps_risk_level new))"
proof -
  have events: "proctor_events demo_started = []"
    by (simp add: demo_started_def demo_db_def seed_demo_data_def empty_db_def)
  have "find_session healthy ''s1'' ''alice'' demo_started = Some demo_session"
    by (simp add: find_session_def first_by_def demo_started_def)
  then have "prepare_event healthy 7 ''e1'' sample_event ''alice'' demo_started
      = Inr (sample_event\<lparr>pe_details := trim_space ''x'', pe_id := ''e1'', pe_created_at := 7\<rparr>)"
    by (simp add: prepare_event_def sample_event_def valid_event_content_def)
  then obtain e' d' where r: "record_event healthy 7 ''e1'' sample_event ''alice'' demo_started demo_started = (Inr e', d')"
    by (simp add: record_event_def create_event_def insert_row_def events)
  obtain old where "get_proctor_analytics healthy ''s1'' demo_started = Inr old" "ps_risk_level old = ''LOW''"
    by (simp add: analytics_of_events session_events_def events summarize_def risk_level_def)
  with recorded_event_raises_risk [OF r, of healthy "''s1''"] r events show ?thesis by auto
qed

end
