(* ===== verification/ResultsExport.thy ===== *)
theory ResultsExport
  imports Proctor
begin

text \<open>
  The results export of \<open>internal/service/results_export_service.go\<close> and its handler: one CSV row
  per session of a delivery with the scores and the proctoring risk, user-controlled cells guarded
  against formula injection.  \<open>encoding/csv\<close> is modelled by the writer the service uses, and a
  reader in the sense of RFC 4180 states what the written text means.  Output errors of the HTTP
  connection are not modelled; \<open>tz\<close> is the offset from UTC, in seconds, of the location in which
  the database driver returns times.
\<close>

section \<open>Writing CSV\<close>

definition starts_with_space :: "string \<Rightarrow> bool" where
  "starts_with_space s \<longleftrightarrow> list_ex (\<lambda>w. prefix w s) go_spaces"

definition newline :: char where
  "newline = CHR 0x0A"

definition carriage_return :: char where
  "carriage_return = CHR 0x0D"

definition field_needs_quotes :: "string \<Rightarrow> bool" where
  "field_needs_quotes f \<longleftrightarrow>
     f \<noteq> []
     \<and> (f = [CHR 0x5C, CHR ''.'']
        \<or> list_ex (\<lambda>c. c = newline \<or> c = carriage_return \<or> c = CHR 0x22 \<or> c = CHR '','') f
        \<or> starts_with_space f)"

fun escape_quotes :: "string \<Rightarrow> string" where
  "escape_quotes [] = []"
| "escape_quotes (c # cs) = (if c = CHR 0x22 then [CHR 0x22, CHR 0x22] else [c]) @ escape_quotes cs"

definition csv_field :: "string \<Rightarrow> string" where
  "csv_field f = (if field_needs_quotes f then CHR 0x22 # escape_quotes f @ [CHR 0x22] else f)"

definition csv_record :: "string list \<Rightarrow> string" where
  "csv_record fs = join_with '','' (map csv_field fs) @ [newline]"

text \<open>The reader: quoted fields with doubled quotes, records ended by a line feed.\<close>

datatype csv_state = FieldStart | Unquoted | Quoted | QuoteSeen

fun csv_read :: "csv_state \<Rightarrow> string \<Rightarrow> string list \<Rightarrow> string \<Rightarrow> string list list option" where
  "csv_read FieldStart cur row [] = (if row = [] then Some [] else None)"
| "csv_read st cur row [] = None"
| "csv_read Quoted cur row (c # s) =
     (if c = CHR 0x22 then csv_read QuoteSeen cur row s else csv_read Quoted (cur @ [c]) row s)"
| "csv_read st cur row (c # s) =
     (if c = CHR '','' then csv_read FieldStart [] (row @ [cur]) s
      else if c = newline then map_option (\<lambda>rs. (row @ [cur]) # rs) (csv_read FieldStart [] [] s)
      else if c = CHR 0x22 then
        (case st of
           FieldStart \<Rightarrow> csv_read Quoted [] row s
         | QuoteSeen \<Rightarrow> csv_read Quoted (cur @ [c]) row s
         | _ \<Rightarrow> None)
      else if st = QuoteSeen then None
      else csv_read Unquoted (cur @ [c]) row s)"

definition csv_parse :: "string \<Rightarrow> string list list option" where
  "csv_parse s = csv_read FieldStart [] [] s"

section \<open>Cells\<close>

definition blank_chars :: "char list" where
  "blank_chars = [CHR '' '', CHR 0x09, CHR 0x0D, CHR 0x0A]"

definition formula_chars :: "char list" where
  "formula_chars = [CHR ''='', CHR ''+'', CHR ''-'', CHR ''@'']"

definition sanitize_csv_cell :: "string \<Rightarrow> string" where
  "sanitize_csv_cell v =
     (case trim_left_set blank_chars v of
        [] \<Rightarrow> v
      | c # _ \<Rightarrow> if c \<in> set formula_chars then CHR 0x27 # v else v)"

text \<open>\<open>Time.Format("2006-01-02 15:04:05")\<close>: the proleptic Gregorian calendar of the local time.\<close>

definition pad_digits :: "nat \<Rightarrow> int \<Rightarrow> string" where
  "pad_digits n i = (let s = nat_digits (nat i) in replicate (n - length s) CHR ''0'' @ s)"

definition civil_from_days :: "int \<Rightarrow> int \<times> int \<times> int" where
  "civil_from_days z0 =
     (let z = z0 + 719468; era = z div 146097; doe = z mod 146097;
          yoe = (doe - doe div 1460 + doe div 36524 - doe div 146096) div 365;
          doy = doe - (365 * yoe + yoe div 4 - yoe div 100);
          mp = (5 * doy + 2) div 153;
          d = doy - (153 * mp + 2) div 5 + 1;
          m = (if mp < 10 then mp + 3 else mp - 9)
      in (yoe + era * 400 + (if m \<le> 2 then 1 else 0), m, d))"

definition date_text :: "int \<Rightarrow> time \<Rightarrow> string" where
  "date_text tz t =
     (let (y, m, d) = civil_from_days ((t div second + tz) div 86400)
      in pad_digits 4 y @ ''-'' @ pad_digits 2 m @ ''-'' @ pad_digits 2 d)"

definition clock_text :: "int \<Rightarrow> time \<Rightarrow> string" where
  "clock_text tz t =
     (let r = (t div second + tz) mod 86400
      in pad_digits 2 (r div 3600) @ '':'' @ pad_digits 2 (r div 60 mod 60) @ '':'' @ pad_digits 2 (r mod 60))"

definition format_date_time :: "int \<Rightarrow> time \<Rightarrow> string" where
  "format_date_time tz t = date_text tz t @ '' '' @ clock_text tz t"

fun status_string :: "session_status \<Rightarrow> string" where
  "status_string NotStarted = ''NOT_STARTED''"
| "status_string InProgress = ''IN_PROGRESS''"
| "status_string Paused = ''PAUSED''"
| "status_string Completed = ''COMPLETED''"
| "status_string (OtherStatus s) = s"

section \<open>The export\<close>

definition csv_header :: "string list" where
  "csv_header =
     [''SessionID'', ''UserID'', ''Status'', ''TotalScore'', ''TimeSpentSeconds'', ''RiskLevel'',
      ''TotalTabSwitches'', ''TotalResponsesCount'', ''StartedAt'', ''FinishedAt'']"

definition export_row :: "gorm \<Rightarrow> int \<Rightarrow> db \<Rightarrow> test_session \<Rightarrow> string list" where
  "export_row pg tz d s =
     (let (risk, tabs) =
        (case get_proctor_analytics pg (s_id s) d of
           Inl _ \<Rightarrow> (''LOW'', ''0'')
         | Inr a \<Rightarrow> (ps_risk_level a, int_string (ps_total_tab_switches a)))
      in [sanitize_csv_cell (s_id s), sanitize_csv_cell (s_user_id s), status_string (s_status s),
          format_2f (s_total_score s), int_string (s_time_spent_seconds s), sanitize_csv_cell risk, tabs,
          int_string (int (length (responses_of (s_id s) d))),
          (case s_started_at s of None \<Rightarrow> [] | Some t \<Rightarrow> format_date_time tz t),
          (case s_finished_at s of None \<Rightarrow> [] | Some t \<Rightarrow> format_date_time tz t)])"

text \<open>\<open>pg i\<close> is how the database answers the proctoring query of the \<open>i\<close>-th session.\<close>

definition export_rows :: "(nat \<Rightarrow> gorm) \<Rightarrow> int \<Rightarrow> string \<Rightarrow> db \<Rightarrow> string list list" where
  "export_rows pg tz did d =
     csv_header # map (\<lambda>(i, s). export_row (pg i) tz d s)
       (enumerate 0 (filter (\<lambda>s. s_delivery_id s = did) (test_sessions d)))"

text \<open>The preload of the responses is a second statement, which runs only when there are sessions.\<close>

definition export_delivery_results_csv ::
    "gorm \<Rightarrow> (nat \<Rightarrow> gorm) \<Rightarrow> int \<Rightarrow> string \<Rightarrow> db \<Rightarrow> service_err + string" where
  "export_delivery_results_csv g pg tz did d =
     (if stmt_fails g 1 then Inl (ErrStatement 1)
      else if stmt_fails g 2 \<and> filter (\<lambda>s. s_delivery_id s = did) (test_sessions d) \<noteq> [] then Inl (ErrStatement 2)
      else Inr (concat (map csv_record (export_rows pg tz did d))))"

section \<open>The handler\<close>

definition is_filename_rune :: "unicode_tables \<Rightarrow> nat \<Rightarrow> bool" where
  "is_filename_rune U r \<longleftrightarrow>
     (if r < 128 then (65 \<le> r \<and> r \<le> 90) \<or> (97 \<le> r \<and> r \<le> 122) \<or> (48 \<le> r \<and> r \<le> 57) \<or> r = 45 \<or> r = 95
      else is_letter_table U r \<or> is_digit_table U r)"

definition safe_filename_part :: "unicode_tables \<Rightarrow> string \<Rightarrow> string" where
  "safe_filename_part U v =
     (let s = bytes (concat (map (\<lambda>r. encode_rune (if is_filename_rune U r then r else 95)) (runes v)))
      in if s = [] then ''unknown'' else s)"

datatype csv_reply = CsvBadRequest | CsvFile string string | CsvFailed

definition export_results_handler ::
    "unicode_tables \<Rightarrow> gorm \<Rightarrow> (nat \<Rightarrow> gorm) \<Rightarrow> int \<Rightarrow> string \<Rightarrow> db \<Rightarrow> nat \<times> csv_reply" where
  "export_results_handler U g pg tz did d =
     (if did = [] \<or> 36 < length did then (400, CsvBadRequest)
      else case export_delivery_results_csv g pg tz did d of
        Inl _ \<Rightarrow> (500, CsvFailed)
      | Inr body \<Rightarrow> (200, CsvFile (''delivery_'' @ safe_filename_part U did @ ''_results.csv'') body))"

section \<open>What is written is what is read\<close>

lemma newline_neq [simp]: "newline \<noteq> CHR '',''" "newline \<noteq> CHR 0x22" "CHR '','' \<noteq> newline" "CHR 0x22 \<noteq> newline"
  by (simp_all add: newline_def)

text \<open>The reader at the end of a field.\<close>

definition csv_end :: "string list \<Rightarrow> char \<Rightarrow> string \<Rightarrow> string list list option" where
  "csv_end row c s =
     (if c = CHR '','' then csv_read FieldStart [] row s
      else map_option (\<lambda>rs. row # rs) (csv_read FieldStart [] [] s))"

definition plain_char :: "char \<Rightarrow> bool" where
  "plain_char c \<longleftrightarrow> c \<noteq> newline \<and> c \<noteq> CHR 0x22 \<and> c \<noteq> CHR '',''"

lemma csv_read_unquoted:
  "c = CHR '','' \<or> c = newline \<Longrightarrow> \<forall>x \<in> set f. plain_char x \<Longrightarrow>
     csv_read Unquoted cur row (f @ c # s) = csv_end (row @ [cur @ f]) c s"
proof (induction f arbitrary: cur)
  case Nil
  then show ?case by (auto simp: csv_end_def)
next
  case (Cons x f)
  then show ?case by (simp add: plain_char_def)
qed

lemma csv_read_quoted:
  "c = CHR '','' \<or> c = newline \<Longrightarrow>
     csv_read Quoted cur row (escape_quotes f @ CHR 0x22 # c # s) = csv_end (row @ [cur @ f]) c s"
proof (induction f arbitrary: cur)
  case Nil
  then show ?case by (auto simp: csv_end_def)
next
  case (Cons x f)
  then show ?case by simp
qed

lemma csv_read_field:
  assumes "c = CHR '','' \<or> c = newline"
  shows "csv_read FieldStart [] row (csv_field f @ c # s) = csv_end (row @ [f]) c s"
proof (cases "field_needs_quotes f")
  case True
  then show ?thesis using csv_read_quoted [OF assms, of "[]" row f s] by (simp add: csv_field_def)
next
  case False
  then have plain: "\<forall>x \<in> set f. plain_char x"
    by (auto simp: field_needs_quotes_def plain_char_def list_ex_iff)
  show ?thesis
  proof (cases f)
    case Nil
    with False assms show ?thesis by (auto simp: csv_field_def csv_end_def)
  next
    case (Cons x xs)
    with False plain csv_read_unquoted [OF assms, of xs "[x]" row s] show ?thesis
      by (simp add: csv_field_def plain_char_def)
  qed
qed

lemma csv_read_fields:
  "fs \<noteq> [] \<Longrightarrow> csv_read FieldStart [] row (join_with '','' (map csv_field fs) @ newline # s)
     = map_option (\<lambda>rs. (row @ fs) # rs) (csv_read FieldStart [] [] s)"
proof (induction fs arbitrary: row rule: induct_list012)
  case 1
  then show ?case by simp
next
  case (2 f)
  then show ?case by (simp add: csv_read_field csv_end_def)
next
  case (3 f f2 fs)
  then show ?case by (simp add: csv_read_field [of "CHR '',''"] csv_end_def)
qed

lemma csv_parse_records:
  "\<forall>r \<in> set rows. r \<noteq> [] \<Longrightarrow> csv_parse (concat (map csv_record rows)) = Some rows"
  unfolding csv_parse_def
  by (induction rows) (simp_all add: csv_record_def csv_read_fields)

text \<open>
  Claim C35: the export can be read back.  The CSV text a delivery exports parses, as RFC 4180 has
  it, to exactly the header and one row of ten cells per session of the delivery, whatever quotes,
  commas, line breaks or spaces the identifiers contain.
\<close>
theorem export_round_trip:
  shows "map_sum id csv_parse (export_delivery_results_csv g pg tz did d) =
    (if stmt_fails g 1 then Inl (ErrStatement 1)
     else if stmt_fails g 2 \<and> list_ex (\<lambda>s. s_delivery_id s = did) (test_sessions d) then Inl (ErrStatement 2)
     else Inr (Some (csv_header # map (\<lambda>(i, s). export_row (pg i) tz d s)
       (enumerate 0 (filter (\<lambda>s. s_delivery_id s = did) (test_sessions d))))))"
proof -
  have "\<forall>r \<in> set (export_rows pg tz did d). r \<noteq> []"
    by (auto simp: export_rows_def csv_header_def export_row_def split: prod.splits)
  note parsed = csv_parse_records [OF this]
  have "filter (\<lambda>s. s_delivery_id s = did) (test_sessions d) \<noteq> []
      \<longleftrightarrow> list_ex (\<lambda>s. s_delivery_id s = did) (test_sessions d)"
    by (simp add: filter_empty_conv list_ex_iff)
  then show ?thesis
    using parsed by (simp add: export_delivery_results_csv_def export_rows_def)
qed

section \<open>Cells are not formulas\<close>

text \<open>
  What a spreadsheet takes for a formula, stated without the code's own tables: the first byte that is
  no space, tab, carriage return or line feed is an equals sign, plus, minus or at sign.
\<close>

definition formula_cell :: "string \<Rightarrow> bool" where
  "formula_cell v \<longleftrightarrow>
     (case dropWhile (\<lambda>c. c = CHR '' '' \<or> c = CHR 0x09 \<or> c = CHR 0x0D \<or> c = CHR 0x0A) v of
        [] \<Rightarrow> False
      | c # _ \<Rightarrow> c = CHR ''='' \<or> c = CHR ''+'' \<or> c = CHR ''-'' \<or> c = CHR ''@'')"

lemma sanitize_formula: "sanitize_csv_cell v = (if formula_cell v then CHR 0x27 # v else v)"
proof -
  define w where "w = dropWhile (\<lambda>c. c = CHR '' '' \<or> c = CHR 0x09 \<or> c = CHR 0x0D \<or> c = CHR 0x0A) v"
  then have trim: "trim_left_set blank_chars v = w" by (simp add: trim_left_set_def blank_chars_def)
  show ?thesis
    unfolding sanitize_csv_cell_def formula_cell_def trim w_def [symmetric]
    by (cases w) (simp_all add: formula_chars_def)
qed

lemma sanitize_not_formula: "\<not> formula_cell (sanitize_csv_cell v)"
  unfolding sanitize_formula by (simp add: formula_cell_def)

text \<open>
  Claim C36: no formula injection.  In every exported row the cells that carry stored identifiers and
  the risk level never start, after blanks, with a character a spreadsheet takes for a formula: an
  identifier that would is exported behind an apostrophe, and any other is exported unchanged.
\<close>
theorem export_cells_not_formulas:
  shows "(\<not> list_ex formula_cell (map ((!) (export_row pg tz d s)) [0, 1, 5]))
    \<and> export_row pg tz d s ! 0 = (if formula_cell (s_id s) then CHR 0x27 # s_id s else s_id s)
    \<and> export_row pg tz d s ! 1 = (if formula_cell (s_user_id s) then CHR 0x27 # s_user_id s else s_user_id s)"
proof -
  obtain r t where "(case get_proctor_analytics pg (s_id s) d of
      Inl _ \<Rightarrow> (''LOW'', ''0'') | Inr a \<Rightarrow> (ps_risk_level a, int_string (ps_total_tab_switches a))) = (r, t)"
    by fastforce
  then show ?thesis
    by (simp add: export_row_def sanitize_not_formula) (simp add: sanitize_formula)
qed

section \<open>The file name\<close>

lemma encode_rune_high: "128 \<le> r \<Longrightarrow> b \<in> set (encode_rune r) \<Longrightarrow> 128 \<le> b"
  by (auto simp: encode_rune_def split: if_splits)

lemma encode_rune_byte: "b \<in> set (encode_rune r) \<Longrightarrow> b < 256"
  by (auto simp: encode_rune_def not_less div_less_iff_less_mult less_mult_imp_div_less split: if_splits)

definition filename_char :: "char \<Rightarrow> bool" where
  "filename_char c \<longleftrightarrow> 128 \<le> (of_char c :: nat)
     \<or> (65 \<le> (of_char c :: nat) \<and> of_char c \<le> (90 :: nat)) \<or> (97 \<le> (of_char c :: nat) \<and> of_char c \<le> (122 :: nat))
     \<or> (48 \<le> (of_char c :: nat) \<and> of_char c \<le> (57 :: nat)) \<or> c = CHR ''-'' \<or> c = CHR ''_''"

text \<open>
  The file name is safe.  The name in the \<open>Content-Disposition\<close> header is never empty and
  every ASCII byte of its variable part is a letter, a digit, a hyphen or an underscore, so a
  delivery identifier can add no quote, separator, control byte or header line.
\<close>
theorem safe_filename:
  shows "safe_filename_part U v \<noteq> [] \<and> list_all filename_char (safe_filename_part U v)"
proof -
  have "filename_char (char_of b)" if "b \<in> set (encode_rune (if is_filename_rune U r then r else 95))" for r b
  proof -
    have b: "b < 256" using encode_rune_byte [OF that] .
    then have o: "(of_char (char_of b :: char) :: nat) = b" by simp
    show ?thesis
    proof (cases "is_filename_rune U r \<and> 128 \<le> r")
      case True
      with that encode_rune_high [of r b] b show ?thesis by (simp add: filename_char_def)
    next
      case False
      then have "b = (if is_filename_rune U r then r else 95)" using that
        by (auto simp: encode_rune_def split: if_splits)
      with False b have "65 \<le> b \<and> b \<le> 90 \<or> 97 \<le> b \<and> b \<le> 122 \<or> 48 \<le> b \<and> b \<le> 57 \<or> b = 45 \<or> b = 95"
        by (auto simp: is_filename_rune_def split: if_splits)
      moreover have "char_of (45 :: nat) = CHR ''-''" "char_of (95 :: nat) = CHR ''_''"
        by (simp_all add: char_of_eq_iff)
      ultimately show ?thesis unfolding filename_char_def o by metis
    qed
  qed
  then have "list_all filename_char (bytes (concat (map (\<lambda>r. encode_rune (if is_filename_rune U r then r else 95)) (runes v))))"
    by (auto simp: list_all_iff bytes_def)
  moreover have "list_all filename_char ''unknown''" by (simp add: filename_char_def)
  ultimately show ?thesis by (simp add: safe_filename_part_def Let_def)
qed

end
