(* ===== verification/Outbound.thy ===== *)
theory Outbound
  imports GoTime
begin

text \<open>
  The outbound policy of \<open>internal/security/outbound.go\<close>, which keeps server-side requests away from
  internal addresses: the host allow list, the validation of URLs, the classification of IP
  addresses and the dialer of the HTTP client.  An IP is the list of its bytes (\<open>net.IP\<close>).  The
  functions \<open>url.Parse\<close>, \<open>URL.String\<close>, \<open>net.ParseIP\<close> and \<open>net.SplitHostPort\<close> and the resolver are the record \<open>net\<close>,
  an argument of the operations that call them: nothing is assumed of their results.
\<close>

section \<open>Addresses\<close>

datatype addr = V4 nat | V6 nat

text \<open>A prefix: its address and length.\<close>

type_synonym ip_prefix = "addr \<times> nat"

fun bytes_value :: "nat \<Rightarrow> nat list \<Rightarrow> nat" where
  "bytes_value v [] = v"
| "bytes_value v (b # bs) = bytes_value (v * 256 + b) bs"

definition addr_from_slice :: "nat list \<Rightarrow> addr option" where
  "addr_from_slice ip =
     (if length ip = 4 then Some (V4 (bytes_value 0 ip))
      else if length ip = 16 then Some (V6 (bytes_value 0 ip))
      else None)"

text \<open>\<open>Unmap\<close>: an IPv4-mapped IPv6 address (\<open>::ffff:0:0/96\<close>) becomes the IPv4 address.\<close>

fun unmap :: "addr \<Rightarrow> addr" where
  "unmap (V4 n) = V4 n"
| "unmap (V6 n) = (if n div 2 ^ 32 = 0xFFFF then V4 (n mod 2 ^ 32) else V6 n)"

fun prefix_contains :: "ip_prefix \<Rightarrow> addr \<Rightarrow> bool" where
  "prefix_contains (V4 p, len) (V4 a) = (a div 2 ^ (32 - len) = p div 2 ^ (32 - len))"
| "prefix_contains (V6 p, len) (V6 a) = (a div 2 ^ (128 - len) = p div 2 ^ (128 - len))"
| "prefix_contains _ _ = False"

definition v4 :: "nat \<Rightarrow> nat \<Rightarrow> nat \<Rightarrow> nat \<Rightarrow> addr" where
  "v4 a b c d = V4 (bytes_value 0 [a, b, c, d])"

text \<open>An IPv6 address by its first three groups of 16 bits and its last.\<close>

definition v6 :: "nat \<Rightarrow> nat \<Rightarrow> nat \<Rightarrow> nat \<Rightarrow> addr" where
  "v6 g1 g2 g3 g8 = V6 (g1 * 2 ^ 112 + g2 * 2 ^ 96 + g3 * 2 ^ 80 + g8)"

definition special_use_prefixes :: "ip_prefix list" where
  "special_use_prefixes =
     [(v4 0 0 0 0, 8), (v4 10 0 0 0, 8), (v4 100 64 0 0, 10), (v4 127 0 0 0, 8), (v4 169 254 0 0, 16),
      (v4 172 16 0 0, 12), (v4 192 0 0 0, 24), (v4 192 0 2 0, 24), (v4 192 168 0 0, 16), (v4 198 18 0 0, 15),
      (v4 198 51 100 0, 24), (v4 203 0 113 0, 24), (v4 224 0 0 0, 4), (v4 240 0 0 0, 4),
      (v6 0 0 0 0, 128), (v6 0 0 0 1, 128), (v6 0x64 0xFF9B 1 0, 48), (v6 0x100 0 0 0, 64),
      (v6 0x2001 0xDB8 0 0, 32), (v6 0xFC00 0 0 0, 7), (v6 0xFE80 0 0 0, 10), (v6 0xFF00 0 0 0, 8)]"

text \<open>\<open>netip.Addr.IsGlobalUnicast\<close>.\<close>

fun is_global_unicast :: "addr \<Rightarrow> bool" where
  "is_global_unicast (V4 a) \<longleftrightarrow>
     a \<noteq> 0 \<and> a \<noteq> 2 ^ 32 - 1 \<and> a div 2 ^ 24 \<noteq> 127 \<and> a div 2 ^ 28 \<noteq> 14 \<and> a div 2 ^ 16 \<noteq> 169 * 256 + 254"
| "is_global_unicast (V6 a) \<longleftrightarrow>
     a \<noteq> 0 \<and> a \<noteq> 1 \<and> a div 2 ^ 120 \<noteq> 0xFF \<and> a div 2 ^ 118 \<noteq> 0xFE80 div 64"

definition safe_public_ip :: "nat list \<Rightarrow> bool" where
  "safe_public_ip ip =
     (case addr_from_slice ip of
        None \<Rightarrow> False
      | Some a \<Rightarrow>
          \<not> list_ex (\<lambda>p. prefix_contains p (unmap a)) special_use_prefixes \<and> is_global_unicast (unmap a))"

section \<open>Hosts\<close>

record outbound_policy =
  allowed_hosts :: "string list"

definition new_outbound_policy :: "unicode_tables \<Rightarrow> string list \<Rightarrow> outbound_policy option" where
  "new_outbound_policy U hosts =
     (let normalized = filter (\<lambda>h. h \<noteq> []) (map (\<lambda>h. to_lower U (trim_suffix (trim_space h) ''.'')) hosts)
      in if normalized = [] then None else Some \<lparr>allowed_hosts = normalized\<rparr>)"

definition normal_host :: "unicode_tables \<Rightarrow> string \<Rightarrow> string" where
  "normal_host U h = to_lower U (trim_suffix h ''.'')"

definition host_matches :: "string \<Rightarrow> string \<Rightarrow> bool" where
  "host_matches allowed host =
     (if prefix ''*.'' allowed then
        (let suf = trim_prefix allowed ''*'' in suffix suf host \<and> host \<noteq> trim_prefix suf ''.'')
      else host = allowed)"

definition host_allowed :: "unicode_tables \<Rightarrow> outbound_policy \<Rightarrow> string \<Rightarrow> bool" where
  "host_allowed U p host = list_ex (\<lambda>a. host_matches a (normal_host U host)) (allowed_hosts p)"

section \<open>URLs and connections\<close>

record url =
  url_scheme :: string
  url_has_user :: bool
  url_host :: string
  url_hostname :: string
  url_path :: string
  url_raw_query :: string
  url_fragment :: string

record net =
  net_url_parse :: "string \<Rightarrow> url option"
  net_url_string :: "url \<Rightarrow> string"
  net_parse_ip :: "string \<Rightarrow> nat list option"
  net_lookup_ip :: "string \<Rightarrow> nat list list option"
  net_split_host_port :: "string \<Rightarrow> (string \<times> string) option"

datatype outbound_err =
    BadURL | URLHasUser | LocalHostName | HostNotAllowed | InternalIP | BadAddress | LookupFailed | NoPublicIP

definition local_name :: "string \<Rightarrow> bool" where
  "local_name h \<longleftrightarrow> h = ''localhost'' \<or> suffix ''.localhost'' h \<or> suffix ''.local'' h"

definition validate_url :: "unicode_tables \<Rightarrow> net \<Rightarrow> outbound_policy \<Rightarrow> string \<Rightarrow> outbound_err + url" where
  "validate_url U N p raw =
     (case net_url_parse N (trim_space raw) of
        None \<Rightarrow> Inl BadURL
      | Some u \<Rightarrow>
          if url_scheme u \<noteq> ''https'' \<or> url_hostname u = [] then Inl BadURL
          else if url_has_user u then Inl URLHasUser
          else
            let host = normal_host U (url_hostname u)
            in if local_name host then Inl LocalHostName
               else if \<not> host_allowed U p host then Inl HostNotAllowed
               else (case net_parse_ip N host of
                   None \<Rightarrow> Inr (u\<lparr>url_fragment := []\<rparr>)
                 | Some ip \<Rightarrow> if safe_public_ip ip then Inr (u\<lparr>url_fragment := []\<rparr>) else Inl InternalIP))"

definition resolve :: "net \<Rightarrow> string \<Rightarrow> outbound_err + nat list list" where
  "resolve N host =
     (case net_parse_ip N host of
        Some ip \<Rightarrow> Inr [ip]
      | None \<Rightarrow> (case net_lookup_ip N host of None \<Rightarrow> Inl LookupFailed | Some ips \<Rightarrow> Inr ips))"

text \<open>The transport's \<open>DialContext\<close>: the address and port it connects to.\<close>

definition dial_context ::
    "unicode_tables \<Rightarrow> net \<Rightarrow> outbound_policy \<Rightarrow> string \<Rightarrow> outbound_err + (nat list \<times> string)" where
  "dial_context U N p address =
     (case net_split_host_port N address of
        None \<Rightarrow> Inl BadAddress
      | Some (host, port) \<Rightarrow>
          if \<not> host_allowed U p host then Inl HostNotAllowed
          else bind_res (resolve N host) (\<lambda>ips.
            case find safe_public_ip ips of None \<Rightarrow> Inl NoPublicIP | Some ip \<Rightarrow> Inr (ip, port)))"

text \<open>\<open>CheckRedirect\<close>: a redirect is never followed.\<close>

definition follows_redirect :: bool where
  "follows_redirect = False"

section \<open>Which addresses are public\<close>

lemma bytes_value_4: "bytes_value 0 [a, b, c, d] = ((a * 256 + b) * 256 + c) * 256 + d"
  by simp

lemma value_div:
  assumes "b < 256" "c < 256" "d < 256"
  shows "(((a * 256 + b) * 256 + c) * 256 + d) div 2 ^ 24 = (a :: nat)"
    and "(((a * 256 + b) * 256 + c) * 256 + d) div 2 ^ 16 = a * 256 + b"
    and "(((a * 256 + b) * 256 + c) * 256 + d) div 2 ^ 8 = (a * 256 + b) * 256 + c"
  using assms by (simp_all add: algebra_simps)

text \<open>The bytes of an IPv4 address in the 16-byte form \<open>net.ParseIP\<close> returns.\<close>

definition mapped_ip :: "nat list \<Rightarrow> nat list" where
  "mapped_ip ip = [0, 0, 0, 0, 0, 0, 0, 0, 0, 0, 255, 255] @ ip"

lemma value_div_finer:
  assumes "b < 256" "c < 256" "d < 256"
  shows "(((a * 256 + b) * 256 + c) * 256 + d) div 2 ^ 28 = a div (16 :: nat)"
    and "(((a * 256 + b) * 256 + c) * 256 + d) div 2 ^ 22 = (a * 256 + b) div 64"
    and "(((a * 256 + b) * 256 + c) * 256 + d) div 2 ^ 20 = (a * 256 + b) div 16"
    and "(((a * 256 + b) * 256 + c) * 256 + d) div 2 ^ 17 = (a * 256 + b) div 2"
proof -
  have "n div 2 ^ 28 = n div 2 ^ 24 div 2 ^ 4" "n div 2 ^ 22 = n div 2 ^ 16 div 2 ^ 6"
    "n div 2 ^ 20 = n div 2 ^ 16 div 2 ^ 4" "n div 2 ^ 17 = n div 2 ^ 16 div 2 ^ 1" for n :: nat
    by (simp_all flip: div_mult2_eq)
  then show "(((a * 256 + b) * 256 + c) * 256 + d) div 2 ^ 28 = a div (16 :: nat)"
    and "(((a * 256 + b) * 256 + c) * 256 + d) div 2 ^ 22 = (a * 256 + b) div 64"
    and "(((a * 256 + b) * 256 + c) * 256 + d) div 2 ^ 20 = (a * 256 + b) div 16"
    and "(((a * 256 + b) * 256 + c) * 256 + d) div 2 ^ 17 = (a * 256 + b) div 2"
    using value_div [OF assms, of a] by simp_all
qed

text \<open>The octets of the addresses that are not public.\<close>

definition special_octets :: "nat \<Rightarrow> nat \<Rightarrow> nat \<Rightarrow> bool" where
  "special_octets a b c \<longleftrightarrow>
     a = 0 \<or> a = 10 \<or> (a = 100 \<and> 64 \<le> b \<and> b < 128) \<or> a = 127 \<or> (a = 169 \<and> b = 254)
     \<or> (a = 172 \<and> 16 \<le> b \<and> b < 32) \<or> (a = 192 \<and> b = 0 \<and> c = 0) \<or> (a = 192 \<and> b = 0 \<and> c = 2)
     \<or> (a = 192 \<and> b = 168) \<or> (a = 198 \<and> (b = 18 \<or> b = 19)) \<or> (a = 198 \<and> b = 51 \<and> c = 100)
     \<or> (a = 203 \<and> b = 0 \<and> c = 113) \<or> 224 \<le> a"

lemma div_eq_iff_range: "0 < k \<Longrightarrow> (x :: nat) div k = q \<longleftrightarrow> q * k \<le> x \<and> x < q * k + k"
  using div_nat_eqI [of k q x] dividend_less_div_times [of k x] div_times_less_eq_dividend [of x k]
  by (auto simp: mult.commute)

lemma octet_block:
  fixes a b :: nat
  assumes "b < 256" "hi \<le> 256"
  shows "x * 256 + lo \<le> a * 256 + b \<and> a * 256 + b < x * 256 + hi \<longleftrightarrow> a = x \<and> lo \<le> b \<and> b < hi"
proof (cases a x rule: linorder_cases)
  case less
  then have "(a + 1) * 256 \<le> x * 256" by (intro mult_right_mono) auto
  then show ?thesis using less assms by simp
next
  case equal
  then show ?thesis by simp
next
  case greater
  then have "(x + 1) * 256 \<le> a * 256" by (intro mult_right_mono) auto
  then show ?thesis using greater assms by simp
qed

lemma octet_ranges:
  fixes a b :: nat
  assumes "a < 256" "b < 256"
  shows "a div 16 = 14 \<or> a div 16 = 15 \<longleftrightarrow> 224 \<le> a"
    and "(a * 256 + b) div 64 = 401 \<longleftrightarrow> a = 100 \<and> 64 \<le> b \<and> b < 128"
    and "a * 256 + b = 43518 \<longleftrightarrow> a = 169 \<and> b = 254"
    and "(a * 256 + b) div 16 = 2753 \<longleftrightarrow> a = 172 \<and> 16 \<le> b \<and> b < 32"
    and "a * 256 + b = 49320 \<longleftrightarrow> a = 192 \<and> b = 168"
    and "(a * 256 + b) div 2 = 25353 \<longleftrightarrow> a = 198 \<and> (b = 18 \<or> b = 19)"
proof -
  show "a div 16 = 14 \<or> a div 16 = 15 \<longleftrightarrow> 224 \<le> a" using assms(1) by (auto simp: div_eq_iff_range)
  show "(a * 256 + b) div 64 = 401 \<longleftrightarrow> a = 100 \<and> 64 \<le> b \<and> b < 128"
    using octet_block [OF assms(2), of 128 100 64 a] by (simp add: div_eq_iff_range)
  show "a * 256 + b = 43518 \<longleftrightarrow> a = 169 \<and> b = 254"
    using octet_block [OF assms(2), of 255 169 254 a] by auto
  show "(a * 256 + b) div 16 = 2753 \<longleftrightarrow> a = 172 \<and> 16 \<le> b \<and> b < 32"
    using octet_block [OF assms(2), of 32 172 16 a] by (simp add: div_eq_iff_range)
  show "a * 256 + b = 49320 \<longleftrightarrow> a = 192 \<and> b = 168"
    using octet_block [OF assms(2), of 169 192 168 a] by auto
  show "(a * 256 + b) div 2 = 25353 \<longleftrightarrow> a = 198 \<and> (b = 18 \<or> b = 19)"
    using octet_block [OF assms(2), of 20 198 18 a] by (simp add: div_eq_iff_range) auto
qed

lemma three_octets:
  fixes a b c :: nat
  assumes "b < 256" "c < 256" "y < 256" "z < 256"
  shows "(a * 256 + b) * 256 + c = (x * 256 + y) * 256 + z \<longleftrightarrow> a = x \<and> b = y \<and> c = z"
proof
  assume h: "(a * 256 + b) * 256 + c = (x * 256 + y) * 256 + z"
  then have "((a * 256 + b) * 256 + c) mod 256 = ((x * 256 + y) * 256 + z) mod 256" by simp
  then have "c mod 256 = z mod 256" unfolding mod_mult_self3 .
  then have c: "c = z" using assms by simp
  with h have "a * 256 + b = x * 256 + y" by simp
  then have "(a * 256 + b) mod 256 = (x * 256 + y) mod 256" and e: "a * 256 + b = x * 256 + y" by simp_all
  then have "b mod 256 = y mod 256" unfolding mod_mult_self3 by simp
  with c e assms show "a = x \<and> b = y \<and> c = z" by simp
qed simp

lemma three_octet_cases:
  fixes a b c :: nat
  assumes "b < 256" "c < 256"
  shows "(a * 256 + b) * 256 + c = 12582912 \<longleftrightarrow> a = 192 \<and> b = 0 \<and> c = 0"
    and "(a * 256 + b) * 256 + c = 12582914 \<longleftrightarrow> a = 192 \<and> b = 0 \<and> c = 2"
    and "(a * 256 + b) * 256 + c = 12989284 \<longleftrightarrow> a = 198 \<and> b = 51 \<and> c = 100"
    and "(a * 256 + b) * 256 + c = 13303921 \<longleftrightarrow> a = 203 \<and> b = 0 \<and> c = 113"
proof -
  have eq: "12582912 = (192 * 256 + 0) * 256 + (0 :: nat)" "12582914 = (192 * 256 + 0) * 256 + (2 :: nat)"
    "12989284 = (198 * 256 + 51) * 256 + (100 :: nat)" "13303921 = (203 * 256 + 0) * 256 + (113 :: nat)"
    by simp_all
  have small: "(0 :: nat) < 256" "(2 :: nat) < 256" "(51 :: nat) < 256" "(100 :: nat) < 256" "(113 :: nat) < 256"
    by simp_all
  show "(a * 256 + b) * 256 + c = 12582912 \<longleftrightarrow> a = 192 \<and> b = 0 \<and> c = 0"
    unfolding eq(1) by (rule three_octets [OF assms small(1,1)])
  show "(a * 256 + b) * 256 + c = 12582914 \<longleftrightarrow> a = 192 \<and> b = 0 \<and> c = 2"
    unfolding eq(2) by (rule three_octets [OF assms small(1,2)])
  show "(a * 256 + b) * 256 + c = 12989284 \<longleftrightarrow> a = 198 \<and> b = 51 \<and> c = 100"
    unfolding eq(3) by (rule three_octets [OF assms small(3,4)])
  show "(a * 256 + b) * 256 + c = 13303921 \<longleftrightarrow> a = 203 \<and> b = 0 \<and> c = 113"
    unfolding eq(4) by (rule three_octets [OF assms small(1,5)])
qed

lemma safe_v4:
  assumes "a < 256" "b < 256" "c < 256" "d < 256"
  shows "\<not> list_ex (\<lambda>p. prefix_contains p (v4 a b c d)) special_use_prefixes \<and> is_global_unicast (v4 a b c d)
    \<longleftrightarrow> \<not> special_octets a b c"
proof -
  let ?n = "((a * 256 + b) * 256 + c) * 256 + d"
  note dv = value_div [OF assms(2-4), of a] value_div_finer [OF assms(2-4), of a]
  have pc: "prefix_contains (v4 x y z w, k) (v4 a b c d) \<longleftrightarrow> ?n div 2 ^ (32 - k) = bytes_value 0 [x, y, z, w] div 2 ^ (32 - k)"
    for x y z w k by (simp only: v4_def prefix_contains.simps bytes_value_4)
  have pc6: "prefix_contains (v6 x y z w, k) (v4 a b c d) \<longleftrightarrow> False" for x y z w k by (simp add: v4_def v6_def)
  have len: "(32 :: nat) - 8 = 24" "(32 :: nat) - 10 = 22" "(32 :: nat) - 16 = 16" "(32 :: nat) - 12 = 20"
    "(32 :: nat) - 24 = 8" "(32 :: nat) - 15 = 17" "(32 :: nat) - 4 = 28" by simp_all
  have const: "bytes_value 0 [0, 0, 0, 0] div 2 ^ 24 = 0" "bytes_value 0 [10, 0, 0, 0] div 2 ^ 24 = 10"
    "bytes_value 0 [100, 64, 0, 0] div 2 ^ 22 = 401" "bytes_value 0 [127, 0, 0, 0] div 2 ^ 24 = 127"
    "bytes_value 0 [169, 254, 0, 0] div 2 ^ 16 = 43518" "bytes_value 0 [172, 16, 0, 0] div 2 ^ 20 = 2753"
    "bytes_value 0 [192, 0, 0, 0] div 2 ^ 8 = 12582912" "bytes_value 0 [192, 0, 2, 0] div 2 ^ 8 = 12582914"
    "bytes_value 0 [192, 168, 0, 0] div 2 ^ 16 = 49320" "bytes_value 0 [198, 18, 0, 0] div 2 ^ 17 = 25353"
    "bytes_value 0 [198, 51, 100, 0] div 2 ^ 8 = 12989284" "bytes_value 0 [203, 0, 113, 0] div 2 ^ 8 = 13303921"
    "bytes_value 0 [224, 0, 0, 0] div 2 ^ 28 = 14" "bytes_value 0 [240, 0, 0, 0] div 2 ^ 28 = 15"
    by simp_all
  have l: "list_ex (\<lambda>p. prefix_contains p (v4 a b c d)) special_use_prefixes \<longleftrightarrow>
      a = 0 \<or> a = 10 \<or> (a * 256 + b) div 64 = 401 \<or> a = 127 \<or> a * 256 + b = 43518 \<or> (a * 256 + b) div 16 = 2753
      \<or> (a * 256 + b) * 256 + c = 12582912 \<or> (a * 256 + b) * 256 + c = 12582914 \<or> a * 256 + b = 49320
      \<or> (a * 256 + b) div 2 = 25353 \<or> (a * 256 + b) * 256 + c = 12989284 \<or> (a * 256 + b) * 256 + c = 13303921
      \<or> a div 16 = 14 \<or> a div 16 = 15"
    unfolding special_use_prefixes_def list_ex_Cons_iff list_ex_Nil_iff pc pc6 len dv
    by (simp only: const) blast
  have n0: "?n = 0 \<Longrightarrow> a = 0" by simp
  have n1: "a div 16 = 15" if "?n = 2 ^ 32 - 1"
  proof -
    have "?n div 2 ^ 28 = 15" unfolding that by simp
    then show ?thesis unfolding dv(4) .
  qed
  have c169: "169 * 256 + 254 = (43518 :: nat)" by simp
  have g: "\<not> is_global_unicast (v4 a b c d) \<Longrightarrow>
      a = 0 \<or> a div 16 = 15 \<or> a = 127 \<or> a div 16 = 14 \<or> a * 256 + b = 43518"
    unfolding v4_def bytes_value_4 is_global_unicast.simps dv c169 using n0 n1 by blast
  note oct = octet_ranges [OF assms(1,2)]
  have sp: "list_ex (\<lambda>p. prefix_contains p (v4 a b c d)) special_use_prefixes \<longleftrightarrow> special_octets a b c"
    unfolding l special_octets_def oct three_octet_cases [OF assms(2,3)] by (rule refl)
  have "special_octets a b c" if "\<not> is_global_unicast (v4 a b c d)"
    using g [OF that]
  proof (elim disjE)
    assume "a * 256 + b = 43518"
    then have "a = 169 \<and> b = 254" unfolding oct(3) .
    then show ?thesis by (simp add: special_octets_def)
  qed (use oct(1) in \<open>simp_all add: special_octets_def\<close>)
  with sp show ?thesis by blast
qed

lemma bytes_value_bound:
  "\<forall>x \<in> set bs. x < 256 \<Longrightarrow> bytes_value v bs < (v + 1) * 256 ^ length bs"
proof (induction bs arbitrary: v)
  case Nil
  then show ?case by simp
next
  case (Cons b bs)
  then have "bytes_value (v * 256 + b) bs < (v * 256 + b + 1) * 256 ^ length bs" by simp
  also have "\<dots> \<le> ((v + 1) * 256) * 256 ^ length bs" using Cons.prems by (intro mult_right_mono) auto
  finally show ?case by (simp add: algebra_simps)
qed

lemma unmap_mapped:
  assumes "a < 256" "b < 256" "c < 256" "d < 256"
  shows "addr_from_slice (mapped_ip [a, b, c, d]) = Some (V6 (0xFFFF * 2 ^ 32 + bytes_value 0 [a, b, c, d]))"
    and "unmap (V6 (0xFFFF * 2 ^ 32 + bytes_value 0 [a, b, c, d])) = v4 a b c d"
proof -
  show "addr_from_slice (mapped_ip [a, b, c, d]) = Some (V6 (0xFFFF * 2 ^ 32 + bytes_value 0 [a, b, c, d]))"
    by (simp add: addr_from_slice_def mapped_ip_def)
  have "bytes_value 0 [a, b, c, d] < 2 ^ 32"
    using bytes_value_bound [of "[a, b, c, d]" 0] assms by simp
  then have "(0xFFFF * 2 ^ 32 + bytes_value 0 [a, b, c, d]) div 2 ^ 32 = 0xFFFF"
    and "(0xFFFF * 2 ^ 32 + bytes_value 0 [a, b, c, d]) mod 2 ^ 32 = bytes_value 0 [a, b, c, d]"
    using div_mult_self3 [of "2 ^ 32" "0xFFFF" "bytes_value 0 [a, b, c, d]"]
      mod_mult_self3 [of "0xFFFF" "2 ^ 32" "bytes_value 0 [a, b, c, d]"]
    by (simp_all only: div_less mod_less)
  then show "unmap (V6 (0xFFFF * 2 ^ 32 + bytes_value 0 [a, b, c, d])) = v4 a b c d"
    by (simp only: unmap.simps v4_def if_True refl)
qed

text \<open>
  The classification of IPv4 addresses.  An address of four octets counts as public exactly
  when it is outside the special-purpose blocks (this network, private, shared, loopback, link-local,
  protocol assignments, documentation, benchmarking, multicast, reserved and broadcast), and the
  IPv4-mapped IPv6 form \<open>net.ParseIP\<close> returns is classified alike, so the mapping is no bypass.
\<close>
theorem public_ipv4_classification:
  assumes "a < 256" and "b < 256" and "c < 256" and "d < 256"
  shows "(safe_public_ip [a, b, c, d] \<longleftrightarrow> \<not> special_octets a b c)
    \<and> (safe_public_ip (mapped_ip [a, b, c, d]) \<longleftrightarrow> \<not> special_octets a b c)"
proof -
  have "addr_from_slice [a, b, c, d] = Some (v4 a b c d)" "unmap (v4 a b c d) = v4 a b c d"
    by (simp_all add: addr_from_slice_def v4_def)
  with safe_v4 [OF assms] unmap_mapped [OF assms] show ?thesis
    unfolding safe_public_ip_def by (simp only: option.case)
qed

section \<open>Who can be reached\<close>

lemma host_matches_iff:
  "host_matches allowed host \<longleftrightarrow>
     (if \<exists>dom. allowed = ''*.'' @ dom then \<exists>dom lab. allowed = ''*.'' @ dom \<and> host = lab @ ''.'' @ dom
      else host = allowed)"
proof (cases "prefix ''*.'' allowed")
  case True
  then obtain dom where a: "allowed = ''*.'' @ dom" by (auto simp: prefix_def)
  then have "host_matches allowed host \<longleftrightarrow> suffix (''.'' @ dom) host \<and> host \<noteq> dom"
    by (simp add: host_matches_def trim_prefix_def)
  also have "\<dots> \<longleftrightarrow> (\<exists>lab. host = lab @ ''.'' @ dom)" by (auto simp: suffix_def)
  finally show ?thesis using a by auto
next
  case False
  then show ?thesis by (auto simp: host_matches_def prefix_def)
qed

text \<open>
  A URL the policy accepts is HTTPS, carries no user information and no fragment, and its
  host is not a local name, is on the allow list (the same name, or a subdomain of a wildcard
  entry) and, when it is an IP address, a public one.
\<close>
theorem validated_url_safe:
  assumes "validate_url U N p raw = Inr u"
  shows "url_scheme u = ''https'' \<and> \<not> url_has_user u \<and> url_fragment u = []
    \<and> \<not> local_name (normal_host U (url_hostname u))
    \<and> list_ex (\<lambda>a. if \<exists>dom. a = ''*.'' @ dom
         then \<exists>dom lab. a = ''*.'' @ dom \<and> normal_host U (normal_host U (url_hostname u)) = lab @ ''.'' @ dom
         else normal_host U (normal_host U (url_hostname u)) = a) (allowed_hosts p)
    \<and> (case net_parse_ip N (normal_host U (url_hostname u)) of None \<Rightarrow> True | Some ip \<Rightarrow> safe_public_ip ip)"
proof -
  have "url_scheme u = ''https'' \<and> \<not> url_has_user u \<and> url_fragment u = []
    \<and> \<not> local_name (normal_host U (url_hostname u)) \<and> host_allowed U p (normal_host U (url_hostname u))
    \<and> (case net_parse_ip N (normal_host U (url_hostname u)) of None \<Rightarrow> True | Some ip \<Rightarrow> safe_public_ip ip)"
    using assms by (auto simp: validate_url_def Let_def split: option.splits if_splits)
  then show ?thesis unfolding host_allowed_def host_matches_iff by blast
qed

text \<open>
  Claim C31: no connection to an internal address.  Whatever the resolver answers, and however its
  answers change between the validation of a URL and the connection, the HTTP client only ever
  connects to a public address it resolved for a host on the allow list, and otherwise fails.
\<close>
theorem dial_only_public:
  shows "case dial_context U N p address of
      Inl e \<Rightarrow> e \<in> {BadAddress, HostNotAllowed, LookupFailed, NoPublicIP}
    | Inr (ip, port) \<Rightarrow> safe_public_ip ip \<and> (\<exists>host. net_split_host_port N address = Some (host, port)
        \<and> host_allowed U p host
        \<and> (net_parse_ip N host = Some ip \<or> (\<exists>ips. net_lookup_ip N host = Some ips \<and> ip \<in> set ips)))"
  by (auto simp: dial_context_def resolve_def split: option.splits sum.splits dest: find_SomeD)

text \<open>
  The list has no entry for the NAT64 prefix \<open>64:ff9b::/96\<close>: the translated form of the cloud
  metadata address 169.254.169.254 counts as public.
\<close>

lemma nat64_counts_as_public:
  "safe_public_ip [0x00, 0x64, 0xFF, 0x9B, 0, 0, 0, 0, 0, 0, 0, 0, 169, 254, 169, 254]"
  by (simp add: safe_public_ip_def addr_from_slice_def special_use_prefixes_def v4_def v6_def)

section \<open>A policy at work\<close>

definition sample_net :: net where
  "sample_net =
     \<lparr>net_url_parse = (\<lambda>s. if s = ''https://hooks.example.com/a#x''
        then Some \<lparr>url_scheme = ''https'', url_has_user = False, url_host = ''hooks.example.com'', url_hostname = ''hooks.example.com'',
          url_path = ''/a'', url_raw_query = [], url_fragment = ''x''\<rparr> else None),
      net_url_string = (\<lambda>u. url_scheme u @ ''://'' @ url_host u @ url_path u),
      net_parse_ip = (\<lambda>_. None),
      net_lookup_ip = (\<lambda>_. Some [[10, 0, 0, 1], [93, 184, 216, 34]]),
      net_split_host_port = (\<lambda>_. Some (''hooks.example.com'', ''443''))\<rparr>"

lemma public_ipv4_classification_witness:
  "safe_public_ip [93, 184, 216, 34] \<and> \<not> safe_public_ip (mapped_ip [192, 168, 1, 1])"
proof -
  have "safe_public_ip [93, 184, 216, 34]"
    using public_ipv4_classification [of 93 184 216 34] unfolding special_octets_def by simp
  moreover have "\<not> safe_public_ip (mapped_ip [192, 168, 1, 1])"
    using public_ipv4_classification [of 192 168 1 1] unfolding special_octets_def by simp
  ultimately show ?thesis ..
qed

lemma sample_normal_host: "normal_host ascii_unicode ''hooks.example.com'' = ''hooks.example.com''"
  by (simp add: normal_host_def go_simps)

lemma validated_url_safe_witness:
  "\<exists>u. validate_url ascii_unicode sample_net \<lparr>allowed_hosts = [''*.example.com'']\<rparr> ''https://hooks.example.com/a#x'' = Inr u
    \<and> url_fragment u = []"
proof -
  have "host_matches ''*.example.com'' ''hooks.example.com''"
    by (simp add: host_matches_def go_simps)
  then have "\<exists>u. validate_url ascii_unicode sample_net \<lparr>allowed_hosts = [''*.example.com'']\<rparr> ''https://hooks.example.com/a#x'' = Inr u"
    by (simp add: validate_url_def sample_net_def sample_normal_host local_name_def host_allowed_def go_simps Let_def)
  then show ?thesis using validated_url_safe by blast
qed

end
