(* ===== verification/SecretCipher.thy ===== *)
theory SecretCipher
  imports GoStrings
begin

text \<open>
  The encryption of stored secrets in \<open>internal/security/secret_cipher.go\<close>: the key in standard
  base64, sealing with a random nonce, and the textual form \<open>enc:v1:\<close> followed by nonce and
  ciphertext in unpadded URL-safe base64.  Both base64 encodings are modelled byte by byte.  AES-GCM
  is the record \<open>aead\<close> that a key yields; the random source delivers the nonce or fails.
\<close>

section \<open>Base64\<close>

text \<open>The alphabets differ in the characters for 62 and 63.\<close>

definition sextet_char :: "char \<Rightarrow> char \<Rightarrow> nat \<Rightarrow> char" where
  "sextet_char c62 c63 n =
     (if n < 26 then char_of (65 + n)
      else if n < 52 then char_of (71 + n)
      else if n < 62 then char_of (n - 4)
      else if n = 62 then c62 else c63)"

definition char_sextet :: "char \<Rightarrow> char \<Rightarrow> char \<Rightarrow> nat option" where
  "char_sextet c62 c63 c =
     (let n = of_char c :: nat
      in if c = c62 then Some 62
         else if c = c63 then Some 63
         else if 65 \<le> n \<and> n \<le> 90 then Some (n - 65)
         else if 97 \<le> n \<and> n \<le> 122 then Some (n - 71)
         else if 48 \<le> n \<and> n \<le> 57 then Some (n + 4)
         else None)"

definition url_char :: "nat \<Rightarrow> char" where
  "url_char = sextet_char CHR ''-'' CHR ''_''"

definition url_sextet :: "char \<Rightarrow> nat option" where
  "url_sextet = char_sextet CHR ''-'' CHR ''_''"

definition std_sextet :: "char \<Rightarrow> nat option" where
  "std_sextet = char_sextet CHR ''+'' CHR ''/''"

text \<open>\<open>RawURLEncoding.EncodeToString\<close> of bytes.\<close>

fun raw_url_encode :: "nat list \<Rightarrow> string" where
  "raw_url_encode [] = []"
| "raw_url_encode [a] = [url_char (a div 4), url_char (a mod 4 * 16)]"
| "raw_url_encode [a, b] = [url_char (a div 4), url_char (a mod 4 * 16 + b div 16), url_char (b mod 16 * 4)]"
| "raw_url_encode (a # b # c # bs) =
     url_char (a div 4) # url_char (a mod 4 * 16 + b div 16) # url_char (b mod 16 * 4 + c div 64)
     # url_char (c mod 64) # raw_url_encode bs"

text \<open>Decoding skips line breaks and does not check the unused bits of the last character.\<close>

definition drop_newlines :: "string \<Rightarrow> string" where
  "drop_newlines s = filter (\<lambda>c. c \<noteq> CHR 0x0A \<and> c \<noteq> CHR 0x0D) s"

fun decode_sextets :: "nat list \<Rightarrow> nat list option" where
  "decode_sextets [] = Some []"
| "decode_sextets [_] = None"
| "decode_sextets [p, q] = Some [p * 4 + q div 16]"
| "decode_sextets [p, q, r] = Some [p * 4 + q div 16, q mod 16 * 16 + r div 4]"
| "decode_sextets (p # q # r # t # xs) =
     map_option (\<lambda>bs. (p * 4 + q div 16) # (q mod 16 * 16 + r div 4) # (r mod 4 * 64 + t) # bs) (decode_sextets xs)"

fun sextets :: "(char \<Rightarrow> nat option) \<Rightarrow> string \<Rightarrow> nat list option" where
  "sextets f [] = Some []"
| "sextets f (c # cs) =
     (case f c of None \<Rightarrow> None | Some n \<Rightarrow> map_option (\<lambda>ns. n # ns) (sextets f cs))"

definition raw_url_decode :: "string \<Rightarrow> nat list option" where
  "raw_url_decode s = Option.bind (sextets url_sextet (drop_newlines s)) decode_sextets"

text \<open>\<open>StdEncoding.DecodeString\<close>: groups of four, the last one padded with \<open>=\<close>.\<close>

definition strip_padding :: "string \<Rightarrow> string option" where
  "strip_padding s =
     (if length s mod 4 \<noteq> 0 then None
      else if suffix ''=='' s then Some (take (length s - 2) s)
      else if suffix ''='' s then Some (take (length s - 1) s)
      else Some s)"

definition std_decode :: "string \<Rightarrow> nat list option" where
  "std_decode s =
     Option.bind (strip_padding (drop_newlines s)) (\<lambda>t. Option.bind (sextets std_sextet t) decode_sextets)"

section \<open>The cipher\<close>

record aead =
  nonce_size :: nat
  seal :: "nat list \<Rightarrow> nat list \<Rightarrow> nat list"
  open_sealed :: "nat list \<Rightarrow> nat list \<Rightarrow> nat list option"

datatype cipher_err =
    BadKeyEncoding | BadKeyLength | NoCipher | NoRandomness | NotEncrypted | BadFormat | BadLength | NotAuthentic

definition encrypted_prefix :: string where
  "encrypted_prefix = ''enc:v1:''"

definition new_secret_cipher :: "(nat list \<Rightarrow> aead option) \<Rightarrow> string \<Rightarrow> cipher_err + aead" where
  "new_secret_cipher gcm encoded_key =
     (case std_decode (trim_space encoded_key) of
        None \<Rightarrow> Inl BadKeyEncoding
      | Some key \<Rightarrow>
          if length key \<noteq> 32 then Inl BadKeyLength
          else (case gcm key of None \<Rightarrow> Inl NoCipher | Some a \<Rightarrow> Inr a))"

definition string_bytes :: "string \<Rightarrow> nat list" where
  "string_bytes s = map of_char s"

text \<open>\<open>rnd n\<close> are the next \<open>n\<close> random bytes; a nil cipher is \<open>None\<close>.\<close>

definition encrypt :: "aead option \<Rightarrow> (nat \<Rightarrow> nat list option) \<Rightarrow> string \<Rightarrow> cipher_err + string" where
  "encrypt ca rnd plaintext =
     (case ca of
        None \<Rightarrow> Inl NoCipher
      | Some a \<Rightarrow>
          (case rnd (nonce_size a) of
             None \<Rightarrow> Inl NoRandomness
           | Some nonce \<Rightarrow>
               Inr (encrypted_prefix @ raw_url_encode (nonce @ seal a nonce (string_bytes plaintext)))))"

definition decrypt :: "aead option \<Rightarrow> string \<Rightarrow> cipher_err + string" where
  "decrypt ca ciphertext =
     (case ca of
        None \<Rightarrow> Inl NoCipher
      | Some a \<Rightarrow>
          if \<not> prefix encrypted_prefix ciphertext then Inl NotEncrypted
          else (case raw_url_decode (trim_prefix ciphertext encrypted_prefix) of
              None \<Rightarrow> Inl BadFormat
            | Some payload \<Rightarrow>
                if length payload < nonce_size a then Inl BadLength
                else (case open_sealed a (take (nonce_size a) payload) (drop (nonce_size a) payload) of
                    None \<Rightarrow> Inl NotAuthentic
                  | Some plain \<Rightarrow> Inr (bytes plain))))"

section \<open>Base64 round trip\<close>

lemma of_char_char_of_small: "n < 256 \<Longrightarrow> (of_char (char_of n :: char) :: nat) = n"
  by simp

lemma url_sextet_char: "n < 64 \<Longrightarrow> url_sextet (url_char n) = Some n"
proof -
  assume n: "n < 64"
  have c: "(of_char CHR ''-'' :: nat) = 45" "(of_char CHR ''_'' :: nat) = 95" by simp_all
  have ne: "char_of k \<noteq> CHR ''-'' \<and> char_of k \<noteq> CHR ''_''" if "k < 256" "k \<noteq> 45" "k \<noteq> 95" for k :: nat
    using of_char_char_of_small [OF that(1)] that c by metis
  consider "n < 26" | "26 \<le> n" "n < 52" | "52 \<le> n" "n < 62" | "n = 62" | "n = 63" using n by linarith
  then show ?thesis
  proof cases
    case 1
    then show ?thesis using ne [of "65 + n"]
      by (simp add: url_sextet_def url_char_def sextet_char_def char_sextet_def Let_def)
  next
    case 2
    then show ?thesis using ne [of "71 + n"]
      by (simp add: url_sextet_def url_char_def sextet_char_def char_sextet_def Let_def)
  next
    case 3
    then have "48 \<le> n - 4" "n - 4 \<le> 57" by linarith+
    with 3 show ?thesis using ne [of "n - 4"]
      by (simp add: url_sextet_def url_char_def sextet_char_def char_sextet_def Let_def)
  qed (simp_all add: url_sextet_def url_char_def sextet_char_def char_sextet_def Let_def)
qed

lemma url_char_not_newline: "n < 64 \<Longrightarrow> url_char n \<noteq> CHR 0x0A \<and> url_char n \<noteq> CHR 0x0D"
proof -
  assume "n < 64"
  then have "url_sextet (url_char n) \<noteq> None" by (simp add: url_sextet_char)
  then show ?thesis by (auto simp: url_sextet_def char_sextet_def Let_def)
qed

lemma drop_newlines_url [simp]:
  "n < 64 \<Longrightarrow> drop_newlines (url_char n # s) = url_char n # drop_newlines s"
  using url_char_not_newline [of n] by (simp add: drop_newlines_def)

lemma byte_split:
  "b < 256 \<Longrightarrow> b div 16 mod 16 = b div (16 :: nat)" "b < 256 \<Longrightarrow> b div 64 mod 4 = b div (64 :: nat)"
  "b < 256 \<Longrightarrow> b div 16 div 16 = (0 :: nat)" "b < 256 \<Longrightarrow> b div 64 div 4 = (0 :: nat)"
  by auto

lemma raw_url_round_trip:
  "\<forall>b \<in> set bs. b < 256 \<Longrightarrow> raw_url_decode (raw_url_encode bs) = Some bs"
proof -
  have "\<forall>b \<in> set bs. b < 256 \<Longrightarrow>
      \<exists>ns. sextets url_sextet (drop_newlines (raw_url_encode bs)) = Some ns \<and> decode_sextets ns = Some bs"
  proof (induction bs rule: raw_url_encode.induct)
    case 1
    then show ?case by (simp add: drop_newlines_def)
  next
    case (2 a)
    then have "a div 4 < 64" "a mod 4 * 16 < 64" by auto
    then show ?case by (simp add: drop_newlines_def [of "[]"] url_sextet_char)
  next
    case (3 a b)
    then have "a div 4 < 64" "a mod 4 * 16 + b div 16 < 64" "b mod 16 * 4 < 64" by auto
    then show ?case using 3 by (simp add: drop_newlines_def [of "[]"] url_sextet_char byte_split)
  next
    case (4 a b c bs)
    then obtain ns where ns: "sextets url_sextet (drop_newlines (raw_url_encode bs)) = Some ns"
      "decode_sextets ns = Some bs" by auto
    have "a div 4 < 64" "a mod 4 * 16 + b div 16 < 64" "b mod 16 * 4 + c div 64 < 64" "c mod 64 < 64"
      using 4(2) by auto
    then show ?case using 4(2) by (simp add: url_sextet_char ns byte_split)
  qed
  then show "\<forall>b \<in> set bs. b < 256 \<Longrightarrow> raw_url_decode (raw_url_encode bs) = Some bs"
    by (auto simp: raw_url_decode_def)
qed

section \<open>Secrets come back\<close>

lemma bytes_string_bytes: "bytes (string_bytes s) = s"
  by (induction s) (simp_all add: bytes_def string_bytes_def)

text \<open>The documented behaviour of an AEAD: opening with the nonce of sealing gives the plaintext back.\<close>

definition opens_sealed :: "aead \<Rightarrow> bool" where
  "opens_sealed a \<longleftrightarrow>
     (\<forall>nonce plain. length nonce = nonce_size a \<and> list_all (\<lambda>b. b < 256) plain \<longrightarrow>
        open_sealed a nonce (seal a nonce plain) = Some plain \<and> (\<forall>b \<in> set (seal a nonce plain). b < 256))"

lemma secret_comes_back:
  assumes "opens_sealed a" and "rnd (nonce_size a) = Some nonce" and "length nonce = nonce_size a"
    and "list_all (\<lambda>b. b < 256) nonce" and "encrypt (Some a) rnd plaintext = Inr stored"
  shows "prefix ''enc:v1:'' stored \<and> decrypt (Some a) stored = Inr plaintext"
proof -
  let ?payload = "nonce @ seal a nonce (string_bytes plaintext)"
  have stored: "stored = encrypted_prefix @ raw_url_encode ?payload"
    using assms(2,5) by (simp add: encrypt_def)
  have "(of_char c :: nat) < 256" for c :: char
    using of_char_mod_256 [of c, where 'a = nat] mod_less_divisor [of 256 "of_char c"] by linarith
  then have "list_all (\<lambda>b. b < 256) (string_bytes plaintext)" by (simp add: string_bytes_def list_all_iff)
  with assms(1,3) have "open_sealed a nonce (seal a nonce (string_bytes plaintext)) = Some (string_bytes plaintext)
      \<and> (\<forall>b \<in> set (seal a nonce (string_bytes plaintext)). b < 256)"
    unfolding opens_sealed_def by blast
  then have o: "open_sealed a nonce (seal a nonce (string_bytes plaintext)) = Some (string_bytes plaintext)"
    and "\<forall>b \<in> set (seal a nonce (string_bytes plaintext)). b < 256" by blast+
  with assms(4) have small: "\<forall>b \<in> set ?payload. b < 256" unfolding list_all_iff set_append by blast
  have "trim_prefix stored encrypted_prefix = raw_url_encode ?payload"
    by (simp add: trim_prefix_def stored)
  then have "raw_url_decode (trim_prefix stored encrypted_prefix) = Some ?payload"
    using raw_url_round_trip [OF small] by simp
  then have "decrypt (Some a) stored = Inr plaintext"
    using assms(3) o by (simp add: decrypt_def stored bytes_string_bytes)
  then show ?thesis by (simp add: stored encrypted_prefix_def)
qed

text \<open>
  What the webhook and LTI services rely on when they keep a secret: what was stored is not the secret
  in the clear, and reading it gives the secret back.
\<close>

locale secret_store =
  fixes put :: "'r \<Rightarrow> string \<Rightarrow> 'e + string" and get :: "string \<Rightarrow> 'e + string" and sound :: "'r \<Rightarrow> bool"
  assumes get_put: "sound r \<Longrightarrow> put r secret = Inr stored \<Longrightarrow> get stored = Inr secret"
    and put_prefix: "put r secret = Inr stored \<Longrightarrow> prefix ''enc:v1:'' stored"
begin

lemma put_inj: "sound r \<Longrightarrow> sound r' \<Longrightarrow> put r a = Inr stored \<Longrightarrow> put r' b = Inr stored \<Longrightarrow> a = b"
  using get_put [of r a stored] get_put [of r' b stored] by simp

lemma used_as_given:
  "sound r \<Longrightarrow> put r secret = Inr stored \<Longrightarrow> (case get stored of Inl e \<Rightarrow> f e | Inr x \<Rightarrow> h x) = h secret"
  by (simp add: get_put)

lemma not_in_clear: "put r secret = Inr stored \<Longrightarrow> \<not> prefix ''enc:v1:'' secret \<Longrightarrow> stored \<noteq> secret"
  using put_prefix by blast

end

text \<open>Randomness that fits an AEAD which opens what it sealed.\<close>

definition sound_nonce :: "aead \<Rightarrow> (nat \<Rightarrow> nat list option) \<Rightarrow> bool" where
  "sound_nonce a rnd \<longleftrightarrow> opens_sealed a
     \<and> (case rnd (nonce_size a) of None \<Rightarrow> False | Some nonce \<Rightarrow> length nonce = nonce_size a \<and> list_all (\<lambda>b. b < 256) nonce)"

interpretation cipher: secret_store "encrypt (Some a)" "decrypt (Some a)" "sound_nonce a" for a
proof (unfold_locales, goal_cases)
  case (1 rnd secret stored)
  then show ?case using secret_comes_back [of a rnd _ secret stored]
    by (auto simp: sound_nonce_def split: option.splits)
next
  case (2 rnd secret stored)
  then show ?case by (auto simp: encrypt_def encrypted_prefix_def split: option.splits)
qed

text \<open>
  Claim C32: stored secrets come back.  Whatever the secret and the random nonce, what \<open>Encrypt\<close>
  returns has the version prefix, \<open>Decrypt\<close> with the same cipher returns the secret, and the
  stored text is never mistaken for a legacy plaintext.
\<close>
theorem secret_round_trip:
  assumes "opens_sealed a" and "rnd (nonce_size a) = Some nonce" and "length nonce = nonce_size a"
    and "list_all (\<lambda>b. b < 256) nonce" and "encrypt (Some a) rnd plaintext = Inr stored"
  shows "prefix ''enc:v1:'' stored \<and> decrypt (Some a) stored = Inr plaintext"
  using assms by (rule secret_comes_back)

section \<open>A cipher at work\<close>

definition sample_aead :: aead where
  "sample_aead =
     \<lparr>nonce_size = 12,
      seal = (\<lambda>nonce plain. plain @ [sum_list nonce mod 256]),
      open_sealed = (\<lambda>nonce s. if s \<noteq> [] \<and> last s = sum_list nonce mod 256 then Some (butlast s) else None)\<rparr>"

lemma sample_sound: "sound_nonce sample_aead (\<lambda>n. Some (replicate n 7))"
  by (auto simp: sound_nonce_def opens_sealed_def sample_aead_def list_all_iff)

lemma secret_round_trip_witness:
  "\<exists>stored. encrypt (Some sample_aead) (\<lambda>n. Some (replicate n 7)) ''s3cret'' = Inr stored
     \<and> decrypt (Some sample_aead) stored = Inr ''s3cret''"
proof -
  have "opens_sealed sample_aead"
    by (auto simp: opens_sealed_def sample_aead_def list_all_iff)
  moreover have "list_all (\<lambda>b. b < 256) (replicate (nonce_size sample_aead) (7 :: nat))"
    by (simp add: list_all_iff)
  ultimately show ?thesis
    using secret_round_trip [of sample_aead "\<lambda>n. Some (replicate n 7)" "replicate (nonce_size sample_aead) 7"]
    by (simp add: encrypt_def)
qed

end
