(* ===== verification/EventBus.thy ===== *)
theory EventBus
  imports Prelude "HOL-Library.AList"
begin

text \<open>
  The in-memory event bus of \<open>internal/service/event_bus.go\<close> and the bounded channel of the webhook
  service.  Handlers are abstract values: \<open>Publish\<close> starts each in its own goroutine and recovers
  its panics, so what it does is determined by which handlers it starts.  The locale \<open>channel\<close> is
  the contract of a buffered Go channel used with a non-blocking send; what any sequence of sends
  and receives delivers is proved from it.
\<close>

section \<open>The event bus\<close>

record 'h event_bus =
  subscribers :: "(string \<times> 'h list) list"

definition new_event_bus :: "'h event_bus" where
  "new_event_bus = \<lparr>subscribers = []\<rparr>"

definition handlers_of :: "'h event_bus \<Rightarrow> string \<Rightarrow> 'h list" where
  "handlers_of b ev = (case map_of (subscribers b) ev of None \<Rightarrow> [] | Some hs \<Rightarrow> hs)"

definition subscribe :: "string \<Rightarrow> 'h \<Rightarrow> 'h event_bus \<Rightarrow> 'h event_bus" where
  "subscribe ev h b = b\<lparr>subscribers := AList.update ev (handlers_of b ev @ [h]) (subscribers b)\<rparr>"

text \<open>The goroutines a publication starts, in order: handler and payload.\<close>

definition publish :: "string \<Rightarrow> 'p \<Rightarrow> 'h event_bus \<Rightarrow> ('h \<times> 'p) list" where
  "publish ev payload b = map (\<lambda>h. (h, payload)) (handlers_of b ev)"

lemma handlers_of_subscribe [simp]:
  "handlers_of (subscribe ev h b) ev' = (if ev' = ev then handlers_of b ev @ [h] else handlers_of b ev')"
  by (simp add: subscribe_def handlers_of_def update_conv')

text \<open>
  Publishing an event starts exactly the handlers that have been subscribed to that event,
  each once per subscription, in the order of subscription, with the published payload.
\<close>
theorem publish_reaches_subscribers:
  "publish ev payload (fold (\<lambda>(e, h). subscribe e h) subs new_event_bus)
     = map (\<lambda>(e, h). (h, payload)) (filter (\<lambda>(e, h). e = ev) subs)"
proof -
  have "handlers_of (fold (\<lambda>(e, h). subscribe e h) subs b) ev
      = handlers_of b ev @ map snd (filter (\<lambda>(e, h). e = ev) subs)" for b
    by (induction subs arbitrary: b) auto
  then show ?thesis
    by (simp add: publish_def new_event_bus_def handlers_of_def case_prod_beta')
qed

section \<open>Bounded channels\<close>

locale channel =
  fixes send :: "'e \<Rightarrow> 'q \<Rightarrow> 'q option"
    and recv :: "'q \<Rightarrow> ('e \<times> 'q) option"
    and buffered :: "'q \<Rightarrow> 'e list"
    and capacity :: nat
  assumes send_room: "length (buffered q) < capacity \<Longrightarrow> \<exists>q'. send e q = Some q' \<and> buffered q' = buffered q @ [e]"
    and send_full: "capacity \<le> length (buffered q) \<Longrightarrow> send e q = None"
    and recv_first: "buffered q = e # es \<Longrightarrow> \<exists>q'. recv q = Some (e, q') \<and> buffered q' = es"
    and recv_empty: "buffered q = [] \<Longrightarrow> recv q = None"
begin

text \<open>A step is a non-blocking send of an event or a receive; the trace collects what each did.\<close>

fun channel_run :: "'e option list \<Rightarrow> 'q \<Rightarrow> 'e list \<times> 'e list \<times> 'q" where
  "channel_run [] q = ([], [], q)"
| "channel_run (Some e # ops) q =
     (case send e q of
        None \<Rightarrow> channel_run ops q
      | Some q' \<Rightarrow> (case channel_run ops q' of (acc, out, r) \<Rightarrow> (e # acc, out, r)))"
| "channel_run (None # ops) q =
     (case recv q of
        None \<Rightarrow> channel_run ops q
      | Some (e, q') \<Rightarrow> (case channel_run ops q' of (acc, out, r) \<Rightarrow> (acc, e # out, r)))"

text \<open>First in, first out, nothing lost or duplicated among the accepted events.\<close>

lemma delivered_in_order:
  "channel_run ops q = (acc, out, r) \<Longrightarrow> out @ buffered r = buffered q @ acc"
proof (induction ops q arbitrary: acc out rule: channel_run.induct)
  case (1 q)
  then show ?case by simp
next
  case (2 e ops q)
  show ?case
  proof (cases "length (buffered q) < capacity")
    case True
    from send_room [OF True] obtain q' where "send e q = Some q'" "buffered q' = buffered q @ [e]" by blast
    with 2(2,3) show ?thesis by (auto split: prod.splits)
  next
    case False
    then have "send e q = None" by (intro send_full) simp
    with 2(1,3) show ?thesis by simp
  qed
next
  case (3 ops q)
  show ?case
  proof (cases "buffered q")
    case Nil
    with 3(1,3) recv_empty [OF Nil] show ?thesis by simp
  next
    case (Cons e es)
    from recv_first [OF Cons] obtain q' where "recv q = Some (e, q')" "buffered q' = es" by blast
    with 3(2,3) Cons show ?thesis by (auto split: prod.splits)
  qed
qed

lemma stays_bounded:
  "channel_run ops q = (acc, out, r) \<Longrightarrow> length (buffered q) \<le> capacity \<Longrightarrow> length (buffered r) \<le> capacity"
proof (induction ops q arbitrary: acc out rule: channel_run.induct)
  case (1 q)
  then show ?case by simp
next
  case (2 e ops q)
  show ?case
  proof (cases "length (buffered q) < capacity")
    case True
    from send_room [OF True] obtain q' where "send e q = Some q'" "buffered q' = buffered q @ [e]" by blast
    with 2(2,3) True show ?thesis by (auto split: prod.splits)
  next
    case False
    then have "send e q = None" by (intro send_full) simp
    with 2(1,3,4) show ?thesis by simp
  qed
next
  case (3 ops q)
  show ?case
  proof (cases "buffered q")
    case Nil
    with 3(1,3,4) recv_empty [OF Nil] show ?thesis by simp
  next
    case (Cons e es)
    from recv_first [OF Cons] obtain q' where "recv q = Some (e, q')" "buffered q' = es" by blast
    with 3(2,3,4) Cons show ?thesis by (auto split: prod.splits)
  qed
qed

end

text \<open>\<open>make(chan T, n)\<close> with \<open>select { case c <- v: default: }\<close> and \<open>range c\<close>.\<close>

definition chan_send :: "nat \<Rightarrow> 'e \<Rightarrow> 'e list \<Rightarrow> 'e list option" where
  "chan_send n e q = (if length q < n then Some (q @ [e]) else None)"

definition chan_recv :: "'e list \<Rightarrow> ('e \<times> 'e list) option" where
  "chan_recv q = (case q of [] \<Rightarrow> None | e # es \<Rightarrow> Some (e, es))"

interpretation go_chan: channel "chan_send n" chan_recv "\<lambda>q. q" n for n
  by unfold_locales (auto simp: chan_send_def chan_recv_def)

end
