(* ===== verification/Webhook.thy ===== *)
theory Webhook
  imports Outbound SecretCipher EventBus Session
begin

text \<open>
  The webhook service of \<open>internal/service/webhook_service.go\<close>: registration of a target with its
  encrypted signing secret, the bounded queue of events, the workers that send each event to the
  active targets with a keyed signature, and the log of the attempts.  HMAC-SHA256, the JSON of a
  payload, the HTTP exchange and the texts of errors are the record \<open>hook_env\<close>.
\<close>

section \<open>State and environment\<close>

record 'p webhook_event =
  we_name :: string
  we_payload :: 'p

record http_request =
  rq_url :: string
  rq_content_type :: string
  rq_delivery :: string
  rq_timestamp :: string
  rq_signature :: string
  rq_body :: string

datatype send_failure = SendURL outbound_err | SendCipher cipher_err | SendRequest string

text \<open>The outcome of \<open>httpClient.Do\<close>: a transport error, or status and response body.\<close>

datatype http_outcome = TransportError string | HttpResponse int string

record 'p hook_env =
  he_unicode :: unicode_tables
  he_net :: net
  he_policy :: outbound_policy
  he_cipher :: "aead option"
  he_hmac :: "string \<Rightarrow> string \<Rightarrow> nat list"
  he_marshal :: "'p webhook_event \<Rightarrow> string option"
  he_new_request_ok :: "string \<Rightarrow> bool"
  he_error_text :: "send_failure \<Rightarrow> string"

definition event_chan_size :: nat where
  "event_chan_size = 100"

text \<open>The number of workers: the configured one when it is between 1 and 100, and otherwise 5.\<close>

definition worker_pool_size :: "int \<Rightarrow> int" where
  "worker_pool_size n = (if n \<le> 0 \<or> 100 < n then 5 else n)"

definition new_webhook_policy :: "unicode_tables \<Rightarrow> string list \<Rightarrow> outbound_policy option" where
  "new_webhook_policy U hosts = new_outbound_policy U hosts"

section \<open>Dispatching\<close>

text \<open>A full queue drops the event.\<close>

definition dispatch :: "string \<Rightarrow> 'p \<Rightarrow> 'p webhook_event list \<Rightarrow> 'p webhook_event list" where
  "dispatch name payload q =
     (case chan_send event_chan_size \<lparr>we_name = name, we_payload = payload\<rparr> q of None \<Rightarrow> q | Some q' \<Rightarrow> q')"

section \<open>Registration\<close>

fun hex_nibble :: "nat \<Rightarrow> char" where
  "hex_nibble n = (if n < 10 then char_of (48 + n) else char_of (87 + n))"

definition hex_encode :: "nat list \<Rightarrow> string" where
  "hex_encode bs = concat (map (\<lambda>b. [hex_nibble (b div 16), hex_nibble (b mod 16)]) bs)"

datatype hook_err =
    HookEvent | HookURL outbound_err | HookRandom | HookSecretShort | HookCipher cipher_err | HookDb service_err

text \<open>\<open>rnd1\<close> delivers the bytes of a generated secret, \<open>rnd2\<close> those of the nonce.\<close>

definition register_config ::
    "'p hook_env \<Rightarrow> gorm \<Rightarrow> time \<Rightarrow> string \<Rightarrow> (nat \<Rightarrow> nat list option) \<Rightarrow> (nat \<Rightarrow> nat list option) \<Rightarrow>
       webhook_config \<Rightarrow> db \<Rightarrow> (hook_err + string) \<times> db" where
  "register_config E g now nid rnd1 rnd2 cfg d =
     (if wc_event cfg \<noteq> ''session.completed'' then (Inl HookEvent, d)
      else case validate_url (he_unicode E) (he_net E) (he_policy E) (wc_target_url cfg) of
        Inl e \<Rightarrow> (Inl (HookURL e), d)
      | Inr u \<Rightarrow>
          (case (if wc_secret_token cfg = [] then map_option hex_encode (rnd1 32) else Some (wc_secret_token cfg)) of
             None \<Rightarrow> (Inl HookRandom, d)
           | Some secret \<Rightarrow>
               if length secret < 32 then (Inl HookSecretShort, d)
               else (case encrypt (he_cipher E) rnd2 secret of
                   Inl e \<Rightarrow> (Inl (HookCipher e), d)
                 | Inr encrypted \<Rightarrow>
                     let row = cfg\<lparr>wc_target_url := net_url_string (he_net E) u, wc_http_method := ''POST'',
                                   wc_id := (if wc_id cfg = [] then nid else wc_id cfg), wc_created_at := now,
                                   wc_secret_token := encrypted\<rparr>
                     in if stmt_fails g 1 then (Inl (HookDb (ErrStatement 1)), d)
                        else (case insert_row webhook_config_clash row (webhook_configs d) of
                            None \<Rightarrow> (Inl (HookDb ErrConstraint), d)
                          | Some rows \<Rightarrow> (Inr secret, d\<lparr>webhook_configs := rows\<rparr>)))))"

section \<open>Sending\<close>

text \<open>What a delivery attempt does before any network traffic: the signed request, or the failure.\<close>

definition signed_request ::
    "'p hook_env \<Rightarrow> time \<Rightarrow> string \<Rightarrow> webhook_config \<Rightarrow> string \<Rightarrow> send_failure + http_request" where
  "signed_request E now delivery_id cfg payload =
     (case validate_url (he_unicode E) (he_net E) (he_policy E) (wc_target_url cfg) of
        Inl e \<Rightarrow> Inl (SendURL e)
      | Inr u \<Rightarrow>
          (case decrypt (he_cipher E) (wc_secret_token cfg) of
             Inl e \<Rightarrow> Inl (SendCipher e)
           | Inr secret \<Rightarrow>
               let ts = int_string (now div second);
                   target = net_url_string (he_net E) u
               in if \<not> he_new_request_ok E target then Inl (SendRequest target)
                  else Inr \<lparr>rq_url = target, rq_content_type = ''application/json'', rq_delivery = delivery_id,
                    rq_timestamp = ts,
                    rq_signature = ''v1='' @ hex_encode (he_hmac E secret (ts @ ''.'' @ delivery_id @ ''.'' @ payload)),
                    rq_body = payload\<rparr>))"

definition webhook_log_row ::
    "string \<Rightarrow> time \<Rightarrow> string \<Rightarrow> string \<Rightarrow> int \<Rightarrow> string \<Rightarrow> bool \<Rightarrow> webhook_log" where
  "webhook_log_row lid now cid ev status body ok =
     \<lparr>wl_id = lid, wl_config_id = cid, wl_event = ev, wl_payload = [], wl_status_code = status,
      wl_response_body = (if 4096 < length body then take 4096 body else body), wl_is_success = ok,
      wl_created_at = now\<rparr>"

text \<open>Writing a log entry; a failure is only reported to the logger.\<close>

definition log_webhook_result :: "gorm \<Rightarrow> webhook_log \<Rightarrow> db \<Rightarrow> db" where
  "log_webhook_result g row d =
     (if stmt_fails g 1 then d
      else case insert_row webhook_log_clash row (webhook_logs d) of
        None \<Rightarrow> d
      | Some rows \<Rightarrow> d\<lparr>webhook_logs := rows\<rparr>)"

text \<open>
  One attempt: clock readings, identifiers and the network's answer are given by the attempt; the
  result is the request that went out, if any, and the entry to log.
\<close>

record attempt =
  at_now :: time
  at_delivery_id :: string
  at_log_id :: string
  at_log_now :: time
  at_http :: "http_request \<Rightarrow> http_outcome"

definition send_webhook ::
    "'p hook_env \<Rightarrow> attempt \<Rightarrow> webhook_config \<Rightarrow> string \<Rightarrow> string \<Rightarrow> http_request option \<times> webhook_log" where
  "send_webhook E a cfg ev payload =
     (let log = webhook_log_row (at_log_id a) (at_log_now a) (wc_id cfg) ev
      in case signed_request E (at_now a) (at_delivery_id a) cfg payload of
           Inl f \<Rightarrow> (None, log 0 (he_error_text E f) False)
         | Inr rq \<Rightarrow>
             (case at_http a rq of
                TransportError msg \<Rightarrow> (Some rq, log 0 msg False)
              | HttpResponse status body \<Rightarrow>
                  (Some rq, log status (trim_space (take 4096 body)) (200 \<le> status \<and> status < 300))))"

text \<open>One iteration of \<open>workerLoop\<close>: all active configurations of the event, in turn.\<close>

definition active_configs :: "string \<Rightarrow> db \<Rightarrow> webhook_config list" where
  "active_configs ev d = filter (\<lambda>c. wc_event c = ev \<and> wc_is_active c) (webhook_configs d)"

fun send_all ::
    "'p hook_env \<Rightarrow> (nat \<Rightarrow> attempt) \<Rightarrow> (nat \<Rightarrow> gorm) \<Rightarrow> nat \<Rightarrow> string \<Rightarrow> string \<Rightarrow> webhook_config list \<Rightarrow> db \<Rightarrow>
       http_request list \<times> db" where
  "send_all E a gl i ev body [] d = ([], d)"
| "send_all E a gl i ev body (c # cs) d =
     (let (rq, row) = send_webhook E (a i) c ev body;
          (rqs, d') = send_all E a gl (Suc i) ev body cs (log_webhook_result (gl i) row d)
      in ((case rq of None \<Rightarrow> rqs | Some r \<Rightarrow> r # rqs), d'))"

definition worker_iteration ::
    "'p hook_env \<Rightarrow> gorm \<Rightarrow> (nat \<Rightarrow> attempt) \<Rightarrow> (nat \<Rightarrow> gorm) \<Rightarrow> 'p webhook_event \<Rightarrow> db \<Rightarrow> http_request list \<times> db" where
  "worker_iteration E g a gl ev d =
     (if stmt_fails g 1 then ([], d)
      else case he_marshal E ev of
        None \<Rightarrow> ([], d)
      | Some body \<Rightarrow> send_all E a gl 0 (we_name ev) body (active_configs (we_name ev) d) d)"

definition get_webhook_logs :: "gorm \<Rightarrow> db \<Rightarrow> service_err + webhook_log list" where
  "get_webhook_logs g d =
     (if stmt_fails g 1 then Inl (ErrStatement 1)
      else Inr (take 100 (sort_key (\<lambda>l. - wl_created_at l) (webhook_logs d))))"

section \<open>The queue\<close>

text \<open>Steps of the service on its queue: a dispatch, or a worker taking the next event.\<close>

datatype 'p queue_step = Dispatch string 'p | TakeNext

fun queue_run ::
    "'p queue_step list \<Rightarrow> 'p webhook_event list \<Rightarrow> 'p webhook_event list \<times> 'p webhook_event list" where
  "queue_run [] q = ([], q)"
| "queue_run (Dispatch n p # ops) q = queue_run ops (dispatch n p q)"
| "queue_run (TakeNext # ops) q =
     (case chan_recv q of
        None \<Rightarrow> queue_run ops q
      | Some (e, q') \<Rightarrow> (case queue_run ops q' of (out, r) \<Rightarrow> (e # out, r)))"

fun channel_op :: "'p queue_step \<Rightarrow> 'p webhook_event option" where
  "channel_op (Dispatch n p) = Some \<lparr>we_name = n, we_payload = p\<rparr>"
| "channel_op TakeNext = None"

lemma queue_run_channel:
  "queue_run ops q = (case go_chan.channel_run event_chan_size (map channel_op ops) q of (acc, out, r) \<Rightarrow> (out, r))"
proof (induction ops q rule: queue_run.induct)
  case (1 q)
  then show ?case by simp
next
  case (2 n p ops q)
  then show ?case by (auto simp: dispatch_def split: option.splits prod.splits)
next
  case (3 ops q)
  then show ?case by (auto split: option.splits prod.splits)
qed

lemma accepted_subseq:
  "go_chan.channel_run n ops q = (acc, out, r) \<Longrightarrow> subseq acc [e. Some e \<leftarrow> ops]"
proof (induction ops arbitrary: q acc out)
  case Nil
  then show ?case by simp
next
  case (Cons op ops)
  show ?case
  proof (cases op)
    case None
    with Cons show ?thesis by (auto split: option.splits prod.splits)
  next
    case (Some e)
    show ?thesis
    proof (cases "chan_send n e q")
      case None
      with Some Cons.prems have "go_chan.channel_run n ops q = (acc, out, r)" by simp
      from Cons.IH [OF this] Some show ?thesis by (simp add: list_emb_Cons)
    next
      case (Some q')
      with \<open>op = Some e\<close> Cons.prems obtain acc' where "go_chan.channel_run n ops q' = (acc', out, r)" "acc = e # acc'"
        by (auto split: prod.splits)
      with Cons.IH [of q' acc' out] \<open>op = Some e\<close> show ?thesis by simp
    qed
  qed
qed

text \<open>
  The webhook queue.  In any sequence of dispatches and worker reads from an empty queue,
  the events the workers take, followed by those still waiting, are a subsequence of the dispatched
  ones in their order: none is duplicated, altered or overtaken; and never more than 100 wait.
\<close>
theorem webhook_queue_in_order:
  "subseq (fst (queue_run ops []) @ snd (queue_run ops [])) [e. Some e \<leftarrow> map channel_op ops]
   \<and> length (snd (queue_run ops [])) \<le> 100"
proof -
  obtain acc out r where run: "go_chan.channel_run event_chan_size (map channel_op ops) [] = (acc, out, r)"
    by (metis prod.exhaust)
  have "out @ r = acc" using go_chan.delivered_in_order [OF run] by simp
  moreover have "length r \<le> 100"
    using go_chan.stays_bounded [OF run] by (simp add: event_chan_size_def)
  ultimately show ?thesis
    using accepted_subseq [OF run] by (simp add: queue_run_channel run)
qed

section \<open>Signed deliveries\<close>

lemma register_config_Inr:
  assumes "register_config E g now nid rnd1 rnd2 cfg d = (Inr secret, d')"
  obtains u row where "validate_url (he_unicode E) (he_net E) (he_policy E) (wc_target_url cfg) = Inr u"
    "wc_event cfg = ''session.completed''" "32 \<le> length secret"
    "encrypt (he_cipher E) rnd2 secret = Inr (wc_secret_token row)"
    "row = cfg\<lparr>wc_target_url := net_url_string (he_net E) u, wc_http_method := ''POST'',
       wc_id := (if wc_id cfg = [] then nid else wc_id cfg), wc_created_at := now, wc_secret_token := wc_secret_token row\<rparr>"
    "\<forall>c \<in> set (webhook_configs d). wc_id c \<noteq> wc_id row"
    "d' = d\<lparr>webhook_configs := webhook_configs d @ [row]\<rparr>"
proof -
  have ev: "wc_event cfg = ''session.completed''"
    using assms by (auto simp: register_config_def split: if_splits)
  with assms obtain u where u: "validate_url (he_unicode E) (he_net E) (he_policy E) (wc_target_url cfg) = Inr u"
    by (auto simp: register_config_def split: sum.splits)
  with assms ev obtain sec where sec:
    "(if wc_secret_token cfg = [] then map_option hex_encode (rnd1 32) else Some (wc_secret_token cfg)) = Some sec"
    "32 \<le> length sec"
    by (auto simp: register_config_def not_less split: option.splits if_splits)
  with assms ev u obtain enc where enc: "encrypt (he_cipher E) rnd2 sec = Inr enc"
    by (auto simp: register_config_def split: sum.splits)
  let ?row = "cfg\<lparr>wc_target_url := net_url_string (he_net E) u, wc_http_method := ''POST'',
     wc_id := (if wc_id cfg = [] then nid else wc_id cfg), wc_created_at := now, wc_secret_token := enc\<rparr>"
  from assms ev u sec enc have "(if stmt_fails g 1 then (Inl (HookDb (ErrStatement 1)), d)
      else case insert_row webhook_config_clash ?row (webhook_configs d) of
             None \<Rightarrow> (Inl (HookDb ErrConstraint), d)
           | Some rows \<Rightarrow> (Inr sec, d\<lparr>webhook_configs := rows\<rparr>)) = (Inr secret, d')"
    unfolding register_config_def Let_def ev u sum.case sec(1) option.case enc by (simp add: not_less [symmetric])
  then obtain rows where r: "insert_row webhook_config_clash ?row (webhook_configs d) = Some rows"
    "secret = sec" "d' = d\<lparr>webhook_configs := rows\<rparr>"
    by (auto split: if_splits option.splits)
  from r(1) have "\<forall>c \<in> set (webhook_configs d). wc_id c \<noteq> wc_id ?row" "rows = webhook_configs d @ [?row]"
    unfolding insert_row_Some clash_on_def by metis+
  with r(2,3) ev u sec(2) enc show thesis by (intro that [of u ?row]) simp_all
qed

lemma register_config_Inl: "register_config E g now nid rnd1 rnd2 cfg d = (Inl e, d') \<Longrightarrow> d' = d"
  by (auto simp: register_config_def Let_def split: if_splits sum.splits option.splits)

text \<open>
  Claim C33: the secret an administrator receives verifies every delivery.  After a successful
  registration a configuration is stored whose token is not the secret in the clear, and any request
  later sent for it goes to a URL the policy validates and carries the signature \<open>v1=\<close> followed by
  the HMAC, under exactly the returned secret, of its timestamp, delivery identifier and body.
\<close>
theorem registered_secret_signs:
  assumes "register_config E g now nid rnd1 rnd2 cfg d = (Inr secret, d')"
    and "he_cipher E = Some a" and "sound_nonce a rnd2"
  shows "\<exists>c. webhook_configs d' = webhook_configs d @ [c] \<and> prefix ''enc:v1:'' (wc_secret_token c) \<and> 32 \<le> length secret
    \<and> (case signed_request E t did c body of
         Inl f \<Rightarrow> \<not> (\<exists>e. f = SendCipher e)
       | Inr rq \<Rightarrow> (\<exists>u. validate_url (he_unicode E) (he_net E) (he_policy E) (wc_target_url c) = Inr u
             \<and> rq_url rq = net_url_string (he_net E) u)
           \<and> rq_body rq = body
           \<and> rq_signature rq =
               ''v1='' @ hex_encode (he_hmac E secret (rq_timestamp rq @ ''.'' @ rq_delivery rq @ ''.'' @ rq_body rq)))"
proof -
  from assms(1) obtain row where enc: "encrypt (he_cipher E) rnd2 secret = Inr (wc_secret_token row)"
    and d': "d' = d\<lparr>webhook_configs := webhook_configs d @ [row]\<rparr>" and len: "32 \<le> length secret"
    by (rule register_config_Inr)
  with assms(2) have "encrypt (Some a) rnd2 secret = Inr (wc_secret_token row)" by simp
  note stored = cipher.used_as_given [OF assms(3) this] cipher.put_prefix [OF this]
  show ?thesis
    using d' len assms(2) stored(2)
    by (auto simp: signed_request_def Let_def stored(1) split: sum.splits intro!: exI [of _ row])
qed

section \<open>Logged attempts\<close>

text \<open>
  Claim C34: every attempt is accounted for.  A worker iteration on a healthy database, with fresh
  log identifiers, appends exactly one log entry per active configuration of the event, in order, for
  that configuration and event; each holds at most 4096 bytes of the response and is marked
  successful exactly when the response had a status from 200 to 299; nothing else is written.
\<close>
theorem attempts_are_logged:
  assumes "\<not> stmt_fails g 1" and "he_marshal E ev = Some body" and "\<forall>i. \<not> stmt_fails (gl i) 1"
    and "inj (\<lambda>i. at_log_id (a i))" and "\<forall>i. \<forall>l \<in> set (webhook_logs d). wl_id l \<noteq> at_log_id (a i)"
    and "worker_iteration E g a gl ev d = (rqs, d')"
  shows "\<exists>rows. d' = d\<lparr>webhook_logs := webhook_logs d @ rows\<rparr>
    \<and> map wl_config_id rows = map wc_id (active_configs (we_name ev) d)
    \<and> list_all (\<lambda>l. wl_event l = we_name ev \<and> length (wl_response_body l) \<le> 4096
         \<and> (wl_is_success l \<longleftrightarrow> 200 \<le> wl_status_code l \<and> wl_status_code l < 300)) rows"
proof -
  have row: "wl_config_id (snd (send_webhook E x c n b)) = wc_id c"
      "wl_event (snd (send_webhook E x c n b)) = n" "length (wl_response_body (snd (send_webhook E x c n b))) \<le> 4096"
      "wl_is_success (snd (send_webhook E x c n b)) \<longleftrightarrow>
        200 \<le> wl_status_code (snd (send_webhook E x c n b)) \<and> wl_status_code (snd (send_webhook E x c n b)) < 300"
      "wl_id (snd (send_webhook E x c n b)) = at_log_id x" for x c n b
    by (auto simp: send_webhook_def webhook_log_row_def Let_def split: sum.splits http_outcome.splits)
  have "\<exists>rows. snd (send_all E a gl i n b cs d) = d\<lparr>webhook_logs := webhook_logs d @ rows\<rparr>
      \<and> map wl_config_id rows = map wc_id cs
      \<and> list_all (\<lambda>l. wl_event l = n \<and> length (wl_response_body l) \<le> 4096
         \<and> (wl_is_success l \<longleftrightarrow> 200 \<le> wl_status_code l \<and> wl_status_code l < 300)) rows"
    if "\<forall>j \<ge> i. \<forall>l \<in> set (webhook_logs d). wl_id l \<noteq> at_log_id (a j)" for i n b cs d
    using that
  proof (induction cs arbitrary: i d)
    case Nil
    then show ?case by (auto intro!: exI [of _ "[]"])
  next
    case (Cons c cs)
    let ?row = "snd (send_webhook E (a i) c n b)"
    let ?d1 = "d\<lparr>webhook_logs := webhook_logs d @ [?row]\<rparr>"
    have "\<not> clash_on wl_id wl_id ?row l" if "l \<in> set (webhook_logs d)" for l
      using Cons.prems that row(5) [of "a i" c n b] unfolding clash_on_def by (metis order_refl)
    then have log: "log_webhook_result (gl i) ?row d = ?d1"
      using assms(3) by (simp add: log_webhook_result_def insert_row_def list_ex_iff)
    have "at_log_id (a i) \<noteq> at_log_id (a j)" if "Suc i \<le> j" for j
      using assms(4) that by (auto dest: injD)
    then have "\<forall>j \<ge> Suc i. \<forall>l \<in> set (webhook_logs ?d1). wl_id l \<noteq> at_log_id (a j)"
      using Cons.prems row(5) [of "a i" c n b] by auto
    from Cons.IH [OF this] obtain rows where
      "snd (send_all E a gl (Suc i) n b cs ?d1) = ?d1\<lparr>webhook_logs := webhook_logs ?d1 @ rows\<rparr>"
      "map wl_config_id rows = map wc_id cs"
      "list_all (\<lambda>l. wl_event l = n \<and> length (wl_response_body l) \<le> 4096
         \<and> (wl_is_success l \<longleftrightarrow> 200 \<le> wl_status_code l \<and> wl_status_code l < 300)) rows" by blast
    then show ?case
      using row [of "a i" c n b] by (intro exI [of _ "?row # rows"]) (simp add: case_prod_beta Let_def log)
  qed
  from this [of 0 d "we_name ev" body "active_configs (we_name ev) d"] assms(1,2,5,6) show ?thesis
    by (simp add: worker_iteration_def)
qed

section \<open>A target at work\<close>

definition sample_hook_env :: "string hook_env" where
  "sample_hook_env =
     \<lparr>he_unicode = ascii_unicode, he_net = sample_net, he_policy = \<lparr>allowed_hosts = [''*.example.com'']\<rparr>,
      he_cipher = Some sample_aead, he_hmac = (\<lambda>k m. [length k, length m]), he_marshal = (\<lambda>e. Some (we_payload e)),
      he_new_request_ok = (\<lambda>_. True), he_error_text = (\<lambda>_. ''failed'')\<rparr>"

definition sample_target :: webhook_config where
  "sample_target =
     \<lparr>wc_id = [], wc_event = ''session.completed'', wc_target_url = ''https://hooks.example.com/a#x'',
      wc_http_method = [], wc_secret_token = ''0123456789abcdef0123456789abcdef'', wc_is_active = True, wc_created_at = 0\<rparr>"

lemma sample_url_valid:
  "\<exists>u. validate_url ascii_unicode sample_net \<lparr>allowed_hosts = [''*.example.com'']\<rparr> ''https://hooks.example.com/a#x'' = Inr u"
proof -
  have "host_matches ''*.example.com'' ''hooks.example.com''"
    by (simp add: host_matches_def go_simps)
  then show ?thesis
    by (simp add: validate_url_def sample_net_def sample_normal_host local_name_def host_allowed_def go_simps Let_def)
qed

lemma registered_secret_signs_witness:
  "\<exists>secret d' c. register_config sample_hook_env healthy 0 ''w1'' (\<lambda>_. None) (\<lambda>n. Some (replicate n 7)) sample_target empty_db
       = (Inr secret, d')
     \<and> webhook_configs d' = [c] \<and> prefix ''enc:v1:'' (wc_secret_token c) \<and> 32 \<le> length secret"
proof -
  obtain u where u: "validate_url ascii_unicode sample_net \<lparr>allowed_hosts = [''*.example.com'']\<rparr> ''https://hooks.example.com/a#x'' = Inr u"
    using sample_url_valid by blast
  have "\<exists>secret d'. register_config sample_hook_env healthy 0 ''w1'' (\<lambda>_. None) (\<lambda>n. Some (replicate n 7)) sample_target empty_db
       = (Inr secret, d')"
    by (simp add: register_config_def sample_hook_env_def sample_target_def u encrypt_def insert_row_def empty_db_def Let_def)
  then obtain secret d' where r:
    "register_config sample_hook_env healthy 0 ''w1'' (\<lambda>_. None) (\<lambda>n. Some (replicate n 7)) sample_target empty_db
       = (Inr secret, d')" by blast
  have "he_cipher sample_hook_env = Some sample_aead" by (simp add: sample_hook_env_def)
  from registered_secret_signs [OF r this sample_sound, where t = 0 and did = "''d''" and body = "''b''"]
  obtain c where "webhook_configs d' = webhook_configs empty_db @ [c]"
    "prefix ''enc:v1:'' (wc_secret_token c) \<and> 32 \<le> length secret"
    by auto
  moreover have "webhook_configs empty_db = []" by (simp add: empty_db_def)
  ultimately have "webhook_configs d' = [c]" by simp
  with r \<open>prefix ''enc:v1:'' (wc_secret_token c) \<and> 32 \<le> length secret\<close> show ?thesis by blast
qed

definition sample_attempt :: "nat \<Rightarrow> attempt" where
  "sample_attempt i =
     \<lparr>at_now = 0, at_delivery_id = ''d'', at_log_id = replicate i CHR ''x'', at_log_now = 0,
      at_http = (\<lambda>_. HttpResponse 200 ''ok'')\<rparr>"

lemma attempts_are_logged_witness:
  "\<exists>rows. webhook_logs (snd (worker_iteration sample_hook_env healthy sample_attempt (\<lambda>_. healthy)
        \<lparr>we_name = ''session.completed'', we_payload = ''{}''\<rparr> (empty_db\<lparr>webhook_configs := [sample_target]\<rparr>))) = rows
     \<and> length rows = 1"
proof -
  obtain rqs d' where run: "worker_iteration sample_hook_env healthy sample_attempt (\<lambda>_. healthy)
        \<lparr>we_name = ''session.completed'', we_payload = ''{}''\<rparr> (empty_db\<lparr>webhook_configs := [sample_target]\<rparr>) = (rqs, d')"
    by (metis prod.exhaust)
  have "inj (\<lambda>i. at_log_id (sample_attempt i))"
    by (rule injI) (auto simp: sample_attempt_def dest: arg_cong [of _ _ length])
  then obtain rows where rows: "d' = empty_db\<lparr>webhook_configs := [sample_target], webhook_logs := [] @ rows\<rparr>"
    "map wl_config_id rows = map wc_id (active_configs ''session.completed'' (empty_db\<lparr>webhook_configs := [sample_target]\<rparr>))"
    using attempts_are_logged [OF _ _ _ _ _ run, of "''{}''"]
    by (auto simp: sample_hook_env_def empty_db_def)
  have "active_configs ''session.completed'' (empty_db\<lparr>webhook_configs := [sample_target]\<rparr>) = [sample_target]"
    by (simp add: active_configs_def sample_target_def)
  with rows(2) have "length rows = 1" by (metis length_map length_Cons list.size(3) One_nat_def)
  then show ?thesis by (simp add: run rows(1))
qed

end
