(* ===== verification/GoUrl.thy ===== *)
theory GoUrl
  imports GoStrings "HOL-Library.AList"
begin

text \<open>
  What the program uses of \<open>net/url\<close>'s query strings: escaping, \<open>url.Values\<close> with \<open>Set\<close>, \<open>Encode\<close>
  and \<open>ParseQuery\<close>.  A \<open>url.Values\<close> is an association list from keys to their value lists.
\<close>

section \<open>Escaping\<close>

definition unreserved :: "char \<Rightarrow> bool" where
  "unreserved c \<longleftrightarrow>
     (let n = of_char c :: nat
      in 97 \<le> n \<and> n \<le> 122 \<or> 65 \<le> n \<and> n \<le> 90 \<or> 48 \<le> n \<and> n \<le> 57 \<or> c \<in> set ''-_.~'')"

definition upper_hex :: "nat \<Rightarrow> char" where
  "upper_hex n = (if n < 10 then char_of (48 + n) else char_of (55 + n))"

definition hex_value :: "char \<Rightarrow> nat option" where
  "hex_value c =
     (let n = of_char c :: nat
      in if 48 \<le> n \<and> n \<le> 57 then Some (n - 48)
         else if 97 \<le> n \<and> n \<le> 102 then Some (n - 87)
         else if 65 \<le> n \<and> n \<le> 70 then Some (n - 55)
         else None)"

definition escape_char :: "char \<Rightarrow> string" where
  "escape_char c =
     (if unreserved c then [c]
      else if c = CHR '' '' then ''+''
      else [CHR ''%'', upper_hex (of_char c div 16), upper_hex (of_char c mod 16)])"

definition query_escape :: "string \<Rightarrow> string" where
  "query_escape s = concat (map escape_char s)"

fun query_unescape :: "string \<Rightarrow> string option" where
  "query_unescape [] = Some []"
| "query_unescape (c # cs) =
     (if c = CHR ''%'' then
        (case cs of
           a # b # rest \<Rightarrow>
             (case (hex_value a, hex_value b) of
                (Some h, Some l) \<Rightarrow> map_option (Cons (char_of (16 * h + l))) (query_unescape rest)
              | _ \<Rightarrow> None)
         | _ \<Rightarrow> None)
      else map_option (Cons (if c = CHR ''+'' then CHR '' '' else c)) (query_unescape cs))"

lemma of_char_upper_hex:
  assumes "n < 16"
  shows "of_char (upper_hex n) = (if n < 10 then 48 + n else 55 + n)"
  using assms by (simp add: upper_hex_def)

lemma hex_value_upper_hex: "n < 16 \<Longrightarrow> hex_value (upper_hex n) = Some n"
  by (auto simp: hex_value_def Let_def of_char_upper_hex)

lemma unreserved_special:
  "\<not> unreserved CHR ''%''" "\<not> unreserved CHR ''+''" "\<not> unreserved CHR '' ''"
  "\<not> unreserved CHR ''&''" "\<not> unreserved CHR ''=''" "\<not> unreserved CHR '';''"
  by (simp_all add: unreserved_def)

lemma of_char_bounds [simp]: "(of_char c :: nat) div 16 < 16" "(of_char c :: nat) mod 16 < 16"
  using nat_of_char_less_256 [of c] by (auto simp: less_mult_imp_div_less)

lemma query_unescape_escape_char:
  "query_unescape (escape_char c @ s) = map_option (Cons c) (query_unescape s)"
proof (cases "unreserved c \<or> c = CHR '' ''")
  case True
  then show ?thesis using unreserved_special by (auto simp: escape_char_def)
next
  case False
  have "16 * (of_char c div 16) + of_char c mod 16 = (of_char c :: nat)" by simp
  with False show ?thesis by (simp add: escape_char_def hex_value_upper_hex)
qed

lemma query_unescape_escape: "query_unescape (query_escape s) = Some s"
proof -
  have "query_unescape (query_escape s @ []) = Some s"
    unfolding query_escape_def by (induction s) (simp_all add: query_unescape_escape_char)
  then show ?thesis by simp
qed

lemma upper_hex_unreserved: "n < 16 \<Longrightarrow> unreserved (upper_hex n)"
  unfolding unreserved_def Let_def of_char_upper_hex by auto

lemma escape_char_safe: "d \<in> set (escape_char c) \<Longrightarrow> unreserved d \<or> d = CHR ''%'' \<or> d = CHR ''+''"
  by (auto simp: escape_char_def upper_hex_unreserved split: if_splits)

lemma query_escape_safe:
  assumes "d \<in> {CHR ''&'', CHR ''='', CHR '';''}"
  shows "d \<notin> set (query_escape s)"
proof
  assume "d \<in> set (query_escape s)"
  then obtain c where "d \<in> set (escape_char c)" by (auto simp: query_escape_def)
  then have "unreserved d \<or> d = CHR ''%'' \<or> d = CHR ''+''" by (rule escape_char_safe)
  with assms unreserved_special show False by auto
qed

lemma query_escape_append [simp]: "query_escape (s @ t) = query_escape s @ query_escape t"
  by (simp add: query_escape_def)

section \<open>Values\<close>

type_synonym url_values = "(string \<times> string list) list"

definition values_set :: "string \<Rightarrow> string \<Rightarrow> url_values \<Rightarrow> url_values" where
  "values_set k v m = AList.update k [v] m"

definition values_get :: "url_values \<Rightarrow> string \<Rightarrow> string" where
  "values_get m k = (case map_of m k of Some (v # _) \<Rightarrow> v | _ \<Rightarrow> [])"

text \<open>Adding a value at the end of the key's list, as the parser does.\<close>

definition values_add :: "url_values \<Rightarrow> string \<times> string \<Rightarrow> url_values" where
  "values_add m kv = (case kv of (k, v) \<Rightarrow> AList.update k ((case map_of m k of None \<Rightarrow> [] | Some vs \<Rightarrow> vs) @ [v]) m)"

text \<open>The pairs \<open>Encode\<close> writes: keys in order, the values of a key in theirs.\<close>

definition value_pairs :: "url_values \<Rightarrow> (string \<times> string) list" where
  "value_pairs m = concat (map (\<lambda>(k, vs). map (Pair k) vs) (sort_key fst m))"

definition values_encode :: "url_values \<Rightarrow> string" where
  "values_encode m = join_with ''&'' (map (\<lambda>(k, v). query_escape k @ ''='' @ query_escape v) (value_pairs m))"

text \<open>\<open>strings.Cut(s, "=")\<close>.\<close>

definition cut_equals :: "string \<Rightarrow> string \<times> string" where
  "cut_equals s = (takeWhile (\<lambda>c. c \<noteq> CHR ''='') s, tl (dropWhile (\<lambda>c. c \<noteq> CHR ''='') s))"

text \<open>A part between ampersands: skipped when it is empty, has a semicolon or does not unescape.\<close>

definition parse_part :: "string \<Rightarrow> (string \<times> string) option" where
  "parse_part s =
     (if s = [] \<or> CHR '';'' \<in> set s then None
      else (case map_prod query_unescape query_unescape (cut_equals s) of
          (Some k, Some v) \<Rightarrow> Some (k, v)
        | _ \<Rightarrow> None))"

definition parse_query :: "string \<Rightarrow> url_values" where
  "parse_query s = foldl values_add [] (List.map_filter parse_part (split_on CHR ''&'' s))"

lemma cut_equals_append: "CHR ''='' \<notin> set k \<Longrightarrow> cut_equals (k @ CHR ''='' # v) = (k, v)"
  by (induction k) (auto simp: cut_equals_def)

lemma parse_part_escaped: "parse_part (query_escape k @ ''='' @ query_escape v) = Some (k, v)"
  using query_escape_safe [of "CHR ''=''" k] query_escape_safe [of "CHR '';''" k] query_escape_safe [of "CHR '';''" v]
  by (simp add: parse_part_def cut_equals_append query_unescape_escape)

lemma map_filter_parts:
  "List.map_filter parse_part (map (\<lambda>(k, v). query_escape k @ ''='' @ query_escape v) ps) = ps"
  by (induction ps) (use parse_part_escaped in \<open>auto simp: map_filter_simps\<close>)

lemma parse_query_pairs:
  "parse_query (join_with ''&'' (map (\<lambda>(k, v). query_escape k @ ''='' @ query_escape v) ps)) = foldl values_add [] ps"
proof (cases "ps = []")
  case True
  then show ?thesis by (simp add: parse_query_def List.map_filter_def parse_part_def)
next
  case False
  let ?f = "\<lambda>(k, v). query_escape k @ ''='' @ query_escape v"
  have "\<forall>x \<in> set (map ?f ps). CHR ''&'' \<notin> set x"
    using query_escape_safe [of "CHR ''&''"] by auto
  with False have "split_on CHR ''&'' (join_with [CHR ''&''] (map ?f ps)) = map ?f ps"
    by (intro split_on_join) auto
  with map_filter_parts [of ps] show ?thesis by (simp add: parse_query_def)
qed

text \<open>What a key holds after adding pairs: its old values, then those of the pairs, in order.\<close>

lemma map_of_values_add:
  "map_of (values_add m (a, b)) k =
     (if k = a then Some ((case map_of m k of None \<Rightarrow> [] | Some vs \<Rightarrow> vs) @ [b]) else map_of m k)"
  by (simp add: values_add_def update_conv')

lemma map_of_values_adds:
  "map_of (foldl values_add m ps) k =
     (if k \<in> fst ` set ps
      then Some ((case map_of m k of None \<Rightarrow> [] | Some vs \<Rightarrow> vs) @ [v. (k', v) \<leftarrow> ps, k' = k])
      else map_of m k)"
proof (induction ps arbitrary: m)
  case Nil
  then show ?case by simp
next
  case (Cons p ps)
  have "[v. (k', v) \<leftarrow> ps, k' = k] = []" if "k \<notin> fst ` set ps"
    using that by (induction ps) auto
  with Cons show ?case by (cases p) (auto simp: map_of_values_add)
qed

lemma no_pairs_iff: "[v. (k', v) \<leftarrow> ps, k' = k] = [] \<longleftrightarrow> k \<notin> fst ` set ps"
  by (induction ps) auto

lemma pairs_of_key:
  assumes "distinct (map fst m)"
  shows "[v. (k', v) \<leftarrow> concat (map (\<lambda>(k, vs). map (Pair k) vs) m), k' = k]
    = (case map_of m k of None \<Rightarrow> [] | Some vs \<Rightarrow> vs)"
  using assms
proof (induction m)
  case Nil
  then show ?case by simp
next
  case (Cons kv m)
  obtain k1 vs1 where kv: "kv = (k1, vs1)" by (cases kv)
  have *: "[v. (k', v) \<leftarrow> map (Pair k1) vs1, k' = k] = (if k1 = k then vs1 else [])"
    by (induction vs1) auto
  have "map_of m k1 = None" using Cons.prems kv by (simp add: map_of_eq_None_iff)
  with Cons kv * show ?case by (auto split: option.splits)
qed

lemma map_of_sort_key:
  assumes "distinct (map fst m)"
  shows "map_of (sort_key fst m) = map_of m"
proof -
  have "distinct (map fst (sort_key fst m))"
    using assms by (metis distinct_map distinct_sort set_sort)
  with assms show ?thesis by (intro map_of_inject_set [THEN iffD2]) simp_all
qed

text \<open>Encoding and parsing back keeps every key with its values.\<close>

lemma parse_query_encode:
  assumes "distinct (map fst m)" and "\<forall>(k, vs) \<in> set m. vs \<noteq> []"
  shows "map_of (parse_query (values_encode m)) k = map_of m k"
proof -
  have d: "distinct (map fst (sort_key fst m))"
    using assms(1) by (metis distinct_map distinct_sort set_sort)
  have pairs: "[v. (k', v) \<leftarrow> value_pairs m, k' = k] = (case map_of m k of None \<Rightarrow> [] | Some vs \<Rightarrow> vs)"
    unfolding value_pairs_def pairs_of_key [OF d] map_of_sort_key [OF assms(1)] ..
  have ne: "vs \<noteq> []" if "map_of m k = Some vs" for vs
    using assms(2) map_of_SomeD [OF that] by auto
  have "k \<in> fst ` set (value_pairs m) \<longleftrightarrow> map_of m k \<noteq> None"
    using no_pairs_iff [of k "value_pairs m"] ne unfolding pairs by (auto split: option.splits)
  with pairs show ?thesis
    unfolding values_encode_def parse_query_pairs map_of_values_adds by (auto split: option.splits)
qed

section \<open>Well-formed values\<close>

text \<open>Keys are distinct and each has a value: what \<open>Set\<close> and the parser build.\<close>

definition wf_values :: "url_values \<Rightarrow> bool" where
  "wf_values m \<longleftrightarrow> distinct (map fst m) \<and> (\<forall>k. map_of m k \<noteq> Some [])"

lemma wf_values_set [intro]: "wf_values m \<Longrightarrow> wf_values (values_set k v m)"
  by (auto simp: wf_values_def values_set_def update_conv' distinct_update)

lemma wf_values_add: "wf_values m \<Longrightarrow> wf_values (values_add m p)"
  by (cases p) (auto simp: wf_values_def values_add_def update_conv' distinct_update)

lemma wf_parse_query [intro]: "wf_values (parse_query s)"
proof -
  have "wf_values (foldl values_add m ps)" if "wf_values m" for m ps
    using that by (induction ps arbitrary: m) (auto intro: wf_values_add)
  moreover have "wf_values []" by (simp add: wf_values_def)
  ultimately show ?thesis by (simp add: parse_query_def)
qed

lemma values_get_set: "values_get (values_set k v m) k' = (if k' = k then v else values_get m k')"
  by (simp add: values_get_def values_set_def update_conv')

lemma values_get_round_trip:
  assumes "wf_values m"
  shows "values_get (parse_query (values_encode m)) k = values_get m k"
proof -
  from assms have "\<forall>(k, vs) \<in> set m. vs \<noteq> []"
    by (auto simp: wf_values_def map_of_eq_Some_iff)
  with assms show ?thesis
    using parse_query_encode [of m k] by (simp add: wf_values_def values_get_def)
qed

end
