(* ===== verification/Lti.thy ===== *)
theory Lti
  imports Outbound SecretCipher Session GoUrl
begin

text \<open>
  The first half of \<open>internal/service/lti_service.go\<close>: URL checks, the registration of platforms and
  resource links, and the start of an OIDC login.  PEM, PKCS and RSA validation, SHA-256 and what
  \<open>net/url\<close> makes of a string are parameters (\<open>key_library\<close>, \<open>lti_env\<close>).  Error texts are abbreviated.
\<close>

section \<open>Keys\<close>

record rsa_private_key =
  pk_modulus :: nat
  pk_exponent :: int

record rsa_public_key =
  rp_modulus :: nat
  rp_exponent :: int

datatype private_key = RsaPrivate rsa_private_key | OtherPrivate

record key_library =
  kl_pem_decode :: "string \<Rightarrow> nat list option"
  kl_pkcs1 :: "nat list \<Rightarrow> rsa_private_key option"
  kl_pkcs8 :: "nat list \<Rightarrow> private_key option"
  kl_validate :: "rsa_private_key \<Rightarrow> bool"

definition parse_rsa_private_key :: "key_library \<Rightarrow> string \<Rightarrow> service_err + rsa_private_key" where
  "parse_rsa_private_key K value =
     (case kl_pem_decode K value of
        None \<Rightarrow> Inl (ErrOther ''private key is not PEM'')
      | Some block \<Rightarrow>
          (case kl_pkcs1 K block of
             Some key \<Rightarrow> Inr key
           | None \<Rightarrow>
               (case kl_pkcs8 K block of
                  None \<Rightarrow> Inl (ErrOther ''private key cannot be parsed'')
                | Some OtherPrivate \<Rightarrow> Inl (ErrOther ''private key is not RSA'')
                | Some (RsaPrivate key) \<Rightarrow> Inr key)))"

definition acceptable_private_key :: "rsa_private_key \<Rightarrow> bool" where
  "acceptable_private_key k \<longleftrightarrow>
     \<not> (bit_len (int (pk_modulus k)) < 2048 \<or> 8192 < bit_len (int (pk_modulus k))
        \<or> pk_exponent k < 3 \<or> rem_int (pk_exponent k) 2 = 0)"

section \<open>URLs\<close>

record lti_env =
  lv_unicode :: unicode_tables
  lv_net :: net
  lv_cipher :: "aead option"
  lv_keys :: key_library
  lv_sha256 :: "nat list \<Rightarrow> nat list"

definition parse_https_url :: "net \<Rightarrow> string \<Rightarrow> url option" where
  "parse_https_url N raw =
     (case net_url_parse N (trim_space raw) of
        None \<Rightarrow> None
      | Some u \<Rightarrow>
          if url_scheme u \<noteq> ''https'' \<or> url_hostname u = [] \<or> url_has_user u \<or> url_fragment u \<noteq> [] then None
          else Some u)"

definition same_origin :: "unicode_tables \<Rightarrow> net \<Rightarrow> string \<Rightarrow> string \<Rightarrow> bool" where
  "same_origin U N a b =
     (case (parse_https_url N a, parse_https_url N b) of
        (Some u, Some v) \<Rightarrow> equal_fold U (url_host u) (url_host v)
      | _ \<Rightarrow> False)"

definition hostnames :: "unicode_tables \<Rightarrow> net \<Rightarrow> string list \<Rightarrow> string list" where
  "hostnames U N raws =
     foldl (\<lambda>res raw. case parse_https_url N raw of
         None \<Rightarrow> res
       | Some u \<Rightarrow> let h = to_lower U (url_hostname u) in if h \<in> set res then res else res @ [h]) [] raws"

definition safe_client :: "unicode_tables \<Rightarrow> net \<Rightarrow> string \<Rightarrow> string list \<Rightarrow> service_err + outbound_policy" where
  "safe_client U N raw hosts =
     (case new_outbound_policy U hosts of
        None \<Rightarrow> Inl (ErrOther ''no allowed host'')
      | Some p \<Rightarrow>
          (case validate_url U N p raw of
             Inl _ \<Rightarrow> Inl (ErrOther ''unsafe URL'')
           | Inr _ \<Rightarrow> Inr p))"

definition contains_string :: "string list \<Rightarrow> string \<Rightarrow> bool" where
  "contains_string vs expected = list_ex (\<lambda>v. v = expected) vs"

definition lti_user_id :: "lti_env \<Rightarrow> string \<Rightarrow> string \<Rightarrow> string" where
  "lti_user_id V issuer subject =
     ''lti:'' @ raw_url_encode (lv_sha256 V (string_bytes (issuer @ [CHR 0x00] @ subject)))"

section \<open>Registration\<close>

text \<open>The checks of one URL of a platform; the loop stops at the first that fails.\<close>

definition check_platform_url :: "lti_env \<Rightarrow> string \<Rightarrow> service_err option" where
  "check_platform_url V raw =
     (case parse_https_url (lv_net V) raw of
        None \<Rightarrow> Some (ErrOther ''LTI URL invalid'')
      | Some u \<Rightarrow>
          (case new_outbound_policy (lv_unicode V) [url_hostname u] of
             None \<Rightarrow> Some (ErrOther ''no allowed host'')
           | Some p \<Rightarrow>
               (case validate_url (lv_unicode V) (lv_net V) p raw of
                  Inl _ \<Rightarrow> Some (ErrOther ''LTI URL unsafe'')
                | Inr _ \<Rightarrow> None)))"

fun check_platform_urls :: "lti_env \<Rightarrow> string list \<Rightarrow> service_err option" where
  "check_platform_urls V [] = None"
| "check_platform_urls V (raw # raws) =
     (case check_platform_url V raw of Some e \<Rightarrow> Some e | None \<Rightarrow> check_platform_urls V raws)"

text \<open>The private key as it will be stored: nothing, or the encrypted PEM text.\<close>

definition protect_private_key :: "lti_env \<Rightarrow> (nat \<Rightarrow> nat list option) \<Rightarrow> lti_platform \<Rightarrow> service_err + string" where
  "protect_private_key V rnd p =
     (if prefix ''enc:v1:'' (p_private_key p) then Inl (ErrOther ''private key must be plain PEM'')
      else if p_private_key p = [] then Inr []
      else if trim_space (p_key_id p) = [] then Inl (ErrOther ''key_id missing'')
      else bind_res (parse_rsa_private_key (lv_keys V) (p_private_key p)) (\<lambda>k.
        if \<not> acceptable_private_key k then Inl (ErrOther ''RSA key size'')
        else if \<not> kl_validate (lv_keys V) k then Inl (ErrOther ''RSA key invalid'')
        else (case encrypt (lv_cipher V) rnd (p_private_key p) of
            Inl _ \<Rightarrow> Inl (ErrOther ''encryption failed'')
          | Inr enc \<Rightarrow> Inr enc)))"

definition prepare_platform ::
    "lti_env \<Rightarrow> time \<Rightarrow> string \<Rightarrow> (nat \<Rightarrow> nat list option) \<Rightarrow> lti_platform \<Rightarrow> service_err + lti_platform" where
  "prepare_platform V now nid rnd p0 =
     (let p = p0\<lparr>p_issuer := trim_right_set ''/'' (trim_space (p_issuer p0)),
                 p_client_id := trim_space (p_client_id p0)\<rparr>
      in if p_issuer p = [] \<or> p_client_id p = [] then Inl (ErrOther ''issuer and client_id required'')
         else (case check_platform_urls V
                 [p_issuer p, p_keyset_url p, p_auth_token_url p, p_auth_login_url p, p_tool_launch_url p] of
             Some e \<Rightarrow> Inl e
           | None \<Rightarrow> bind_res (protect_private_key V rnd p) (\<lambda>enc.
               Inr (p\<lparr>p_private_key := enc,
                      p_id := (if p_id p = [] then nid else p_id p),
                      p_created_at := (if p_created_at p = zero_time then now else p_created_at p)\<rparr>))))"

definition register_platform ::
    "lti_env \<Rightarrow> gorm \<Rightarrow> time \<Rightarrow> string \<Rightarrow> (nat \<Rightarrow> nat list option) \<Rightarrow> lti_platform \<Rightarrow> db \<Rightarrow>
       (service_err + lti_platform) \<times> db" where
  "register_platform V g now nid rnd p0 d =
     (case prepare_platform V now nid rnd p0 of
        Inl e \<Rightarrow> (Inl e, d)
      | Inr p \<Rightarrow>
          if stmt_fails g 1 then (Inl (ErrStatement 1), d)
          else (case insert_row platform_clash p (lti_platforms d) of
              None \<Rightarrow> (Inl ErrConstraint, d)
            | Some rows \<Rightarrow> (Inr p, d\<lparr>lti_platforms := rows\<rparr>)))"

text \<open>A failing statement of the two look-ups is reported as a missing row.\<close>

definition register_resource_link ::
    "gorm \<Rightarrow> time \<Rightarrow> string \<Rightarrow> lti_resource_link \<Rightarrow> db \<Rightarrow> (service_err + lti_resource_link) \<times> db" where
  "register_resource_link g now nid l d =
     (if trim_space (rl_platform_id l) = [] \<or> trim_space (rl_deployment_id l) = []
         \<or> trim_space (rl_resource_link_id l) = [] \<or> trim_space (rl_delivery_id l) = []
      then (Inl (ErrOther ''mapping fields required''), d)
      else if 36 < length (rl_platform_id l) \<or> 36 < length (rl_delivery_id l)
         \<or> 255 < length (rl_deployment_id l) \<or> 255 < length (rl_resource_link_id l)
      then (Inl (ErrOther ''mapping fields too long''), d)
      else if stmt_fails g 1 \<or> first_by (pk_le g) p_id (\<lambda>p. p_id p = rl_platform_id l) (lti_platforms d) = None
      then (Inl ErrPlatformNotFound, d)
      else if stmt_fails g 2 \<or> first_by (pk_le g) d_id (\<lambda>x. d_id x = rl_delivery_id l) (deliveries d) = None
      then (Inl ErrDeliveryNotFound, d)
      else
        let row = l\<lparr>rl_id := (if rl_id l = [] then nid else rl_id l), rl_created_at := now\<rparr>
        in if stmt_fails g 3 then (Inl (ErrStatement 3), d)
           else (case insert_row resource_link_clash row (lti_resource_links d) of
               None \<Rightarrow> (Inl ErrConstraint, d)
             | Some rows \<Rightarrow> (Inr row, d\<lparr>lti_resource_links := rows\<rparr>)))"

section \<open>OIDC login\<close>

definition find_platform :: "gorm \<Rightarrow> string \<Rightarrow> string \<Rightarrow> db \<Rightarrow> lti_platform option" where
  "find_platform g issuer client d =
     first_by (pk_le g) p_id (\<lambda>p. p_issuer p = issuer \<and> p_client_id p = client) (lti_platforms d)"

definition oidc_state_row ::
    "time \<Rightarrow> string \<Rightarrow> string \<Rightarrow> lti_platform \<Rightarrow> string \<Rightarrow> string \<Rightarrow> lti_oidc_state" where
  "oidc_state_row now st nonce p target hint =
     \<lparr>os_state = st, os_nonce = nonce, os_issuer = p_issuer p, os_client_id = p_client_id p,
      os_target_link_uri = target, os_message_hint = hint, os_expires_at = now + 5 * minute,
      os_used_at = None, os_created_at = now\<rparr>"

text \<open>The best-effort deletion of expired states.\<close>

definition sweep_states :: "gorm \<Rightarrow> nat \<Rightarrow> time \<Rightarrow> db \<Rightarrow> db" where
  "sweep_states g k now d =
     (if stmt_fails g k then d
      else d\<lparr>lti_oidc_states := filter (\<lambda>s. \<not> os_expires_at s < now) (lti_oidc_states d)\<rparr>)"

definition login_query :: "lti_platform \<Rightarrow> string \<Rightarrow> string \<Rightarrow> string \<Rightarrow> string \<Rightarrow> url_values \<Rightarrow> url_values" where
  "login_query p login_hint message_hint st nonce q0 =
     (let q = values_set ''prompt'' ''none''
          (values_set ''nonce'' nonce
          (values_set ''state'' st
          (values_set ''login_hint'' login_hint
          (values_set ''redirect_uri'' (p_tool_launch_url p)
          (values_set ''client_id'' (p_client_id p)
          (values_set ''scope'' ''openid''
          (values_set ''response_mode'' ''form_post''
          (values_set ''response_type'' ''id_token'' q0))))))))
      in if message_hint \<noteq> [] then values_set ''lti_message_hint'' message_hint q else q)"

text \<open>
  A login fails with an error, redirects to a URL, or panics: the stored login URL is parsed again
  with the error ignored, and a URL that does not parse is a nil pointer.
\<close>

datatype login_outcome = LoginFails service_err | LoginPanics | LoginRedirect string

definition login_redirect :: "net \<Rightarrow> lti_platform \<Rightarrow> string \<Rightarrow> string \<Rightarrow> string \<Rightarrow> string \<Rightarrow> login_outcome" where
  "login_redirect N p login_hint message_hint st nonce =
     (case net_url_parse N (p_auth_login_url p) of
        None \<Rightarrow> LoginPanics
      | Some u \<Rightarrow>
          LoginRedirect (net_url_string N
            (u\<lparr>url_raw_query :=
                 values_encode (login_query p login_hint message_hint st nonce (parse_query (url_raw_query u)))\<rparr>)))"

definition initiate_login ::
    "lti_env \<Rightarrow> gorm \<Rightarrow> time \<Rightarrow> string \<Rightarrow> string \<Rightarrow> string \<Rightarrow> string \<Rightarrow> string \<Rightarrow> string \<Rightarrow> string \<Rightarrow> db \<Rightarrow>
       login_outcome \<times> db" where
  "initiate_login V g now st nonce issuer client_id target login_hint message_hint d =
     (if 255 < length issuer \<or> 255 < length client_id \<or> 500 < length target
         \<or> 4096 < length login_hint \<or> 4096 < length message_hint
      then (LoginFails ErrInvalidLTIRequest, d)
      else if stmt_fails g 1 then (LoginFails ErrPlatformNotFound, d)
      else case find_platform g (trim_right_set ''/'' issuer) client_id d of
        None \<Rightarrow> (LoginFails ErrPlatformNotFound, d)
      | Some p \<Rightarrow>
          if trim_space login_hint = [] then (LoginFails ErrInvalidLTIRequest, d)
          else if \<not> same_origin (lv_unicode V) (lv_net V) target (p_tool_launch_url p)
          then (LoginFails ErrInvalidLTIRequest, d)
          else if stmt_fails g 2 then (LoginFails (ErrStatement 2), d)
          else (case insert_row oidc_state_clash (oidc_state_row now st nonce p target message_hint) (lti_oidc_states d) of
              None \<Rightarrow> (LoginFails ErrConstraint, d)
            | Some rows \<Rightarrow>
                (login_redirect (lv_net V) p login_hint message_hint st nonce,
                 sweep_states g 3 now (d\<lparr>lti_oidc_states := rows\<rparr>))))"

section \<open>Registration checked\<close>

lemma validate_url_Inr:
  assumes "validate_url U N p raw = Inr u"
  shows "\<exists>v. net_url_parse N (trim_space raw) = Some v \<and> u = v\<lparr>url_fragment := []\<rparr> \<and> url_scheme u = ''https''
    \<and> url_hostname u \<noteq> [] \<and> \<not> url_has_user u \<and> host_allowed U p (normal_host U (url_hostname u))
    \<and> \<not> local_name (normal_host U (url_hostname u))
    \<and> (case net_parse_ip N (normal_host U (url_hostname u)) of None \<Rightarrow> True | Some ip \<Rightarrow> safe_public_ip ip)"
  using assms
  by (auto simp: validate_url_def Let_def host_allowed_def split: option.splits if_splits)

text \<open>A URL that passes \<open>check_platform_url\<close> is HTTPS to a named, public host.\<close>

definition public_https :: "lti_env \<Rightarrow> string \<Rightarrow> bool" where
  "public_https V raw \<longleftrightarrow>
     (\<exists>u. net_url_parse (lv_net V) (trim_space raw) = Some u \<and> url_scheme u = ''https'' \<and> url_hostname u \<noteq> []
       \<and> \<not> url_has_user u \<and> url_fragment u = [] \<and> \<not> local_name (normal_host (lv_unicode V) (url_hostname u))
       \<and> (case net_parse_ip (lv_net V) (normal_host (lv_unicode V) (url_hostname u)) of
            None \<Rightarrow> True | Some ip \<Rightarrow> safe_public_ip ip))"

lemma check_platform_url_None: "check_platform_url V raw = None \<Longrightarrow> public_https V raw"
  by (auto simp: check_platform_url_def public_https_def parse_https_url_def
      split: option.splits sum.splits if_splits dest!: validate_url_Inr)

lemma check_platform_urls_None: "check_platform_urls V raws = None \<Longrightarrow> \<forall>raw \<in> set raws. public_https V raw"
  by (induction V raws rule: check_platform_urls.induct) (auto split: option.splits dest: check_platform_url_None)

lemma protect_private_key_Inr:
  assumes "protect_private_key V rnd p = Inr enc"
  shows "if p_private_key p = [] then enc = []
    else \<not> prefix ''enc:v1:'' (p_private_key p) \<and> trim_space (p_key_id p) \<noteq> [] \<and> encrypt (lv_cipher V) rnd (p_private_key p) = Inr enc
      \<and> (\<exists>k. parse_rsa_private_key (lv_keys V) (p_private_key p) = Inr k \<and> acceptable_private_key k)"
  using assms
  by (auto simp: protect_private_key_def bind_res_Inr_iff split: if_splits sum.splits)

lemma prepare_platform_Inr:
  assumes "prepare_platform V now nid rnd p0 = Inr p"
  shows "p = p0\<lparr>p_issuer := trim_right_set ''/'' (trim_space (p_issuer p0)), p_client_id := trim_space (p_client_id p0),
        p_private_key := p_private_key p, p_id := (if p_id p0 = [] then nid else p_id p0),
        p_created_at := (if p_created_at p0 = zero_time then now else p_created_at p0)\<rparr>
    \<and> p_issuer p = trim_right_set ''/'' (trim_space (p_issuer p0)) \<and> p_issuer p \<noteq> [] \<and> p_client_id p \<noteq> []
    \<and> list_all (public_https V)
        [p_issuer p, p_keyset_url p, p_auth_token_url p, p_auth_login_url p, p_tool_launch_url p]
    \<and> (if p_private_key p0 = [] then p_private_key p = []
       else \<not> prefix ''enc:v1:'' (p_private_key p0) \<and> trim_space (p_key_id p) \<noteq> [] \<and> encrypt (lv_cipher V) rnd (p_private_key p0) = Inr (p_private_key p)
         \<and> (\<exists>k. parse_rsa_private_key (lv_keys V) (p_private_key p0) = Inr k \<and> acceptable_private_key k))"
proof -
  define q where "q = p0\<lparr>p_issuer := trim_right_set ''/'' (trim_space (p_issuer p0)), p_client_id := trim_space (p_client_id p0)\<rparr>"
  have ne: "p_issuer q \<noteq> []" "p_client_id q \<noteq> []"
    using assms unfolding prepare_platform_def q_def [symmetric] Let_def by (auto split: if_splits)
  with assms have urls: "check_platform_urls V
      [p_issuer q, p_keyset_url q, p_auth_token_url q, p_auth_login_url q, p_tool_launch_url q] = None"
    unfolding prepare_platform_def q_def [symmetric] Let_def by (simp split: option.splits)
  from assms ne urls obtain enc where enc: "protect_private_key V rnd q = Inr enc"
    and p: "p = q\<lparr>p_private_key := enc, p_id := (if p_id q = [] then nid else p_id q),
      p_created_at := (if p_created_at q = zero_time then now else p_created_at q)\<rparr>"
    unfolding prepare_platform_def q_def [symmetric] Let_def by (auto simp: bind_res_Inr_iff)
  have "p_private_key q = p_private_key p0" by (simp add: q_def)
  note key = protect_private_key_Inr [OF enc, unfolded this]
  then have "if p_private_key p0 = [] then p_private_key p = []
      else \<not> prefix ''enc:v1:'' (p_private_key p0) \<and> trim_space (p_key_id p) \<noteq> [] \<and> encrypt (lv_cipher V) rnd (p_private_key p0) = Inr (p_private_key p)
         \<and> (\<exists>k. parse_rsa_private_key (lv_keys V) (p_private_key p0) = Inr k \<and> acceptable_private_key k)"
    by (auto simp: p split: if_splits)
  moreover have "list_all (public_https V)
      [p_issuer p, p_keyset_url p, p_auth_token_url p, p_auth_login_url p, p_tool_launch_url p]"
    using check_platform_urls_None [OF urls] by (simp add: p)
  moreover have "p_issuer p = p_issuer q" "p_client_id p = p_client_id q" by (simp_all add: p)
  moreover have "p = p0\<lparr>p_issuer := trim_right_set ''/'' (trim_space (p_issuer p0)), p_client_id := trim_space (p_client_id p0),
        p_private_key := p_private_key p, p_id := (if p_id p0 = [] then nid else p_id p0),
        p_created_at := (if p_created_at p0 = zero_time then now else p_created_at p0)\<rparr>"
    by (simp add: p q_def)
  ultimately show ?thesis using ne by (simp add: q_def)
qed

lemma rem_int_2: "0 \<le> e \<Longrightarrow> rem_int e 2 = e mod 2"
  by (cases "e = 0") (simp_all add: rem_int_def quot_int_def minus_mult_div_eq_mod)

lemma register_platform_Inr:
  "register_platform V g now nid rnd p0 d = (Inr p, d') \<Longrightarrow>
     prepare_platform V now nid rnd p0 = Inr p \<and> (\<forall>q \<in> set (lti_platforms d). \<not> platform_clash p q)
     \<and> d' = d\<lparr>lti_platforms := lti_platforms d @ [p]\<rparr>"
  by (auto simp: register_platform_def db_simps split: sum.splits if_splits option.splits)

lemma register_platform_Inl: "register_platform V g now nid rnd p0 d = (Inl e, d') \<Longrightarrow> d' = d"
  by (auto simp: register_platform_def split: sum.splits if_splits option.splits)

lemma encrypt_prefix: "encrypt ca rnd s = Inr enc \<Longrightarrow> prefix ''enc:v1:'' enc"
  by (auto simp: encrypt_def encrypted_prefix_def split: option.splits)

text \<open>
  Claim C25: the registration of a platform.  A successful registration appends one row and nothing
  else: the submitted platform with its issuer and client trimmed, its private key replaced, and an
  identifier and a creation time where it has none.  Issuer and client are not empty and not those of
  another platform; all five URLs are HTTPS, without user information or fragment, to hosts that are
  no local name and no internal address; and a private key is stored only under a key identifier and
  as its ciphertext, after it has been parsed as an RSA key of 2048 to 8192 bits with an odd exponent
  of at least 3.  A failed one changes nothing.
\<close>
theorem platform_registration:
  shows "case register_platform V g now nid rnd p0 d of
      (Inl _, d') \<Rightarrow> d' = d
    | (Inr p, d') \<Rightarrow>
        d' = d\<lparr>lti_platforms := lti_platforms d @ [p]\<rparr>
        \<and> \<not> list_ex (\<lambda>q. p_id q = p_id p \<or> p_issuer q = p_issuer p \<and> p_client_id q = p_client_id p) (lti_platforms d)
        \<and> p = p0\<lparr>p_issuer := trim_right_set ''/'' (trim_space (p_issuer p0)), p_client_id := trim_space (p_client_id p0),
              p_private_key := p_private_key p, p_id := (if p_id p0 = [] then nid else p_id p0),
              p_created_at := (if p_created_at p0 = zero_time then now else p_created_at p0)\<rparr>
        \<and> p_issuer p = trim_right_set ''/'' (trim_space (p_issuer p0)) \<and> p_issuer p \<noteq> []
        \<and> p_client_id p = trim_space (p_client_id p0) \<and> p_client_id p \<noteq> []
        \<and> list_all (public_https V)
            [p_issuer p, p_keyset_url p, p_auth_token_url p, p_auth_login_url p, p_tool_launch_url p]
        \<and> (if p_private_key p0 = [] then p_private_key p = []
           else trim_space (p_key_id p) \<noteq> [] \<and> encrypt (lv_cipher V) rnd (p_private_key p0) = Inr (p_private_key p)
             \<and> prefix ''enc:v1:'' (p_private_key p)
             \<and> (\<exists>k. parse_rsa_private_key (lv_keys V) (p_private_key p0) = Inr k
                  \<and> 2048 \<le> bit_len (int (pk_modulus k)) \<and> bit_len (int (pk_modulus k)) \<le> 8192
                  \<and> 3 \<le> pk_exponent k \<and> odd (pk_exponent k)))"
proof -
  have odd: "odd e" if "rem_int e 2 \<noteq> 0" "3 \<le> e" for e :: int
    using that by (auto simp: rem_int_2)
  show ?thesis
  proof (cases "register_platform V g now nid rnd p0 d")
    case (Pair r d')
    show ?thesis
    proof (cases r)
      case (Inl e)
      with Pair show ?thesis by (auto dest: register_platform_Inl)
    next
      case (Inr p)
      with Pair have r: "register_platform V g now nid rnd p0 d = (Inr p, d')" by simp
      from register_platform_Inr [OF r] have
        prep: "prepare_platform V now nid rnd p0 = Inr p" and d': "d' = d\<lparr>lti_platforms := lti_platforms d @ [p]\<rparr>"
        and new: "\<forall>q \<in> set (lti_platforms d). \<not> platform_clash p q" by simp_all
      note parts = prepare_platform_Inr [OF prep]
      have clients: "\<not> list_ex (\<lambda>q. p_id q = p_id p \<or> p_issuer q = p_issuer p \<and> p_client_id q = p_client_id p) (lti_platforms d)"
        using new by (auto simp: list_ex_iff clash_on_def)
      have client: "p_client_id p = trim_space (p_client_id p0)"
        using arg_cong [OF conjunct1 [OF parts], of p_client_id] by simp
      have bounds: "2048 \<le> bit_len (int (pk_modulus k)) \<and> bit_len (int (pk_modulus k)) \<le> 8192
          \<and> 3 \<le> pk_exponent k \<and> odd (pk_exponent k)" if "acceptable_private_key k" for k
        using that odd [of "pk_exponent k"] by (auto simp: acceptable_private_key_def)
      from parts have "if p_private_key p0 = [] then p_private_key p = []
        else trim_space (p_key_id p) \<noteq> [] \<and> encrypt (lv_cipher V) rnd (p_private_key p0) = Inr (p_private_key p)
          \<and> (\<exists>k. parse_rsa_private_key (lv_keys V) (p_private_key p0) = Inr k \<and> acceptable_private_key k)"
        by (auto split: if_splits)
      then have key: "if p_private_key p0 = [] then p_private_key p = []
        else trim_space (p_key_id p) \<noteq> [] \<and> encrypt (lv_cipher V) rnd (p_private_key p0) = Inr (p_private_key p)
          \<and> prefix ''enc:v1:'' (p_private_key p)
          \<and> (\<exists>k. parse_rsa_private_key (lv_keys V) (p_private_key p0) = Inr k
               \<and> 2048 \<le> bit_len (int (pk_modulus k)) \<and> bit_len (int (pk_modulus k)) \<le> 8192
               \<and> 3 \<le> pk_exponent k \<and> odd (pk_exponent k))"
        using bounds encrypt_prefix by (simp split: if_split_asm) blast
      show ?thesis
        unfolding r by (simp only: prod.case sum.case) (use d' clients client key parts in blast)
    qed
  qed
qed

section \<open>Logins\<close>

lemma login_query_get:
  "values_get (login_query p login_hint message_hint st nonce q0) ''response_type'' = ''id_token''"
  "values_get (login_query p login_hint message_hint st nonce q0) ''client_id'' = p_client_id p"
  "values_get (login_query p login_hint message_hint st nonce q0) ''redirect_uri'' = p_tool_launch_url p"
  "values_get (login_query p login_hint message_hint st nonce q0) ''login_hint'' = login_hint"
  "values_get (login_query p login_hint message_hint st nonce q0) ''state'' = st"
  "values_get (login_query p login_hint message_hint st nonce q0) ''nonce'' = nonce"
  unfolding login_query_def Let_def by (simp_all add: values_get_set)

lemma wf_login_query: "wf_values q0 \<Longrightarrow> wf_values (login_query p login_hint message_hint st nonce q0)"
  unfolding login_query_def Let_def by (simp add: wf_values_set)

text \<open>A request that reaches the insertion of its state.\<close>

lemma initiate_login_inserts:
  assumes "initiate_login V g now st nonce issuer client_id target login_hint message_hint d = (out, d')"
    and "\<forall>e. out \<noteq> LoginFails e"
  obtains p where "find_platform g (trim_right_set ''/'' issuer) client_id d = Some p"
    "same_origin (lv_unicode V) (lv_net V) target (p_tool_launch_url p)"
    "\<forall>s \<in> set (lti_oidc_states d). os_state s \<noteq> st"
    "out = login_redirect (lv_net V) p login_hint message_hint st nonce"
    "d' = sweep_states g 3 now
       (d\<lparr>lti_oidc_states := lti_oidc_states d @ [oidc_state_row now st nonce p target message_hint]\<rparr>)"
proof -
  obtain p where p: "find_platform g (trim_right_set ''/'' issuer) client_id d = Some p"
    using assms by (cases "find_platform g (trim_right_set ''/'' issuer) client_id d")
      (auto simp: initiate_login_def split: if_splits)
  let ?row = "oidc_state_row now st nonce p target message_hint"
  obtain rows where rows: "insert_row oidc_state_clash ?row (lti_oidc_states d) = Some rows"
    using assms p by (cases "insert_row oidc_state_clash ?row (lti_oidc_states d)")
      (auto simp: initiate_login_def split: if_splits)
  have "same_origin (lv_unicode V) (lv_net V) target (p_tool_launch_url p)
      \<and> out = login_redirect (lv_net V) p login_hint message_hint st nonce
      \<and> d' = sweep_states g 3 now (d\<lparr>lti_oidc_states := rows\<rparr>)"
    using assms p rows by (auto simp: initiate_login_def split: if_splits)
  moreover have "(\<forall>s \<in> set (lti_oidc_states d). os_state s \<noteq> st) \<and> rows = lti_oidc_states d @ [?row]"
    using rows unfolding insert_row_Some clash_on_def by (auto simp: oidc_state_row_def)
  ultimately show thesis using p by (intro that) simp_all
qed

lemma sweep_states_keeps:
  assumes "s \<in> set (lti_oidc_states d)" and "\<not> os_expires_at s < now"
  shows "s \<in> set (lti_oidc_states (sweep_states g k now d))"
  using assms by (simp add: sweep_states_def)

lemma find_platform_Some:
  "find_platform g issuer client d = Some p \<Longrightarrow> p \<in> set (lti_platforms d) \<and> p_issuer p = issuer \<and> p_client_id p = client"
  by (auto simp: find_platform_def dest: first_by_Some)

text \<open>
  Claim C27: starting a login.  A login that redirects stores, for a registered platform of the issuer
  and client, a state that has not been used and expires in five minutes, for a target of the
  tool's origin; states that have not expired are kept and no other table changes; and the
  platform that decodes the query of the URL reads exactly this state, its nonce, the client, the
  registered launch URL and the login hint.
\<close>
theorem login_redirects_with_state:
  assumes "initiate_login V g now st nonce issuer client_id target login_hint message_hint d = (LoginRedirect url, d')"
  shows "\<exists>p u q s. p \<in> set (lti_platforms d) \<and> p_issuer p = trim_right_set ''/'' issuer \<and> p_client_id p = client_id
    \<and> same_origin (lv_unicode V) (lv_net V) target (p_tool_launch_url p)
    \<and> s \<in> set (lti_oidc_states d') \<and> os_state s = st \<and> os_nonce s = nonce \<and> os_used_at s = None
    \<and> os_issuer s = p_issuer p \<and> os_client_id s = client_id \<and> os_target_link_uri s = target
    \<and> os_expires_at s = now + 300 * second
    \<and> filter (\<lambda>s. now \<le> os_expires_at s) (lti_oidc_states d)
        = filter (\<lambda>s. now \<le> os_expires_at s \<and> os_state s \<noteq> st) (lti_oidc_states d')
    \<and> d' = d\<lparr>lti_oidc_states := lti_oidc_states d'\<rparr>
    \<and> net_url_parse (lv_net V) (p_auth_login_url p) = Some u
    \<and> url = net_url_string (lv_net V) (u\<lparr>url_raw_query := q\<rparr>)
    \<and> map (values_get (parse_query q)) [''response_type'', ''state'', ''nonce'', ''client_id'', ''redirect_uri'', ''login_hint'']
        = [''id_token'', st, nonce, client_id, p_tool_launch_url p, login_hint]"
proof -
  have nf: "\<forall>e. LoginRedirect url \<noteq> LoginFails e" by simp
  obtain p where p: "find_platform g (trim_right_set ''/'' issuer) client_id d = Some p"
    "same_origin (lv_unicode V) (lv_net V) target (p_tool_launch_url p)"
    and fresh: "\<forall>s \<in> set (lti_oidc_states d). os_state s \<noteq> st"
    and out: "LoginRedirect url = login_redirect (lv_net V) p login_hint message_hint st nonce"
    and d': "d' = sweep_states g 3 now
       (d\<lparr>lti_oidc_states := lti_oidc_states d @ [oidc_state_row now st nonce p target message_hint]\<rparr>)"
    by (rule initiate_login_inserts [OF assms nf])
  let ?s = "oidc_state_row now st nonce p target message_hint"
  from out obtain u where u: "net_url_parse (lv_net V) (p_auth_login_url p) = Some u"
    and url: "url = net_url_string (lv_net V) (u\<lparr>url_raw_query :=
       values_encode (login_query p login_hint message_hint st nonce (parse_query (url_raw_query u)))\<rparr>)"
    by (auto simp: login_redirect_def split: option.splits)
  let ?q = "values_encode (login_query p login_hint message_hint st nonce (parse_query (url_raw_query u)))"
  have "map (values_get (parse_query ?q)) [''response_type'', ''state'', ''nonce'', ''client_id'', ''redirect_uri'', ''login_hint'']
      = [''id_token'', st, nonce, p_client_id p, p_tool_launch_url p, login_hint]"
    by (simp add: values_get_round_trip [OF wf_login_query [OF wf_parse_query]] login_query_get)
  moreover have "?s \<in> set (lti_oidc_states d')"
    unfolding d' by (rule sweep_states_keeps) (simp_all add: oidc_state_row_def minute_def second_def)
  moreover have "filter (\<lambda>s. now \<le> os_expires_at s) (lti_oidc_states d)
      = filter (\<lambda>s. now \<le> os_expires_at s \<and> os_state s \<noteq> st) (lti_oidc_states d')"
    using fresh by (auto simp: d' sweep_states_def oidc_state_row_def not_less intro!: filter_cong)
  moreover have "d' = d\<lparr>lti_oidc_states := lti_oidc_states d'\<rparr>"
    by (simp add: d' sweep_states_def)
  moreover have "p \<in> set (lti_platforms d) \<and> p_issuer p = trim_right_set ''/'' issuer \<and> p_client_id p = client_id"
    using p(1) by (rule find_platform_Some)
  moreover have "os_expires_at ?s = now + 300 * second" by (simp add: oidc_state_row_def minute_def second_def)
  ultimately show ?thesis
    using u url p(2)
    by (intro exI [of _ p] exI [of _ u] exI [of _ ?q] exI [of _ ?s]) (simp add: oidc_state_row_def)
qed

text \<open>
  A registered login URL can make every login panic.  Registration validates the login URL
  after trimming it but stores it as submitted; when the stored string does not parse by itself
  (as with a leading blank), a login for that platform that passes all checks panics, after its state
  has been stored.
\<close>
theorem registered_login_url_panics:
  assumes "register_platform V g now nid rnd p0 d = (Inr p, d1)"
    and "net_url_parse (lv_net V) (p_auth_login_url p0) = None"
    and "length (p_issuer p) \<le> 255" "length (p_client_id p) \<le> 255" "length target \<le> 500"
    and "length login_hint \<le> 4096" "length message_hint \<le> 4096"
    and "\<not> stmt_fails g2 1" "\<not> stmt_fails g2 2"
    and "trim_space login_hint \<noteq> []" "same_origin (lv_unicode V) (lv_net V) target (p_tool_launch_url p)"
    and "\<forall>s \<in> set (lti_oidc_states d1). os_state s \<noteq> st"
  shows "\<exists>d2. initiate_login V g2 t st nonce (p_issuer p) (p_client_id p) target login_hint message_hint d1 = (LoginPanics, d2)
    \<and> oidc_state_row t st nonce p target message_hint \<in> set (lti_oidc_states d2)"
proof -
  from register_platform_Inr [OF assms(1)] have prep: "prepare_platform V now nid rnd p0 = Inr p"
    and new: "\<forall>q \<in> set (lti_platforms d). \<not> platform_clash p q"
    and d1: "d1 = d\<lparr>lti_platforms := lti_platforms d @ [p]\<rparr>" by simp_all
  have "p_auth_login_url p = p_auth_login_url p0" "trim_right_set ''/'' (p_issuer p) = p_issuer p"
    using prep by (auto simp: prepare_platform_def Let_def bind_res_Inr_iff split: if_splits option.splits)
  moreover have "filter (\<lambda>q. p_issuer q = p_issuer p \<and> p_client_id q = p_client_id p) (lti_platforms d) = []"
    using new by (auto simp: filter_empty_conv clash_on_def)
  then have "find_platform g2 (p_issuer p) (p_client_id p) d1 = Some p"
    by (simp add: find_platform_def first_by_def d1)
  moreover have "insert_row oidc_state_clash (oidc_state_row t st nonce p target message_hint) (lti_oidc_states d1)
      = Some (lti_oidc_states d1 @ [oidc_state_row t st nonce p target message_hint])"
    using assms(12) by (auto simp: insert_row_Some clash_on_def oidc_state_row_def)
  ultimately have run: "initiate_login V g2 t st nonce (p_issuer p) (p_client_id p) target login_hint message_hint d1 =
      (LoginPanics, sweep_states g2 3 t
         (d1\<lparr>lti_oidc_states := lti_oidc_states d1 @ [oidc_state_row t st nonce p target message_hint]\<rparr>))"
    using assms(2-11) by (simp add: initiate_login_def login_redirect_def not_less)
  have "oidc_state_row t st nonce p target message_hint \<in> set (lti_oidc_states (sweep_states g2 3 t
         (d1\<lparr>lti_oidc_states := lti_oidc_states d1 @ [oidc_state_row t st nonce p target message_hint]\<rparr>)))"
    by (rule sweep_states_keeps) (simp_all add: oidc_state_row_def minute_def second_def)
  with run show ?thesis by blast
qed

end
