(* ===== verification/LtiKeys.thy ===== *)
theory LtiKeys
  imports Lti Http
begin

text \<open>
  The platform keys of \<open>internal/service/lti_service.go\<close>: the key identifier of an unverified token, the
  conversion of a JWK, and the lookup of a signing key through the cache of key sets.  What the JSON
  decoder and the HTTP exchange answer are parameters (\<open>lti_io\<close>); an exchange that fails is \<open>None\<close>.
\<close>

section \<open>Requests and tokens\<close>

record lti_request =
  lq_method :: string
  lq_url :: string
  lq_headers :: "(string \<times> string) list"
  lq_body :: string

record jwk =
  jk_kty :: string
  jk_kid :: string
  jk_use :: string
  jk_alg :: string
  jk_n :: string
  jk_e :: string

record lti_io =
  io_http :: "lti_request \<Rightarrow> (int \<times> request_body) option"
  io_new_request_ok :: "string \<Rightarrow> bool"
  io_jwks :: "string \<Rightarrow> jwk list option"
  io_access_token :: "string \<Rightarrow> string option"

record token_header =
  th_alg :: string
  th_kid :: "string option"

text \<open>\<open>tokenKeyID\<close>, given what the unverified parse of the token's header yields.\<close>

definition token_key_id :: "token_header option \<Rightarrow> string option" where
  "token_key_id h =
     (case h of
        None \<Rightarrow> None
      | Some header \<Rightarrow>
          (case th_kid header of
             None \<Rightarrow> None
           | Some kid \<Rightarrow> if kid = [] \<or> th_alg header \<noteq> ''RS256'' then None else Some kid))"

section \<open>JWKs\<close>

definition rsa_key :: "string \<Rightarrow> string \<Rightarrow> rsa_public_key option" where
  "rsa_key encoded_n encoded_e =
     (if 1368 < length encoded_n then None
      else case raw_url_decode encoded_n of
        None \<Rightarrow> None
      | Some n_bytes \<Rightarrow>
          if n_bytes = [] then None
          else (case raw_url_decode encoded_e of
              None \<Rightarrow> None
            | Some e_bytes \<Rightarrow>
                if e_bytes = [] \<or> 4 < length e_bytes then None
                else
                  let exponent = int (bytes_value 0 e_bytes); modulus = bytes_value 0 n_bytes
                  in if bit_len (int modulus) < 2048 \<or> 8192 < bit_len (int modulus)
                        \<or> exponent < 3 \<or> rem_int exponent 2 = 0
                     then None
                     else Some \<lparr>rp_modulus = modulus, rp_exponent = exponent\<rparr>))"

definition usable_jwk :: "jwk \<Rightarrow> bool" where
  "usable_jwk j \<longleftrightarrow>
     \<not> (jk_kty j \<noteq> ''RSA'' \<or> jk_kid j = [] \<or> (jk_alg j \<noteq> [] \<and> jk_alg j \<noteq> ''RS256'')
        \<or> (jk_use j \<noteq> [] \<and> jk_use j \<noteq> ''sig''))"

text \<open>The loop over the key set; a later key replaces an earlier one of the same identifier.\<close>

fun collect_keys :: "jwk list \<Rightarrow> (string \<times> rsa_public_key) list \<Rightarrow> (string \<times> rsa_public_key) list" where
  "collect_keys [] keys = keys"
| "collect_keys (j # js) keys =
     (if \<not> usable_jwk j then collect_keys js keys
      else (case rsa_key (jk_n j) (jk_e j) of
          None \<Rightarrow> collect_keys js keys
        | Some key \<Rightarrow> collect_keys js (AList.update (jk_kid j) key keys)))"

section \<open>The cache\<close>

record cached_key_set =
  ck_keys :: "(string \<times> rsa_public_key) list"
  ck_expires_at :: time

type_synonym jwks_cache = "(string \<times> cached_key_set) list"

definition jwks_request :: "string \<Rightarrow> lti_request" where
  "jwks_request target = \<lparr>lq_method = ''GET'', lq_url = target, lq_headers = [], lq_body = []\<rparr>"

text \<open>Fetching the key set of a URL; the error texts only reach the log.\<close>

definition fetch_response :: "lti_env \<Rightarrow> lti_io \<Rightarrow> string \<Rightarrow> request_body option" where
  "fetch_response V io raw =
     (let U = lv_unicode V; N = lv_net V
      in case safe_client U N raw (hostnames U N [raw]) of
        Inl _ \<Rightarrow> None
      | Inr policy \<Rightarrow>
          (case validate_url U N policy raw of
             Inl _ \<Rightarrow> None
           | Inr u \<Rightarrow>
               let target = net_url_string N u
               in if \<not> io_new_request_ok io target then None
                  else (case io_http io (jwks_request target) of
                      None \<Rightarrow> None
                    | Some (status, body) \<Rightarrow> if status \<noteq> 200 then None else Some body)))"

definition parse_key_set :: "lti_io \<Rightarrow> request_body \<Rightarrow> (string \<times> rsa_public_key) list option" where
  "parse_key_set io body =
     (case read_limited (2 ^ 20) body of
        None \<Rightarrow> None
      | Some text \<Rightarrow>
          if 2 ^ 20 < length text then None
          else (case io_jwks io text of
              None \<Rightarrow> None
            | Some keys \<Rightarrow> if 100 < length keys then None else Some (collect_keys keys [])))"

definition fetch_key_set :: "lti_env \<Rightarrow> lti_io \<Rightarrow> string \<Rightarrow> (string \<times> rsa_public_key) list option" where
  "fetch_key_set V io raw =
     (case fetch_response V io raw of None \<Rightarrow> None | Some body \<Rightarrow> parse_key_set io body)"

text \<open>\<open>now1\<close> is the clock at the look-up, \<open>now2\<close> the clock when a fetched set is stored.\<close>

definition signing_key ::
    "lti_env \<Rightarrow> lti_io \<Rightarrow> time \<Rightarrow> time \<Rightarrow> string \<Rightarrow> string \<Rightarrow> jwks_cache \<Rightarrow> rsa_public_key option \<times> jwks_cache" where
  "signing_key V io now1 now2 raw kid cache =
     (case (case map_of cache raw of
              None \<Rightarrow> None | Some c \<Rightarrow> if now1 < ck_expires_at c then Some c else None) of
        Some c \<Rightarrow> (map_of (ck_keys c) kid, cache)
      | None \<Rightarrow>
          (case fetch_key_set V io raw of
             None \<Rightarrow> (None, cache)
           | Some keys \<Rightarrow>
               (map_of keys kid,
                AList.update raw \<lparr>ck_keys = keys, ck_expires_at = now2 + 15 * minute\<rparr> cache)))"

section \<open>Which keys are used\<close>

text \<open>A key that may verify a token: a modulus of 2048 to 8192 bits and an odd exponent.\<close>

definition strong_key :: "rsa_public_key \<Rightarrow> bool" where
  "strong_key k \<longleftrightarrow>
     2048 \<le> bit_len (int (rp_modulus k)) \<and> bit_len (int (rp_modulus k)) \<le> 8192
     \<and> 3 \<le> rp_exponent k \<and> rp_exponent k < 2 ^ 32 \<and> odd (rp_exponent k)"

definition cache_strong :: "jwks_cache \<Rightarrow> bool" where
  "cache_strong cache \<longleftrightarrow>
     (\<forall>raw c kid k. map_of cache raw = Some c \<longrightarrow> map_of (ck_keys c) kid = Some k \<longrightarrow> kid \<noteq> [] \<and> strong_key k)"

lemma cache_strong_empty: "cache_strong []"
  by (simp add: cache_strong_def)

lemma url_sextet_bound: "url_sextet c = Some n \<Longrightarrow> n < 64"
  by (auto simp: url_sextet_def char_sextet_def Let_def split: if_splits)

lemma sextets_bound: "sextets url_sextet s = Some ns \<Longrightarrow> \<forall>n \<in> set ns. n < 64"
  by (induction s arbitrary: ns) (auto split: option.splits dest: url_sextet_bound)

lemma decode_sextets_bytes: "decode_sextets ns = Some bs \<Longrightarrow> \<forall>n \<in> set ns. n < 64 \<Longrightarrow> \<forall>b \<in> set bs. b < 256"
proof (induction ns arbitrary: bs rule: decode_sextets.induct)
  case (5 p q r t xs)
  have "p * 4 + q div 16 < 256" "q mod 16 * 16 + r div 4 < 256" "r mod 4 * 64 + t < 256"
    using "5.prems"(2) by auto
  with 5 show ?case by auto
qed auto

lemma raw_url_decode_bytes: "raw_url_decode s = Some bs \<Longrightarrow> \<forall>b \<in> set bs. b < 256"
  by (auto simp: raw_url_decode_def bind_eq_Some_conv dest!: sextets_bound decode_sextets_bytes)

lemma rsa_key_strong:
  assumes "rsa_key n e = Some k"
  shows "strong_key k"
proof -
  from assms obtain eb nb where eb: "raw_url_decode e = Some eb" "length eb \<le> 4"
    and k: "k = \<lparr>rp_modulus = bytes_value 0 nb, rp_exponent = int (bytes_value 0 eb)\<rparr>"
    and ok: "\<not> (bit_len (int (bytes_value 0 nb)) < 2048 \<or> 8192 < bit_len (int (bytes_value 0 nb))
        \<or> int (bytes_value 0 eb) < 3 \<or> rem_int (int (bytes_value 0 eb)) 2 = 0)"
    by (auto simp: rsa_key_def Let_def not_less split: option.splits if_splits)
  have "bytes_value 0 eb < 256 ^ length eb"
    using bytes_value_bound [OF raw_url_decode_bytes [OF eb(1)], of 0] by simp
  also have "(256 :: nat) ^ length eb \<le> 256 ^ 4" using eb(2) by (intro power_increasing) simp_all
  finally have "int (bytes_value 0 eb) < 2 ^ 32" by simp
  with ok k show ?thesis by (auto simp: strong_key_def rem_int_2)
qed

lemma collect_keys_strong:
  "map_of (collect_keys js keys) kid = Some k \<Longrightarrow>
     map_of keys kid = Some k \<or>
     (\<exists>j \<in> set js. usable_jwk j \<and> jk_kid j = kid \<and> rsa_key (jk_n j) (jk_e j) = Some k)"
  by (induction js keys rule: collect_keys.induct)
    (auto simp: update_conv' split: if_splits option.splits)

lemma parse_key_set_Some:
  assumes "parse_key_set io body = Some keys"
  shows "\<exists>js. keys = collect_keys js []"
proof -
  obtain tx where t: "read_limited (2 ^ 20) body = Some tx"
    using assms by (cases "read_limited (2 ^ 20) body") (simp_all add: parse_key_set_def)
  obtain js where j: "io_jwks io tx = Some js"
    using assms t by (cases "io_jwks io tx") (simp_all add: parse_key_set_def split: if_split_asm)
  have "keys = collect_keys js []"
    using assms t j by (simp add: parse_key_set_def split: if_split_asm)
  then show ?thesis ..
qed

lemma fetched_keys_strong:
  assumes "fetch_key_set V io raw = Some keys" and "map_of keys kid = Some k"
  shows "kid \<noteq> [] \<and> strong_key k"
proof -
  from assms(1) obtain js where "keys = collect_keys js []"
    by (auto simp: fetch_key_set_def dest: parse_key_set_Some split: option.splits)
  with assms(2) have "map_of (collect_keys js []) kid = Some k" by simp
  from collect_keys_strong [OF this] obtain j where
    "usable_jwk j" "jk_kid j = kid" "rsa_key (jk_n j) (jk_e j) = Some k" by auto
  then show ?thesis using rsa_key_strong by (auto simp: usable_jwk_def)
qed

lemma signing_key_cases:
  assumes "signing_key V io now1 now2 raw kid cache = (res, cache')"
  obtains (cached) c where "map_of cache raw = Some c" "now1 < ck_expires_at c" "res = map_of (ck_keys c) kid" "cache' = cache"
  | (failed) "fetch_key_set V io raw = None" "res = None" "cache' = cache"
  | (fetched) keys where "fetch_key_set V io raw = Some keys" "res = map_of keys kid"
      "cache' = AList.update raw \<lparr>ck_keys = keys, ck_expires_at = now2 + 15 * minute\<rparr> cache"
proof (cases "case map_of cache raw of None \<Rightarrow> None | Some c \<Rightarrow> if now1 < ck_expires_at c then Some c else None")
  case None
  with assms show thesis
    by (cases "fetch_key_set V io raw") (simp_all add: signing_key_def failed fetched)
next
  case (Some c)
  then have "map_of cache raw = Some c" "now1 < ck_expires_at c" by (auto split: option.splits if_splits)
  with assms Some show thesis by (intro cached) (auto simp: signing_key_def)
qed

lemma signing_key_keeps_strong:
  assumes "cache_strong cache" and "signing_key V io now1 now2 raw kid cache = (res, cache')"
  shows "cache_strong cache' \<and> (\<forall>k. res = Some k \<longrightarrow> kid \<noteq> [] \<and> strong_key k)"
  using assms(2)
proof (cases rule: signing_key_cases)
  case (cached c)
  with assms(1) show ?thesis by (auto simp: cache_strong_def)
next
  case failed
  with assms(1) show ?thesis by simp
next
  case (fetched keys)
  with assms(1) show ?thesis
    by (auto simp: cache_strong_def update_conv' dest: fetched_keys_strong split: if_splits)
qed

section \<open>Where the keys come from\<close>

text \<open>
  What a platform has answered, stated from the exchange alone and not from the code that fetches:
  the GET request for this URL was answered with status 200 and a JSON key set that lists an RSA key of
  this identifier, whose modulus and exponent are the big-endian numbers its two members encode.
\<close>

definition answered_key :: "lti_env \<times> lti_io \<Rightarrow> string \<Rightarrow> string \<Rightarrow> rsa_public_key \<Rightarrow> bool" where
  "answered_key A raw kid key \<longleftrightarrow>
     (\<exists>u body js j n e. net_url_parse (lv_net (fst A)) (trim_space raw) = Some u \<and> url_scheme u = ''https''
        \<and> io_http (snd A) \<lparr>lq_method = ''GET'', lq_url = net_url_string (lv_net (fst A)) (u\<lparr>url_fragment := []\<rparr>),
             lq_headers = [], lq_body = []\<rparr> = Some (200, body)
        \<and> \<not> body_breaks body \<and> io_jwks (snd A) (body_bytes body) = Some js
        \<and> j \<in> set js \<and> jk_kty j = ''RSA'' \<and> jk_kid j = kid
        \<and> raw_url_decode (jk_n j) = Some n \<and> raw_url_decode (jk_e j) = Some e
        \<and> key = \<lparr>rp_modulus = bytes_value 0 n, rp_exponent = int (bytes_value 0 e)\<rparr>)"

text \<open>Every key of the cache was answered, by one of these exchanges, for the URL it is cached under.\<close>

definition cache_from :: "(lti_env \<times> lti_io) set \<Rightarrow> jwks_cache \<Rightarrow> bool" where
  "cache_from As cache \<longleftrightarrow>
     (\<forall>raw c kid key. map_of cache raw = Some c \<longrightarrow> map_of (ck_keys c) kid = Some key \<longrightarrow>
        (\<exists>A \<in> As. answered_key A raw kid key))"

lemma cache_from_empty: "cache_from As []"
  by (simp add: cache_from_def)

lemma rsa_key_Some:
  "rsa_key n e = Some key \<Longrightarrow> \<exists>nb eb. raw_url_decode n = Some nb \<and> raw_url_decode e = Some eb
     \<and> key = \<lparr>rp_modulus = bytes_value 0 nb, rp_exponent = int (bytes_value 0 eb)\<rparr>"
  by (auto simp: rsa_key_def Let_def split: option.splits if_splits)

lemma read_limited_whole:
  "read_limited n b = Some tx \<Longrightarrow> int (length tx) \<le> n \<Longrightarrow> tx = body_bytes b \<and> \<not> body_breaks b"
  by (auto simp: read_limited_def split: if_splits)

lemma fetch_response_Some:
  assumes "fetch_response V io raw = Some body"
  obtains u where "net_url_parse (lv_net V) (trim_space raw) = Some u" "url_scheme u = ''https''"
    "io_http io (jwks_request (net_url_string (lv_net V) (u\<lparr>url_fragment := []\<rparr>))) = Some (200, body)"
  using assms
  by (auto simp: fetch_response_def validate_url_def Let_def split: sum.splits option.splits if_splits prod.splits)

lemma parse_key_set_jwks:
  assumes "parse_key_set io body = Some keys"
  obtains js where "io_jwks io (body_bytes body) = Some js" "\<not> body_breaks body" "keys = collect_keys js []"
proof -
  obtain tx where t: "read_limited (2 ^ 20) body = Some tx"
    using assms by (cases "read_limited (2 ^ 20) body") (simp_all add: parse_key_set_def)
  have "int (length tx) \<le> 2 ^ 20" using assms t by (simp add: parse_key_set_def split: if_split_asm)
  from read_limited_whole [OF t this] have whole: "tx = body_bytes body" "\<not> body_breaks body" by auto
  obtain js where j: "io_jwks io tx = Some js"
    using assms t by (cases "io_jwks io tx") (simp_all add: parse_key_set_def split: if_split_asm)
  have "keys = collect_keys js []" using assms t j by (simp add: parse_key_set_def split: if_split_asm)
  with j whole show thesis by (intro that) auto
qed

lemma fetched_keys_answered:
  assumes "fetch_key_set V io raw = Some keys" and "map_of keys kid = Some key"
  shows "answered_key (V, io) raw kid key"
proof -
  obtain body where body: "fetch_response V io raw = Some body" "parse_key_set io body = Some keys"
    using assms(1) by (auto simp: fetch_key_set_def split: option.splits)
  from body(1) obtain u where u: "net_url_parse (lv_net V) (trim_space raw) = Some u" "url_scheme u = ''https''"
    "io_http io (jwks_request (net_url_string (lv_net V) (u\<lparr>url_fragment := []\<rparr>))) = Some (200, body)"
    by (rule fetch_response_Some)
  from body(2) obtain js where js: "io_jwks io (body_bytes body) = Some js" "\<not> body_breaks body"
    and keys: "keys = collect_keys js []"
    by (rule parse_key_set_jwks)
  have "map_of (collect_keys js []) kid = Some key" using assms(2) by (simp add: keys)
  from collect_keys_strong [OF this] obtain j where
    j: "j \<in> set js" "jk_kty j = ''RSA''" "jk_kid j = kid" "rsa_key (jk_n j) (jk_e j) = Some key"
    by (auto simp: usable_jwk_def)
  show ?thesis
    using u js j(1-3) rsa_key_Some [OF j(4)] unfolding answered_key_def jwks_request_def by auto
qed

lemma signing_key_answered:
  assumes "cache_from As cache" and "signing_key V io now1 now2 raw kid cache = (res, cache')"
  shows "cache_from (insert (V, io) As) cache'
    \<and> (\<forall>key. res = Some key \<longrightarrow> (\<exists>A \<in> insert (V, io) As. answered_key A raw kid key))"
  using assms(2)
proof (cases rule: signing_key_cases)
  case (cached c)
  with assms(1) show ?thesis by (auto simp: cache_from_def)
next
  case failed
  with assms(1) show ?thesis by (auto simp: cache_from_def)
next
  case (fetched keys)
  have "\<exists>A \<in> insert (V, io) As. answered_key A raw' kid' key"
    if "map_of cache' raw' = Some c" "map_of (ck_keys c) kid' = Some key" for raw' c kid' key
    using that fetched fetched_keys_answered [OF fetched(1)] assms(1)
    by (cases "raw' = raw") (auto simp: update_conv' cache_from_def)
  then have "cache_from (insert (V, io) As) cache'" unfolding cache_from_def by blast
  with fetched(2) fetched_keys_answered [OF fetched(1)] show ?thesis by auto
qed

text \<open>
  Claim C28: the keys that verify tokens.  Along any sequence of look-ups from an empty cache, whatever
  the platforms answer, every key handed out belongs to a key identifier that is not empty, has a
  modulus of 2048 to 8192 bits and an odd exponent from 3 to below \<open>2 ^ 32\<close>.
\<close>
theorem signing_keys_strong:
  "list_all (\<lambda>(kid, res). case res of None \<Rightarrow> True | Some k \<Rightarrow> kid \<noteq> [] \<and> strong_key k)
     (snd (foldl (\<lambda>(cache, out) (io, now1, now2, raw, kid).
         case signing_key V io now1 now2 raw kid cache of (res, cache') \<Rightarrow> (cache', out @ [(kid, res)]))
       ([], []) lookups))"
proof -
  have "cache_strong (fst (foldl (\<lambda>(cache, out) (io, now1, now2, raw, kid).
         case signing_key V io now1 now2 raw kid cache of (res, cache') \<Rightarrow> (cache', out @ [(kid, res)])) (c, out) ls))
      \<and> list_all (\<lambda>(kid, res). case res of None \<Rightarrow> True | Some k \<Rightarrow> kid \<noteq> [] \<and> strong_key k)
          (snd (foldl (\<lambda>(cache, out) (io, now1, now2, raw, kid).
         case signing_key V io now1 now2 raw kid cache of (res, cache') \<Rightarrow> (cache', out @ [(kid, res)])) (c, out) ls))"
    if "cache_strong c" "list_all (\<lambda>(kid, res). case res of None \<Rightarrow> True | Some k \<Rightarrow> kid \<noteq> [] \<and> strong_key k) out"
    for c out ls
    using that
  proof (induction ls arbitrary: c out)
    case Nil
    then show ?case by simp
  next
    case (Cons l ls)
    obtain io now1 now2 raw kid where l: "l = (io, now1, now2, raw, kid)" by (cases l) auto
    obtain res c' where r: "signing_key V io now1 now2 raw kid c = (res, c')" by fastforce
    from signing_key_keeps_strong [OF Cons.prems(1) r] have
      "cache_strong c'" "\<forall>k. res = Some k \<longrightarrow> kid \<noteq> [] \<and> strong_key k" by auto
    with Cons.IH [of c' "out @ [(kid, res)]"] Cons.prems(2) show ?case
      by (simp add: l r split: option.splits)
  qed
  from this [OF cache_strong_empty, of "[]" lookups] show ?thesis by simp
qed

text \<open>
  The life of a fetched key set.  For fifteen minutes after a set has been stored, every
  look-up for its URL is answered from it without any request, also for an identifier it does not
  contain: a key the platform has begun to use since then is refused.  From then on the set is
  fetched again.
\<close>
theorem key_set_lifetime:
  assumes "\<forall>c. map_of cache raw = Some c \<longrightarrow> ck_expires_at c \<le> now1" and "fetch_key_set V io raw = Some keys"
    and "signing_key V io now1 now2 raw kid cache = (res, cache')"
  shows "signing_key V io' t1 t2 raw kid' cache' =
    (if t1 < now2 + 900 * second then (map_of keys kid', cache')
     else (case fetch_key_set V io' raw of
         None \<Rightarrow> (None, cache')
       | Some keys' \<Rightarrow> (map_of keys' kid',
           AList.update raw \<lparr>ck_keys = keys', ck_expires_at = t2 + 900 * second\<rparr> cache')))"
proof -
  have m: "15 * minute = 900 * second" by (simp add: minute_def second_def)
  from assms have c': "cache' = AList.update raw \<lparr>ck_keys = keys, ck_expires_at = now2 + 900 * second\<rparr> cache"
    by (auto simp: signing_key_def m split: option.splits if_splits)
  then have "map_of cache' raw = Some \<lparr>ck_keys = keys, ck_expires_at = now2 + 900 * second\<rparr>"
    by (simp add: update_conv')
  then show ?thesis unfolding signing_key_def m by simp
qed

end
