(* ===== verification/LtiLaunch.thy ===== *)
theory LtiLaunch
  imports LtiKeys SessionInvariants
begin

text \<open>
  \<open>HandleLaunch\<close> of \<open>internal/service/lti_service.go\<close>.  The launch runs its statements outside a
  transaction, so other requests may change the database between them: \<open>others k\<close> is what they do
  before step \<open>k\<close> (the identity for an undisturbed launch).  The JWT library is a parameter: the header
  an unverified parse finds, and the claims a verified parse accepts under a key function, options
  and the clock.
\<close>

section \<open>Tokens\<close>

record lti_claims =
  lc_subject :: string
  lc_issuer :: string
  lc_audience :: "string list"
  lc_issued_at :: "time option"
  lc_expires_at :: "time option"
  lc_nonce :: string
  lc_message_type :: string
  lc_version :: string
  lc_deployment_id :: string
  lc_target_link_uri :: string
  lc_resource_link_id :: string
  lc_roles :: "string list"
  lc_lineitem :: string
  lc_scopes :: "string list"

record parse_options =
  po_methods :: "string list"
  po_issuer :: string
  po_audience :: string
  po_expiration_required :: bool
  po_issued_at :: bool
  po_leeway :: duration

record lti_jwt =
  lj_header :: "string \<Rightarrow> token_header option"
  lj_parse :: "(token_header \<Rightarrow> rsa_public_key option) \<Rightarrow> parse_options \<Rightarrow> time \<Rightarrow> string \<Rightarrow> lti_claims option"

definition launch_options :: "lti_platform \<Rightarrow> parse_options" where
  "launch_options p =
     \<lparr>po_methods = [''RS256''], po_issuer = p_issuer p, po_audience = p_client_id p,
      po_expiration_required = True, po_issued_at = True, po_leeway = 30 * second\<rparr>"

text \<open>The key function: only for RS256 under the identifier the key was looked up by.\<close>

definition launch_key :: "string \<Rightarrow> rsa_public_key \<Rightarrow> token_header \<Rightarrow> rsa_public_key option" where
  "launch_key kid key h = (if th_alg h \<noteq> ''RS256'' \<or> th_kid h \<noteq> Some kid then None else Some key)"

definition score_scope :: string where
  "score_scope = ''https://purl.imsglobal.org/spec/lti-ags/scope/score''"

text \<open>The checks of the accepted claims against the stored state.\<close>

definition claims_match :: "lti_claims \<Rightarrow> lti_oidc_state \<Rightarrow> bool" where
  "claims_match cl st \<longleftrightarrow>
     \<not> (lc_subject cl = [] \<or> lc_issued_at cl = None \<or> lc_nonce cl \<noteq> os_nonce st
        \<or> lc_message_type cl \<noteq> ''LtiResourceLinkRequest'' \<or> lc_version cl \<noteq> ''1.3.0''
        \<or> lc_deployment_id cl = [] \<or> lc_resource_link_id cl = []
        \<or> lc_target_link_uri cl \<noteq> os_target_link_uri st \<or> lc_roles cl = [])"

definition lineitem_ok :: "lti_env \<Rightarrow> lti_platform \<Rightarrow> lti_claims \<Rightarrow> bool" where
  "lineitem_ok V p cl \<longleftrightarrow>
     (if lc_lineitem cl = [] then True
      else if \<not> contains_string (lc_scopes cl) score_scope then False
      else (case new_outbound_policy (lv_unicode V)
              (hostnames (lv_unicode V) (lv_net V) [p_issuer p, p_auth_token_url p]) of
          None \<Rightarrow> False
        | Some pol \<Rightarrow> is_ok (validate_url (lv_unicode V) (lv_net V) pol (lc_lineitem cl))))"

section \<open>The steps of a launch\<close>

text \<open>What one launch reads from outside: failures, clocks, the session identifier, the network.\<close>

record launch_env =
  la_gorm :: gorm
  la_session_gorm :: gorm
  la_now :: time
  la_key_now :: time
  la_cache_now :: time
  la_parse_now :: time
  la_start_now :: time
  la_link_now :: time
  la_new_id :: string
  la_io :: lti_io
  la_jwt :: lti_jwt

text \<open>A state that can be used at a time.\<close>

definition usable_state :: "string \<Rightarrow> time \<Rightarrow> lti_oidc_state \<Rightarrow> bool" where
  "usable_state st now s \<longleftrightarrow> os_state s = st \<and> os_used_at s = None \<and> now < os_expires_at s"

definition find_state :: "launch_env \<Rightarrow> string \<Rightarrow> db \<Rightarrow> lti_oidc_state option" where
  "find_state L st d =
     (if stmt_fails (la_gorm L) 1 then None
      else first_by (pk_le (la_gorm L)) os_state (usable_state st (la_now L)) (lti_oidc_states d))"

text \<open>The token's claims, verified with the platform's key and matched with the state.\<close>

definition verified_claims ::
    "lti_env \<Rightarrow> launch_env \<Rightarrow> string \<Rightarrow> lti_platform \<Rightarrow> lti_oidc_state \<Rightarrow> jwks_cache \<Rightarrow> lti_claims option \<times> jwks_cache" where
  "verified_claims V L id_token p s cache =
     (case token_key_id (lj_header (la_jwt L) id_token) of
        None \<Rightarrow> (None, cache)
      | Some kid \<Rightarrow>
          (case signing_key V (la_io L) (la_key_now L) (la_cache_now L) (p_keyset_url p) kid cache of
             (None, cache') \<Rightarrow> (None, cache')
           | (Some key, cache') \<Rightarrow>
               (case lj_parse (la_jwt L) (launch_key kid key) (launch_options p) (la_parse_now L) id_token of
                  None \<Rightarrow> (None, cache')
                | Some cl \<Rightarrow> (if claims_match cl s then Some cl else None, cache'))))"

definition find_resource_link :: "launch_env \<Rightarrow> lti_platform \<Rightarrow> lti_claims \<Rightarrow> db \<Rightarrow> lti_resource_link option" where
  "find_resource_link L p cl d =
     (if stmt_fails (la_gorm L) 3 then None
      else first_by (pk_le (la_gorm L)) rl_id
        (\<lambda>l. rl_platform_id l = p_id p \<and> rl_deployment_id l = lc_deployment_id cl
           \<and> rl_resource_link_id l = lc_resource_link_id cl) (lti_resource_links d))"

record verified_launch =
  vl_state :: lti_oidc_state
  vl_platform :: lti_platform
  vl_claims :: lti_claims
  vl_link :: lti_resource_link

definition verify_launch ::
    "lti_env \<Rightarrow> launch_env \<Rightarrow> string \<Rightarrow> string \<Rightarrow> jwks_cache \<Rightarrow> db \<Rightarrow> (service_err + verified_launch) \<times> jwks_cache" where
  "verify_launch V L id_token st cache d =
     (case find_state L st d of
        None \<Rightarrow> (Inl ErrInvalidLTIState, cache)
      | Some s \<Rightarrow>
          (case (if stmt_fails (la_gorm L) 2 then None
                 else find_platform (la_gorm L) (os_issuer s) (os_client_id s) d) of
             None \<Rightarrow> (Inl ErrPlatformNotFound, cache)
           | Some p \<Rightarrow>
               (case verified_claims V L id_token p s cache of
                  (None, cache') \<Rightarrow> (Inl ErrInvalidLTIToken, cache')
                | (Some cl, cache') \<Rightarrow>
                    (case find_resource_link L p cl d of
                       None \<Rightarrow> (Inl ErrResourceLinkMissing, cache')
                     | Some l \<Rightarrow>
                         if \<not> lineitem_ok V p cl then (Inl ErrInvalidLTIToken, cache')
                         else (Inr \<lparr>vl_state = s, vl_platform = p, vl_claims = cl, vl_link = l\<rparr>, cache')))))"

text \<open>The conditional update that uses the state up: it must change exactly one row.\<close>

definition claim_state :: "gorm \<Rightarrow> nat \<Rightarrow> string \<Rightarrow> time \<Rightarrow> db \<Rightarrow> bool \<times> db" where
  "claim_state g k st now d =
     (if stmt_fails g k then (False, d)
      else
        (count_where (usable_state st now) (lti_oidc_states d) = 1,
         d\<lparr>lti_oidc_states := update_where (usable_state st now) (\<lambda>s. s\<lparr>os_used_at := Some now\<rparr>) (lti_oidc_states d)\<rparr>))"

definition link_session_row :: "time \<Rightarrow> test_session \<Rightarrow> lti_platform \<Rightarrow> lti_claims \<Rightarrow> lti_link_session" where
  "link_session_row now s p cl =
     \<lparr>ls_session_id = s_id s, ls_platform_id = p_id p, ls_issuer = p_issuer p, ls_client_id = p_client_id p,
      ls_lis_user_id = lc_subject cl, ls_deployment_id = lc_deployment_id cl,
      ls_resource_link_id = lc_resource_link_id cl, ls_lineitem_url = lc_lineitem cl, ls_created_at = now\<rparr>"

text \<open>\<open>Save\<close>: update the row with this primary key, or insert it.\<close>

definition save_link :: "gorm \<Rightarrow> nat \<Rightarrow> lti_link_session \<Rightarrow> db \<Rightarrow> service_err option \<times> db" where
  "save_link g k row d =
     (if stmt_fails g k then (Some (ErrStatement k), d)
      else
        let same = (\<lambda>r. ls_session_id r = ls_session_id row)
        in (None, d\<lparr>lti_link_sessions :=
              (if list_ex same (lti_link_sessions d) then update_where same (\<lambda>_. row) (lti_link_sessions d)
               else lti_link_sessions d @ [row])\<rparr>))"

definition handle_launch ::
    "lti_env \<Rightarrow> launch_env \<Rightarrow> (nat \<Rightarrow> db \<Rightarrow> db) \<Rightarrow> string \<Rightarrow> string \<Rightarrow> jwks_cache \<Rightarrow> db \<Rightarrow>
       (service_err + test_session) \<times> jwks_cache \<times> db" where
  "handle_launch V L others id_token st cache d =
     (case verify_launch V L id_token st cache d of
        (Inl e, cache') \<Rightarrow> (Inl e, cache', d)
      | (Inr v, cache') \<Rightarrow>
          (case claim_state (la_gorm L) 4 st (la_now L) (others 1 d) of
             (False, d1) \<Rightarrow> (Inl ErrInvalidLTIState, cache', d1)
           | (True, d1) \<Rightarrow>
               (case start_session (la_session_gorm L) (la_start_now L) (la_new_id L) (rl_delivery_id (vl_link v))
                       (lti_user_id V (p_issuer (vl_platform v)) (lc_subject (vl_claims v))) (others 2 d1) of
                  (Inl e, d2) \<Rightarrow> (Inl e, cache', d2)
                | (Inr s, d2) \<Rightarrow>
                    (case save_link (la_gorm L) 5
                        (link_session_row (la_link_now L) s (vl_platform v) (vl_claims v)) (others 3 d2) of
                       (Some e, d3) \<Rightarrow> (Inl e, cache', d3)
                     | (None, d3) \<Rightarrow> (Inr s, cache', d3)))))"

section \<open>A launch in steps\<close>

text \<open>
  A verified launch that other requests may interrupt: what it still has to do (use the state up, start
  the session, store the link), and the statement or transaction it does next.
\<close>

datatype launch_phase = ToClaim | ToStart | ToLink test_session

record pending_launch =
  pl_env :: lti_env
  pl_launch :: launch_env
  pl_state :: string
  pl_verified :: verified_launch
  pl_phase :: launch_phase

definition begin_launch :: "lti_env \<Rightarrow> launch_env \<Rightarrow> string \<Rightarrow> verified_launch \<Rightarrow> pending_launch" where
  "begin_launch V L st v = \<lparr>pl_env = V, pl_launch = L, pl_state = st, pl_verified = v, pl_phase = ToClaim\<rparr>"

text \<open>The next step: the launch goes on, or ends with an error or its session.\<close>

definition advance_launch :: "pending_launch \<Rightarrow> db \<Rightarrow> (pending_launch + (service_err + test_session)) \<times> db" where
  "advance_launch P d =
     (let L = pl_launch P; v = pl_verified P
      in case pl_phase P of
           ToClaim \<Rightarrow>
             (case claim_state (la_gorm L) 4 (pl_state P) (la_now L) d of
                (False, d') \<Rightarrow> (Inr (Inl ErrInvalidLTIState), d')
              | (True, d') \<Rightarrow> (Inl (P\<lparr>pl_phase := ToStart\<rparr>), d'))
         | ToStart \<Rightarrow>
             (case start_session (la_session_gorm L) (la_start_now L) (la_new_id L) (rl_delivery_id (vl_link v))
                     (lti_user_id (pl_env P) (p_issuer (vl_platform v)) (lc_subject (vl_claims v))) d of
                (Inl e, d') \<Rightarrow> (Inr (Inl e), d')
              | (Inr s, d') \<Rightarrow> (Inl (P\<lparr>pl_phase := ToLink s\<rparr>), d'))
         | ToLink s \<Rightarrow>
             (case save_link (la_gorm L) 5 (link_session_row (la_link_now L) s (vl_platform v) (vl_claims v)) d of
                (Some e, d') \<Rightarrow> (Inr (Inl e), d')
              | (None, d') \<Rightarrow> (Inr (Inr s), d')))"

fun phase_rank :: "launch_phase \<Rightarrow> nat" where
  "phase_rank ToClaim = 3"
| "phase_rank ToStart = 2"
| "phase_rank (ToLink s) = 1"

lemma advance_launch_rank: "advance_launch P d = (Inl P', d') \<Longrightarrow> phase_rank (pl_phase P') < phase_rank (pl_phase P)"
  by (auto simp: advance_launch_def Let_def split: launch_phase.splits prod.splits sum.splits bool.splits option.splits)

text \<open>Every launch ends after at most three steps, whatever happens between them.\<close>

function drive_launch :: "(nat \<Rightarrow> db \<Rightarrow> db) \<Rightarrow> nat \<Rightarrow> pending_launch \<Rightarrow> db \<Rightarrow> (service_err + test_session) \<times> db" where
  "drive_launch others k P d =
     (case advance_launch P (others k d) of
        (Inr r, d') \<Rightarrow> (r, d')
      | (Inl P', d') \<Rightarrow> drive_launch others (Suc k) P' d')"
  by pat_completeness auto
termination
  by (relation "measure (\<lambda>(others, k, P, d). phase_rank (pl_phase P))") (auto dest: advance_launch_rank [OF sym])

declare drive_launch.simps [simp del]

lemma drive_launch_phases:
  "pl_phase P = ToLink s \<Longrightarrow> drive_launch others k P d =
     (case save_link (la_gorm (pl_launch P)) 5
         (link_session_row (la_link_now (pl_launch P)) s (vl_platform (pl_verified P)) (vl_claims (pl_verified P))) (others k d) of
        (Some e, d') \<Rightarrow> (Inl e, d') | (None, d') \<Rightarrow> (Inr s, d'))"
  "pl_phase P = ToStart \<Longrightarrow> drive_launch others k P d =
     (case start_session (la_session_gorm (pl_launch P)) (la_start_now (pl_launch P)) (la_new_id (pl_launch P))
         (rl_delivery_id (vl_link (pl_verified P)))
         (lti_user_id (pl_env P) (p_issuer (vl_platform (pl_verified P))) (lc_subject (vl_claims (pl_verified P)))) (others k d) of
        (Inl e, d') \<Rightarrow> (Inl e, d') | (Inr s, d') \<Rightarrow> drive_launch others (Suc k) (P\<lparr>pl_phase := ToLink s\<rparr>) d')"
  "pl_phase P = ToClaim \<Longrightarrow> drive_launch others k P d =
     (case claim_state (la_gorm (pl_launch P)) 4 (pl_state P) (la_now (pl_launch P)) (others k d) of
        (False, d') \<Rightarrow> (Inl ErrInvalidLTIState, d')
      | (True, d') \<Rightarrow> drive_launch others (Suc k) (P\<lparr>pl_phase := ToStart\<rparr>) d')"
  by (simp_all add: drive_launch.simps [of others k P d] advance_launch_def Let_def
      split: prod.split option.split sum.split bool.split)

text \<open>The steps, one after the other, are \<open>HandleLaunch\<close>.\<close>

lemma handle_launch_steps:
  "handle_launch V L others tok st cache d =
     (case verify_launch V L tok st cache d of
        (Inl e, cache') \<Rightarrow> (Inl e, cache', d)
      | (Inr v, cache') \<Rightarrow> (case drive_launch others 1 (begin_launch V L st v) d of (r, d') \<Rightarrow> (r, cache', d')))"
  by (simp add: handle_launch_def begin_launch_def drive_launch_phases numeral_2_eq_2 numeral_3_eq_3
      split: prod.split option.split sum.split bool.split)

section \<open>What a launch has checked\<close>

lemma find_state_Some:
  "find_state L st d = Some s \<Longrightarrow> s \<in> set (lti_oidc_states d) \<and> usable_state st (la_now L) s"
  by (auto simp: find_state_def dest: first_by_Some split: if_splits)

lemma verified_claims_Some:
  assumes "verified_claims V L tok p s cache = (Some cl, cache')"
  obtains kid key where "token_key_id (lj_header (la_jwt L) tok) = Some kid"
    "signing_key V (la_io L) (la_key_now L) (la_cache_now L) (p_keyset_url p) kid cache = (Some key, cache')"
    "lj_parse (la_jwt L) (launch_key kid key) (launch_options p) (la_parse_now L) tok = Some cl"
    "claims_match cl s"
  using assms by (auto simp: verified_claims_def split: option.splits prod.splits if_splits)

lemma find_resource_link_Some:
  "find_resource_link L p cl d = Some l \<Longrightarrow>
     l \<in> set (lti_resource_links d) \<and> rl_platform_id l = p_id p \<and> rl_deployment_id l = lc_deployment_id cl
     \<and> rl_resource_link_id l = lc_resource_link_id cl"
  by (auto simp: find_resource_link_def dest: first_by_Some split: if_splits)

lemma verify_launch_Inr:
  assumes "verify_launch V L tok st cache d = (Inr v, cache')"
  shows "find_state L st d = Some (vl_state v)
    \<and> find_platform (la_gorm L) (os_issuer (vl_state v)) (os_client_id (vl_state v)) d = Some (vl_platform v)
    \<and> verified_claims V L tok (vl_platform v) (vl_state v) cache = (Some (vl_claims v), cache')
    \<and> find_resource_link L (vl_platform v) (vl_claims v) d = Some (vl_link v)
    \<and> lineitem_ok V (vl_platform v) (vl_claims v)"
  using assms by (auto simp: verify_launch_def split: option.splits prod.splits if_splits)

lemma handle_launch_Inr:
  assumes "handle_launch V L others tok st cache d = (Inr s, cache', d')"
  obtains v d1 d2 where "verify_launch V L tok st cache d = (Inr v, cache')"
    "claim_state (la_gorm L) 4 st (la_now L) (others 1 d) = (True, d1)"
    "start_session (la_session_gorm L) (la_start_now L) (la_new_id L) (rl_delivery_id (vl_link v))
       (lti_user_id V (p_issuer (vl_platform v)) (lc_subject (vl_claims v))) (others 2 d1) = (Inr s, d2)"
    "save_link (la_gorm L) 5 (link_session_row (la_link_now L) s (vl_platform v) (vl_claims v)) (others 3 d2) = (None, d')"
  using assms
  by (auto simp: handle_launch_def split: prod.splits sum.splits bool.splits option.splits)

lemma save_link_None:
  "save_link g k row d = (None, d') \<Longrightarrow> row \<in> set (lti_link_sessions d') \<and> d' = d\<lparr>lti_link_sessions := lti_link_sessions d'\<rparr>"
  by (auto simp: save_link_def Let_def set_update_where list_ex_iff split: if_splits)

text \<open>
  Claim C10: what a successful launch proves, whatever other requests do in between.  The state was
  stored, unused and not expired; the token's key identifier names a strong RSA key which the key set
  URL of the platform that the state belongs to has answered, now or in an earlier exchange whose
  answer is cached; the JWT library accepted the token under exactly this key for that platform's
  issuer and client, and its nonce and target are those of the state; the resource link of its
  deployment is mapped to a delivery; and the session handed out is the one of the user derived from
  issuer and subject at that delivery, with the link stored.  The cache it leaves again holds only
  strong keys that were answered for the URL they are stored under.
\<close>
theorem launch_verified:
  assumes "handle_launch V L others tok st cache d = (Inr s, cache', d')"
    and "cache_strong cache" and "cache_from As cache"
  shows "(\<exists>os p cl l kid key A. os \<in> set (lti_oidc_states d) \<and> usable_state st (la_now L) os
    \<and> p \<in> set (lti_platforms d) \<and> p_issuer p = os_issuer os \<and> p_client_id p = os_client_id os
    \<and> lj_header (la_jwt L) tok = Some \<lparr>th_alg = ''RS256'', th_kid = Some kid\<rparr> \<and> kid \<noteq> [] \<and> strong_key key
    \<and> A \<in> insert (V, la_io L) As \<and> answered_key A (p_keyset_url p) kid key
    \<and> lj_parse (la_jwt L) (launch_key kid key) (launch_options p) (la_parse_now L) tok = Some cl
    \<and> lc_nonce cl = os_nonce os \<and> lc_target_link_uri cl = os_target_link_uri os \<and> lc_subject cl \<noteq> []
    \<and> l \<in> set (lti_resource_links d) \<and> rl_platform_id l = p_id p \<and> rl_deployment_id l = lc_deployment_id cl
    \<and> rl_resource_link_id l = lc_resource_link_id cl
    \<and> of_user (trim_space (rl_delivery_id l)) (trim_space (lti_user_id V (p_issuer p) (lc_subject cl))) s
    \<and> (s_status s = InProgress \<or> s_status s = Paused)
    \<and> link_session_row (la_link_now L) s p cl \<in> set (lti_link_sessions d'))
    \<and> cache_strong cache' \<and> cache_from (insert (V, la_io L) As) cache'"
proof -
  obtain v d1 d2 where v: "verify_launch V L tok st cache d = (Inr v, cache')"
    and start: "start_session (la_session_gorm L) (la_start_now L) (la_new_id L) (rl_delivery_id (vl_link v))
       (lti_user_id V (p_issuer (vl_platform v)) (lc_subject (vl_claims v))) (others 2 d1) = (Inr s, d2)"
    and link: "save_link (la_gorm L) 5 (link_session_row (la_link_now L) s (vl_platform v) (vl_claims v)) (others 3 d2) = (None, d')"
    by (rule handle_launch_Inr [OF assms(1)])
  note parts = verify_launch_Inr [OF v]
  from parts obtain kid key where kid: "token_key_id (lj_header (la_jwt L) tok) = Some kid"
    and key: "signing_key V (la_io L) (la_key_now L) (la_cache_now L) (p_keyset_url (vl_platform v)) kid cache = (Some key, cache')"
    and parse: "lj_parse (la_jwt L) (launch_key kid key) (launch_options (vl_platform v)) (la_parse_now L) tok = Some (vl_claims v)"
    and match: "claims_match (vl_claims v) (vl_state v)"
    by (auto elim!: verified_claims_Some)
  from kid have "lj_header (la_jwt L) tok = Some \<lparr>th_alg = ''RS256'', th_kid = Some kid\<rparr> \<and> kid \<noteq> []"
    by (auto simp: token_key_id_def split: option.splits if_splits)
  moreover have "strong_key key" "cache_strong cache'" using signing_key_keeps_strong [OF assms(2) key] by simp_all
  moreover obtain A where "A \<in> insert (V, la_io L) As" "answered_key A (p_keyset_url (vl_platform v)) kid key"
    "cache_from (insert (V, la_io L) As) cache'"
    using signing_key_answered [OF assms(3) key] by blast
  moreover have "vl_platform v \<in> set (lti_platforms d) \<and> p_issuer (vl_platform v) = os_issuer (vl_state v)
      \<and> p_client_id (vl_platform v) = os_client_id (vl_state v)"
    using parts by (auto dest: find_platform_Some)
  moreover have "vl_state v \<in> set (lti_oidc_states d) \<and> usable_state st (la_now L) (vl_state v)"
    using parts by (auto dest: find_state_Some)
  moreover note find_resource_link_Some [of L "vl_platform v" "vl_claims v" d "vl_link v"]
    start_session_stored [OF start] save_link_None [OF link]
  ultimately show ?thesis
    using parts parse match unfolding claims_match_def by blast
qed

section \<open>A state is used once\<close>

text \<open>
  The steps in which requests touch the stored states, in any interleaving: a login stores a new one,
  expired ones are swept, a launch claims one or fails to, and everything else leaves them alone.
\<close>

datatype state_event = Created string | Claimed string | Silent

inductive state_step :: "db \<Rightarrow> state_event \<Rightarrow> db \<Rightarrow> bool" where
  login: "insert_row oidc_state_clash (oidc_state_row now st nonce p target hint) (lti_oidc_states d) = Some rows \<Longrightarrow>
     state_step d (Created st) (d\<lparr>lti_oidc_states := rows\<rparr>)"
| sweep: "state_step d Silent (sweep_states g k now d)"
| claim: "claim_state g k st now d = (True, d') \<Longrightarrow> state_step d (Claimed st) d'"
| refused: "claim_state g k st now d = (False, d') \<Longrightarrow> state_step d Silent d'"
| elsewhere: "lti_oidc_states d' = lti_oidc_states d \<Longrightarrow> state_step d Silent d'"

inductive state_run :: "db \<Rightarrow> state_event list \<Rightarrow> db \<Rightarrow> bool" where
  run_nil: "state_run d [] d"
| run_cons: "state_step d e d1 \<Longrightarrow> state_run d1 es d2 \<Longrightarrow> state_run d (e # es) d2"

definition unclaimed :: "string \<Rightarrow> db \<Rightarrow> nat" where
  "unclaimed st d = count_where (\<lambda>s. os_state s = st \<and> os_used_at s = None) (lti_oidc_states d)"

lemma count_where_filter_le: "count_where P (filter Q xs) \<le> count_where P xs"
  by (induction xs) auto

lemma count_where_update_drop:
  assumes "\<And>x. H x \<Longrightarrow> P x" and "\<And>x. H x \<Longrightarrow> \<not> P (f x)"
  shows "count_where P (update_where H f xs) + count_where H xs = count_where P xs"
  using assms by (induction xs) auto

lemma claim_state_unclaimed:
  assumes "claim_state g k st now d = (ok, d')"
  shows "unclaimed st' d' + (if ok \<and> st' = st then 1 else 0) \<le> unclaimed st' d"
proof (cases "stmt_fails g k")
  case True
  with assms show ?thesis by (simp add: claim_state_def)
next
  case False
  let ?f = "\<lambda>s. s\<lparr>os_used_at := Some now\<rparr>"
  from False assms have ok: "ok \<longleftrightarrow> count_where (usable_state st now) (lti_oidc_states d) = 1"
    and d': "lti_oidc_states d' = update_where (usable_state st now) ?f (lti_oidc_states d)"
    by (auto simp: claim_state_def)
  show ?thesis
  proof (cases "st' = st")
    case True
    have "unclaimed st d' + count_where (usable_state st now) (lti_oidc_states d) = unclaimed st d"
      unfolding unclaimed_def d' by (rule count_where_update_drop) (auto simp: usable_state_def)
    with True ok show ?thesis by auto
  next
    case False
    have "count_where (\<lambda>s. os_state s = st' \<and> os_used_at s = None) (update_where (usable_state st now) ?f xs)
        = count_where (\<lambda>s. os_state s = st' \<and> os_used_at s = None) xs" for xs
      using False by (induction xs) (auto simp: usable_state_def)
    with False d' show ?thesis by (simp add: unclaimed_def)
  qed
qed

lemma state_step_unclaimed:
  assumes "state_step d e d'"
  shows "unclaimed st d' + (if e = Claimed st then 1 else 0) \<le> unclaimed st d + (if e = Created st then 1 else 0)"
  using assms
proof (cases rule: state_step.cases)
  case (login now st1 nonce p target hint rows)
  then show ?thesis by (auto simp: unclaimed_def insert_row_Some oidc_state_row_def)
next
  case (sweep g k now)
  then show ?thesis by (simp add: unclaimed_def sweep_states_def count_where_filter_le)
next
  case (claim g k st1 now)
  with claim_state_unclaimed [OF claim(2), of st] show ?thesis by (auto split: if_splits)
next
  case (refused g k st1 now)
  with claim_state_unclaimed [OF refused(2), of st] show ?thesis by auto
next
  case elsewhere
  then show ?thesis by (simp add: unclaimed_def)
qed

lemma state_run_unclaimed:
  assumes "state_run d es d'"
  shows "unclaimed st d' + count_where (\<lambda>e. e = Claimed st) es \<le> unclaimed st d + count_where (\<lambda>e. e = Created st) es"
  using assms
proof (induction rule: state_run.induct)
  case (run_nil d)
  then show ?case by simp
next
  case (run_cons d e d1 es d2)
  from state_step_unclaimed [OF run_cons.hyps(1), of st] run_cons.IH show ?case
    by (auto split: if_splits)
qed

lemma login_is_run:
  assumes "initiate_login V g now st nonce issuer client_id target login_hint message_hint d = (out, d')"
    and "\<forall>e. out \<noteq> LoginFails e"
  shows "state_run d [Created st, Silent] d'"
proof -
  obtain p where fresh: "\<forall>s \<in> set (lti_oidc_states d). os_state s \<noteq> st"
    and d': "d' = sweep_states g 3 now
       (d\<lparr>lti_oidc_states := lti_oidc_states d @ [oidc_state_row now st nonce p target message_hint]\<rparr>)"
    by (rule initiate_login_inserts [OF assms])
  have "insert_row oidc_state_clash (oidc_state_row now st nonce p target message_hint) (lti_oidc_states d)
      = Some (lti_oidc_states d @ [oidc_state_row now st nonce p target message_hint])"
    using fresh by (auto simp: insert_row_Some clash_on_def oidc_state_row_def)
  from run_cons [OF login [OF this] run_cons [OF sweep run_nil]] show ?thesis unfolding d' .
qed

lemma only_sessions:
  "d' = d\<lparr>test_sessions := x\<rparr> \<Longrightarrow> lti_oidc_states d' = lti_oidc_states d \<and> lti_link_sessions d' = lti_link_sessions d"
  by simp

lemma only_links: "d' = d\<lparr>lti_link_sessions := x\<rparr> \<Longrightarrow> lti_oidc_states d' = lti_oidc_states d"
  by simp

lemma launch_is_run:
  assumes "handle_launch V L (\<lambda>_ d. d) tok st cache d = (Inr s, cache', d')"
  shows "state_run d [Claimed st, Silent] d'"
proof -
  obtain v :: verified_launch and d1 d2 where c: "claim_state (la_gorm L) 4 st (la_now L) d = (True, d1)"
    and start: "start_session (la_session_gorm L) (la_start_now L) (la_new_id L) (rl_delivery_id (vl_link v))
       (lti_user_id V (p_issuer (vl_platform v)) (lc_subject (vl_claims v))) d1 = (Inr s, d2)"
    and link: "save_link (la_gorm L) 5 (link_session_row (la_link_now L) s (vl_platform v) (vl_claims v)) d2 = (None, d')"
    by (rule handle_launch_Inr [OF assms])
  have "d2 = d1\<lparr>test_sessions := test_sessions d2\<rparr>" using start_session_stored [OF start] by blast
  then have "lti_oidc_states d2 = lti_oidc_states d1" using only_sessions by blast
  moreover have "d' = d2\<lparr>lti_link_sessions := lti_link_sessions d'\<rparr>" using save_link_None [OF link] by blast
  then have "lti_oidc_states d' = lti_oidc_states d2" by (rule only_links)
  ultimately have "lti_oidc_states d' = lti_oidc_states d1" by simp
  from run_cons [OF claim [OF c] run_cons [OF elsewhere [OF this] run_nil]] show ?thesis .
qed

text \<open>A state is unused at most once, and one that is not is refused.\<close>

lemma unclaimed_distinct:
  assumes "distinct (map os_state (lti_oidc_states d))"
  shows "unclaimed st d \<le> 1"
proof -
  have "count_where (\<lambda>s. os_state s = st \<and> os_used_at s = None) xs \<le> 1" if "distinct (map os_state xs)" for xs
    using that
  proof (induction xs)
    case (Cons x xs)
    have "st \<notin> os_state ` set xs" if "os_state x = st" using Cons.prems that by simp
    then have "count_where (\<lambda>s. os_state s = st \<and> os_used_at s = None) xs = 0" if "os_state x = st"
      unfolding count_where_zero_iff by (metis imageI that)
    with Cons show ?case by auto
  qed simp
  with assms show ?thesis by (simp add: unclaimed_def)
qed

lemma spent_refused:
  assumes "unclaimed st d = 0"
  shows "verify_launch V L tok st cache d = (Inl ErrInvalidLTIState, cache)"
proof -
  from assms have "\<forall>s \<in> set (lti_oidc_states d). \<not> usable_state st (la_now L) s"
    by (auto simp: unclaimed_def count_where_zero_iff usable_state_def)
  then have "find_state L st d = None" by (simp add: find_state_def first_by_None)
  then show ?thesis by (simp add: verify_launch_def)
qed

lemma launch_spends:
  assumes "handle_launch V L (\<lambda>_ d. d) tok st cache d = (Inr s, cache', d1)"
    and "distinct (map os_state (lti_oidc_states d))"
  shows "unclaimed st d1 = 0"
  using state_run_unclaimed [OF launch_is_run [OF assms(1)], of st] unclaimed_distinct [OF assms(2), of st] by simp

section \<open>Failed launches\<close>

lemma start_session_errors:
  "start_session g now nid did uid d = (Inl e, d') \<Longrightarrow>
     e \<notin> {ErrInvalidLTIState, ErrInvalidLTIToken, ErrPlatformNotFound, ErrResourceLinkMissing}"
  by (auto simp: start_session_def Let_def transaction_Inl start_session_tx_def check_groups_def
      split: if_splits option.splits)

lemma save_link_Some: "save_link g k row d = (Some e, d') \<Longrightarrow> d' = d \<and> e = ErrStatement k"
  by (auto simp: save_link_def Let_def split: if_splits)

lemma claim_after_find:
  assumes "find_state L st d = Some s" and "distinct (map os_state (lti_oidc_states d))"
    and "claim_state (la_gorm L) k st (la_now L) d = (ok, d1)"
  shows "ok = (\<not> stmt_fails (la_gorm L) k)"
proof -
  have "filter (usable_state st (la_now L)) (lti_oidc_states d) = [s]"
  proof -
    from find_state_Some [OF assms(1)] have s: "s \<in> set (lti_oidc_states d)" "usable_state st (la_now L) s" by auto
    have "filter (\<lambda>x. os_state x = os_state s) (lti_oidc_states d) = [s]"
      by (rule filter_key_singleton [OF assms(2) s(1)])
    then have "filter (usable_state st (la_now L)) (filter (\<lambda>x. os_state x = os_state s) (lti_oidc_states d)) = [s]"
      using s(2) by simp
    moreover have "filter (usable_state st (la_now L)) (filter (\<lambda>x. os_state x = os_state s) (lti_oidc_states d))
        = filter (usable_state st (la_now L)) (lti_oidc_states d)"
      using s(2) by (auto simp: usable_state_def intro!: filter_cong)
    ultimately show ?thesis by simp
  qed
  then have "count_where (usable_state st (la_now L)) (lti_oidc_states d) = 1" by (simp add: count_where_def)
  with assms(3) show ?thesis by (auto simp: claim_state_def split: if_splits)
qed

text \<open>
  Failed launches.  An undisturbed launch that is refused for its state, platform, token or
  resource link changes nothing, so a forged token cannot use up a student's state.  Any other
  failing launch has used up the state, stores no link, and has started no session unless it was the
  link's own statement that failed.
\<close>
theorem failed_launch_effects:
  assumes "handle_launch V L (\<lambda>_ d. d) tok st cache d = (Inl e, cache', d')"
    and "distinct (map os_state (lti_oidc_states d))"
  shows "if e \<in> {ErrInvalidLTIState, ErrInvalidLTIToken, ErrPlatformNotFound, ErrResourceLinkMissing} then d' = d
    else lti_oidc_states d' = update_where (usable_state st (la_now L)) (\<lambda>s. s\<lparr>os_used_at := Some (la_now L)\<rparr>) (lti_oidc_states d)
      \<and> lti_link_sessions d' = lti_link_sessions d
      \<and> (test_sessions d' = test_sessions d \<or> e = ErrStatement 5)"
proof (cases "verify_launch V L tok st cache d")
  case (Pair r c1)
  show ?thesis
  proof (cases r)
    case (Inl e1)
    with Pair have "e1 \<in> {ErrInvalidLTIState, ErrInvalidLTIToken, ErrPlatformNotFound, ErrResourceLinkMissing}"
      by (auto simp: verify_launch_def split: option.splits prod.splits if_splits)
    with assms(1) Pair Inl show ?thesis by (simp add: handle_launch_def)
  next
    case (Inr v)
    with Pair have v: "verify_launch V L tok st cache d = (Inr v, c1)" by simp
    from verify_launch_Inr [OF this] have f: "find_state L st d = Some (vl_state v)" by simp
    obtain ok d1 where c: "claim_state (la_gorm L) 4 st (la_now L) d = (ok, d1)" by fastforce
    note ok = claim_after_find [OF f assms(2) c]
    show ?thesis
    proof (cases ok)
      case False
      with ok c have "d1 = d" by (simp add: claim_state_def)
      with assms(1) v c False show ?thesis by (simp add: handle_launch_def)
    next
      case True
      with ok c have d1: "d1 = d\<lparr>lti_oidc_states := update_where (usable_state st (la_now L))
          (\<lambda>s. s\<lparr>os_used_at := Some (la_now L)\<rparr>) (lti_oidc_states d)\<rparr>"
        by (auto simp: claim_state_def)
      obtain r2 d2 where st: "start_session (la_session_gorm L) (la_start_now L) (la_new_id L) (rl_delivery_id (vl_link v))
          (lti_user_id V (p_issuer (vl_platform v)) (lc_subject (vl_claims v))) d1 = (r2, d2)" by fastforce
      show ?thesis
      proof (cases r2)
        case (Inl e2)
        with st have "d2 = d1" "e2 \<notin> {ErrInvalidLTIState, ErrInvalidLTIToken, ErrPlatformNotFound, ErrResourceLinkMissing}"
          using start_session_Inl start_session_errors by blast+
        moreover from assms(1) v c True st Inl have "e = e2 \<and> d' = d2" by (simp add: handle_launch_def)
        ultimately show ?thesis by (simp add: d1)
      next
        case (Inr s2)
        with st have "d2 = d1\<lparr>test_sessions := test_sessions d2\<rparr>" using start_session_stored by blast
        then have "lti_oidc_states d2 = lti_oidc_states d1 \<and> lti_link_sessions d2 = lti_link_sessions d1"
          by (rule only_sessions)
        moreover from assms(1) v c True st Inr have "e = ErrStatement 5 \<and> d' = d2"
          by (auto simp: handle_launch_def split: prod.splits option.splits dest: save_link_Some)
        ultimately show ?thesis using d1 by simp
      qed
    qed
  qed
qed

section \<open>Users of different platforms\<close>

lemma nul_separates:
  assumes "CHR 0x00 \<notin> set i1" "CHR 0x00 \<notin> set i2" "i1 @ [CHR 0x00] @ s1 = i2 @ [CHR 0x00] @ s2"
  shows "i1 = i2 \<and> s1 = s2"
  using assms
proof (induction i1 arbitrary: i2)
  case Nil
  then show ?case by (cases i2) auto
next
  case (Cons c i1)
  then show ?case by (cases i2) auto
qed

lemma string_bytes_inject: "string_bytes s = string_bytes t \<longleftrightarrow> s = t"
  unfolding string_bytes_def by (simp add: inj_map_eq_map inj_def)

text \<open>
  Subjects of different platforms are different users.  With a hash whose output is bytes, two
  pairs of issuer and subject that give the same user are the same pair, unless the two hashed
  strings are a collision of the hash.
\<close>
theorem lti_users_distinct:
  assumes "\<forall>m. \<forall>b \<in> set (lv_sha256 V m). b < 256"
    and "CHR 0x00 \<notin> set i1" and "CHR 0x00 \<notin> set i2"
    and "lti_user_id V i1 s1 = lti_user_id V i2 s2"
  shows "i1 = i2 \<and> s1 = s2
    \<or> (string_bytes (i1 @ [CHR 0x00] @ s1) \<noteq> string_bytes (i2 @ [CHR 0x00] @ s2)
       \<and> lv_sha256 V (string_bytes (i1 @ [CHR 0x00] @ s1)) = lv_sha256 V (string_bytes (i2 @ [CHR 0x00] @ s2)))"
proof -
  let ?h1 = "lv_sha256 V (string_bytes (i1 @ [CHR 0x00] @ s1))"
  let ?h2 = "lv_sha256 V (string_bytes (i2 @ [CHR 0x00] @ s2))"
  have "raw_url_encode ?h1 = raw_url_encode ?h2" using assms(4) by (simp add: lti_user_id_def)
  moreover have "raw_url_decode (raw_url_encode ?h1) = Some ?h1" "raw_url_decode (raw_url_encode ?h2) = Some ?h2"
    using assms(1) by (simp_all add: raw_url_round_trip)
  ultimately have "?h1 = ?h2" by (metis option.inject)
  then show ?thesis using nul_separates [OF assms(2,3)] by (metis string_bytes_inject)
qed

end
