(* ===== verification/LtiHandler.thy ===== *)
theory LtiHandler
  imports LtiLaunch Auth
begin

text \<open>
  The HTTP handlers of \<open>internal/handler/lti_handler.go\<close>: administration of platforms and resource
  links, the login redirect, and the launch, which answers with an access token.  Binding a JSON body
  is a parameter, as are the media type of a content type and what Gin reads from a form body that is
  not URL-encoded.  A panic is turned into status 500 by Gin's recovery.
\<close>

datatype lti_reply =
    LtiError
  | LtiRedirect string
  | LtiSession test_session string int
  | LtiPlatformReply lti_platform
  | LtiLinkReply lti_resource_link

record lti_handler_env =
  lh_env :: lti_env
  lh_media_type :: "string \<Rightarrow> string option"
  lh_other_form :: "string \<Rightarrow> string \<Rightarrow> url_values"
  lh_bind_platform :: "string \<Rightarrow> lti_platform option"
  lh_bind_link :: "string \<Rightarrow> lti_resource_link option"
  lh_jwt :: jwt_library
  lh_config :: jwt_config
  lh_token_ttl :: duration

section \<open>Forms\<close>

definition max_lti_form_size :: nat where
  "max_lti_form_size = 65536"

definition request_text :: "ctx \<Rightarrow> string" where
  "request_text c = (case cx_body c of None \<Rightarrow> [] | Some b \<Rightarrow> body_bytes b)"

definition body_unreadable :: "ctx \<Rightarrow> bool" where
  "body_unreadable c = (case cx_body c of None \<Rightarrow> False | Some b \<Rightarrow> body_breaks b)"

text \<open>\<open>url.ParseQuery\<close> reports an error when some part between ampersands does not parse.\<close>

definition query_malformed :: "string \<Rightarrow> bool" where
  "query_malformed s = list_ex (\<lambda>p. p \<noteq> [] \<and> parse_part p = None) (split_on CHR ''&'' s)"

datatype form_result = FormTooLarge | FormInvalid | Form url_values

text \<open>\<open>http.MaxBytesReader\<close> with \<open>ParseForm\<close>; a body of another type is left to Gin, within the limit.\<close>

definition parse_lti_form :: "lti_handler_env \<Rightarrow> ctx \<Rightarrow> form_result" where
  "parse_lti_form H c =
     (let content_type = get_header c ''Content-Type'';
          media = (if content_type = [] then Some ''application/octet-stream'' else lh_media_type H content_type)
      in case media of
           None \<Rightarrow> FormInvalid
         | Some m \<Rightarrow>
             if m = ''application/x-www-form-urlencoded'' then
               if max_lti_form_size < length (request_text c) then FormTooLarge
               else if body_unreadable c \<or> query_malformed (request_text c) \<or> query_malformed (cx_raw_query c)
               then FormInvalid
               else Form (parse_query (request_text c))
             else if query_malformed (cx_raw_query c) then FormInvalid
             else Form (lh_other_form H content_type (take max_lti_form_size (request_text c))))"

section \<open>Administration\<close>

definition register_platform_handler ::
    "lti_handler_env \<Rightarrow> gorm \<Rightarrow> time \<Rightarrow> string \<Rightarrow> (nat \<Rightarrow> nat list option) \<Rightarrow> ctx \<Rightarrow> db \<Rightarrow> (nat \<times> lti_reply) \<times> db" where
  "register_platform_handler H g now nid rnd c d =
     (case lh_bind_platform H (request_text c) of
        None \<Rightarrow> ((400, LtiError), d)
      | Some p \<Rightarrow>
          (case register_platform (lh_env H) g now nid rnd p d of
             (Inl _, d') \<Rightarrow> ((500, LtiError), d')
           | (Inr p', d') \<Rightarrow> ((201, LtiPlatformReply p'), d')))"

definition register_resource_link_handler ::
    "lti_handler_env \<Rightarrow> gorm \<Rightarrow> time \<Rightarrow> string \<Rightarrow> ctx \<Rightarrow> db \<Rightarrow> (nat \<times> lti_reply) \<times> db" where
  "register_resource_link_handler H g now nid c d =
     (case lh_bind_link H (request_text c) of
        None \<Rightarrow> ((400, LtiError), d)
      | Some l \<Rightarrow>
          (case register_resource_link g now nid l d of
             (Inl _, d') \<Rightarrow> ((400, LtiError), d')
           | (Inr l', d') \<Rightarrow> ((201, LtiLinkReply l'), d')))"

section \<open>Login\<close>

text \<open>The parameters come from the query, or all from the form when the query has no issuer.\<close>

definition login_parameter :: "url_values \<Rightarrow> url_values \<Rightarrow> string \<Rightarrow> string" where
  "login_parameter query form k = (if values_get query ''iss'' = [] then values_get form k else values_get query k)"

definition answer_login ::
    "lti_handler_env \<Rightarrow> gorm \<Rightarrow> time \<Rightarrow> string \<Rightarrow> string \<Rightarrow> url_values \<Rightarrow> url_values \<Rightarrow> db \<Rightarrow> (nat \<times> lti_reply) \<times> db" where
  "answer_login H g now st nonce query form d =
     (let param = login_parameter query form
      in if param ''iss'' = [] \<or> param ''client_id'' = [] then ((400, LtiError), d)
         else (case initiate_login (lh_env H) g now st nonce (param ''iss'') (param ''client_id'')
                 (param ''target_link_uri'') (param ''login_hint'') (param ''lti_message_hint'') d of
             (LoginFails e, d') \<Rightarrow> ((if e = ErrPlatformNotFound \<or> e = ErrInvalidLTIRequest then 400 else 500, LtiError), d')
           | (LoginPanics, d') \<Rightarrow> ((500, LtiError), d')
           | (LoginRedirect target, d') \<Rightarrow> ((302, LtiRedirect target), d')))"

definition initiate_login_handler ::
    "lti_handler_env \<Rightarrow> gorm \<Rightarrow> time \<Rightarrow> string \<Rightarrow> string \<Rightarrow> ctx \<Rightarrow> db \<Rightarrow> (nat \<times> lti_reply) \<times> db" where
  "initiate_login_handler H g now st nonce c d =
     (if cx_method c = ''POST'' then
        (case parse_lti_form H c of
           FormTooLarge \<Rightarrow> ((413, LtiError), d)
         | FormInvalid \<Rightarrow> ((400, LtiError), d)
         | Form form \<Rightarrow> answer_login H g now st nonce (parse_query (cx_raw_query c)) form d)
      else answer_login H g now st nonce (parse_query (cx_raw_query c)) [] d)"

section \<open>Launch\<close>

definition launch_error_status :: "service_err \<Rightarrow> nat" where
  "launch_error_status e =
     (if e = ErrInvalidLTIState \<or> e = ErrInvalidLTIToken \<or> e = ErrPlatformNotFound then 401
      else if e = ErrResourceLinkMissing \<or> e = ErrDeliveryForbidden then 403
      else if e = ErrDeliveryClosed \<or> e = ErrMaxAttempts then 409
      else 500)"

definition launch_handler ::
    "lti_handler_env \<Rightarrow> launch_env \<Rightarrow> (nat \<Rightarrow> db \<Rightarrow> db) \<Rightarrow> time \<Rightarrow> time \<Rightarrow> ctx \<Rightarrow> jwks_cache \<Rightarrow> db \<Rightarrow>
       (nat \<times> lti_reply) \<times> jwks_cache \<times> db" where
  "launch_handler H L others now1 now2 c cache d =
     (case parse_lti_form H c of
        FormTooLarge \<Rightarrow> ((413, LtiError), cache, d)
      | FormInvalid \<Rightarrow> ((400, LtiError), cache, d)
      | Form form \<Rightarrow>
          if values_get form ''id_token'' = [] \<or> values_get form ''state'' = [] then ((400, LtiError), cache, d)
          else (case handle_launch (lh_env H) L others (values_get form ''id_token'') (values_get form ''state'') cache d of
              (Inl e, cache', d') \<Rightarrow> ((launch_error_status e, LtiError), cache', d')
            | (Inr s, cache', d') \<Rightarrow>
                (case generate_jwt (lh_jwt H) now1 now2 (s_user_id s) [''STUDENT''] (lh_config H) (lh_token_ttl H) of
                   Inl _ \<Rightarrow> ((500, LtiError), cache', d')
                 | Inr tok \<Rightarrow>
                     ((200, LtiSession s tok (f64_to_int (duration_seconds (lh_token_ttl H)))), cache', d'))))"

section \<open>The launched user\<close>

definition graphic :: "char \<Rightarrow> bool" where
  "graphic c \<longleftrightarrow> 32 < (of_char c :: nat) \<and> of_char c < (128 :: nat)"

lemma trim_space_graphic:
  assumes "\<forall>c \<in> set s. graphic c"
  shows "trim_space s = s"
proof -
  have "\<forall>c \<in> set ascii_space_chars. \<not> graphic c" by (simp add: ascii_space_chars_def graphic_def)
  then have "dropWhile (\<lambda>c. c \<in> set ascii_space_chars) t = t" if "\<forall>c \<in> set t. graphic c" for t
    using that by (cases t) auto
  moreover have "is_ascii s" using assms by (simp add: is_ascii_def graphic_def)
  ultimately show ?thesis using assms by (simp add: trim_space_ascii)
qed

lemma graphic_url_char: "graphic (url_char n)"
  by (auto simp: graphic_def url_char_def sextet_char_def)

lemma graphic_raw_url_encode: "c \<in> set (raw_url_encode bs) \<Longrightarrow> graphic c"
  by (induction bs rule: raw_url_encode.induct) (auto simp: graphic_url_char)

lemma trim_lti_user [simp]: "trim_space (lti_user_id V i s) = lti_user_id V i s"
  by (rule trim_space_graphic) (auto simp: lti_user_id_def dest: graphic_raw_url_encode, auto simp: graphic_def)

lemma launch_handler_ok:
  assumes "launch_handler H L others now1 now2 c cache d = ((st, LtiSession s tok ex), cache', d')"
  obtains form where "parse_lti_form H c = Form form" "st = 200"
    "handle_launch (lh_env H) L others (values_get form ''id_token'') (values_get form ''state'') cache d = (Inr s, cache', d')"
    "generate_jwt (lh_jwt H) now1 now2 (s_user_id s) [''STUDENT''] (lh_config H) (lh_token_ttl H) = Inr tok"
  using assms
  by (auto simp: launch_handler_def split: form_result.splits if_splits prod.splits sum.splits)

text \<open>
  Claim C12: a launch logs in the student and nobody else.  The access token a successful launch answers
  with authenticates, until a second before it expires, exactly the user derived from the verified
  issuer and subject, with the role STUDENT only: it owns the launched session and no
  administrator route lets it pass.
\<close>
theorem launch_token_authenticates:
  assumes "launch_handler H L others now1 now2 c cache d = ((200, LtiSession s tok ex), cache', d')"
    and "parses_own_tokens (lh_jwt H) (lh_config H)
      (issued_claims now1 now2 (s_user_id s) [''STUDENT''] (lh_config H) (lh_token_ttl H))"
    and "now2 \<le> t" and "t \<le> now1 + lh_token_ttl H - second"
    and "get_header rq ''Authorization'' = ''Bearer '' @ tok"
  shows "\<exists>p cl id_token kid key. p \<in> set (lti_platforms d)
    \<and> lj_parse (la_jwt L) (launch_key kid key) (launch_options p) (la_parse_now L) id_token = Some cl
    \<and> s_user_id s = lti_user_id (lh_env H) (p_issuer p) (lc_subject cl)
    \<and> jwt_auth (lh_jwt H) (lh_config H) t srv rq =
        (srv, Next (ctx_set ''user_roles'' (CtxStrings [''STUDENT'']) (ctx_set ''user_id'' (CtxString (s_user_id s)) rq)))
    \<and> (\<exists>c1 st r. run_chain [jwt_auth (lh_jwt H) (lh_config H) t, require_role ''ADMIN''] srv rq = (srv, Abort c1 st r))"
proof -
  obtain form where run:
    "handle_launch (lh_env H) L others (values_get form ''id_token'') (values_get form ''state'') cache d = (Inr s, cache', d')"
    and tok: "generate_jwt (lh_jwt H) now1 now2 (s_user_id s) [''STUDENT''] (lh_config H) (lh_token_ttl H) = Inr tok"
    using launch_handler_ok [OF assms(1)] by metis
  note auth = issued_token_passes [OF tok assms(2-5), of srv]
  obtain v d1 d2 where v: "verify_launch (lh_env H) L (values_get form ''id_token'') (values_get form ''state'') cache d = (Inr v, cache')"
    and start: "start_session (la_session_gorm L) (la_start_now L) (la_new_id L) (rl_delivery_id (vl_link v))
       (lti_user_id (lh_env H) (p_issuer (vl_platform v)) (lc_subject (vl_claims v))) (others 2 d1) = (Inr s, d2)"
    by (rule handle_launch_Inr [OF run])
  have "s_user_id s = lti_user_id (lh_env H) (p_issuer (vl_platform v)) (lc_subject (vl_claims v))"
    using start_session_stored [OF start] by (simp add: of_user_def)
  moreover have "vl_platform v \<in> set (lti_platforms d)"
    using verify_launch_Inr [OF v] by (auto dest: find_platform_Some)
  moreover obtain kid key where "lj_parse (la_jwt L) (launch_key kid key) (launch_options (vl_platform v))
      (la_parse_now L) (values_get form ''id_token'') = Some (vl_claims v)"
    using verify_launch_Inr [OF v] by (auto elim: verified_claims_Some)
  moreover have "\<exists>c1 st r. run_chain [jwt_auth (lh_jwt H) (lh_config H) t, require_role ''ADMIN''] srv rq = (srv, Abort c1 st r)"
    by (simp add: auth require_role_def ctx_get_def ctx_set_def update_conv')
  ultimately show ?thesis using auth by blast
qed

end
