(* ===== verification/LtiGrades.thy ===== *)
theory LtiGrades
  imports LtiKeys Auth ResultsExport GoJson
begin

text \<open>
  The grade passback of \<open>internal/service/lti_service.go\<close>: \<open>SubmitGradeToLMS\<close>, the OAuth token it
  fetches and the maximum score.  RS256 signing, the decimal form of a float in JSON, the SQL sum and
  the HTTP exchange are parameters; the result carries the requests that were sent, in order.
\<close>

section \<open>The maximum score\<close>

text \<open>\<open>sql_sum\<close> is the database's \<open>SUM\<close> over at least one row.\<close>

definition score_products :: "string \<Rightarrow> db \<Rightarrow> f64 list" where
  "score_products did d =
     [f64_mul (i_max_score it) (ti_weight ti).
        ti \<leftarrow> test_items d, it \<leftarrow> items d, i_id it = ti_item_id ti,
        sec \<leftarrow> test_sections d, sec_id sec = ti_section_id ti,
        dl \<leftarrow> deliveries d, d_test_id dl = sec_test_id sec \<and> d_id dl = did]"

definition delivery_maximum_score :: "(f64 list \<Rightarrow> f64) \<Rightarrow> gorm \<Rightarrow> nat \<Rightarrow> string \<Rightarrow> db \<Rightarrow> service_err + f64" where
  "delivery_maximum_score sql_sum g k did d =
     (if stmt_fails g k then Inl (ErrStatement k)
      else
        let total_score = (case score_products did d of [] \<Rightarrow> Fin 0 | ps \<Rightarrow> sql_sum ps)
        in if f64_le total_score (Fin 0) then Inl (ErrOther ''maximum score invalid'') else Inr total_score)"

section \<open>The access token\<close>

record assertion_claims =
  as_issuer :: string
  as_subject :: string
  as_audience :: "string list"
  as_expires_at :: time
  as_issued_at :: time
  as_id :: string

record grade_env =
  ge_gorm :: gorm
  ge_io :: lti_io
  ge_token_now :: time
  ge_token_id :: string
  ge_sign :: "rsa_private_key \<Rightarrow> string \<Rightarrow> assertion_claims \<Rightarrow> string option"
  ge_score_now :: time
  ge_sql_sum :: "f64 list \<Rightarrow> f64"
  ge_float_text :: "f64 \<Rightarrow> string option"

definition client_assertion :: "grade_env \<Rightarrow> lti_platform \<Rightarrow> assertion_claims" where
  "client_assertion G p =
     \<lparr>as_issuer = p_client_id p, as_subject = p_client_id p, as_audience = [p_auth_token_url p],
      as_expires_at = numeric_date (ge_token_now G + 5 * minute), as_issued_at = numeric_date (ge_token_now G),
      as_id = ge_token_id G\<rparr>"

definition token_form :: "string \<Rightarrow> url_values" where
  "token_form assertion =
     [(''grant_type'', [''client_credentials'']),
      (''client_assertion_type'', [''urn:ietf:params:oauth:client-assertion-type:jwt-bearer'']),
      (''client_assertion'', [assertion]),
      (''scope'', [''https://purl.imsglobal.org/spec/lti-ags/scope/score''])]"

definition token_request :: "string \<Rightarrow> string \<Rightarrow> lti_request" where
  "token_request target assertion =
     \<lparr>lq_method = ''POST'', lq_url = target,
      lq_headers = [(''Content-Type'', ''application/x-www-form-urlencoded'')],
      lq_body = values_encode (token_form assertion)\<rparr>"

text \<open>Validating a URL for a set of hosts and sending a request to it: the request, and the response.\<close>

definition post_to ::
    "lti_env \<Rightarrow> lti_io \<Rightarrow> string \<Rightarrow> string list \<Rightarrow> (string \<Rightarrow> lti_request) \<Rightarrow>
       (service_err + (int \<times> request_body)) \<times> lti_request list" where
  "post_to V io raw hosts mk =
     (let U = lv_unicode V; N = lv_net V
      in case safe_client U N raw hosts of
        Inl e \<Rightarrow> (Inl e, [])
      | Inr policy \<Rightarrow>
          (case validate_url U N policy raw of
             Inl _ \<Rightarrow> (Inl (ErrOther ''unsafe URL''), [])
           | Inr u \<Rightarrow>
               let target = net_url_string N u
               in if \<not> io_new_request_ok io target then (Inl (ErrOther ''request''), [])
                  else (case io_http io (mk target) of
                      None \<Rightarrow> (Inl (ErrOther ''transport''), [mk target])
                    | Some resp \<Rightarrow> (Inr resp, [mk target]))))"

definition fetch_access_token ::
    "lti_env \<Rightarrow> grade_env \<Rightarrow> lti_platform \<Rightarrow> rsa_private_key \<Rightarrow> (service_err + string) \<times> lti_request list" where
  "fetch_access_token V G p key =
     (case ge_sign G key (p_key_id p) (client_assertion G p) of
        None \<Rightarrow> (Inl (ErrOther ''signing''), [])
      | Some assertion \<Rightarrow>
          (case post_to V (ge_io G) (p_auth_token_url p)
              (hostnames (lv_unicode V) (lv_net V) [p_auth_token_url p]) (\<lambda>t. token_request t assertion) of
             (Inl e, rqs) \<Rightarrow> (Inl e, rqs)
           | (Inr (status, body), rqs) \<Rightarrow>
               if status < 200 \<or> 300 \<le> status then (Inl (ErrOther ''token status''), rqs)
               else (case io_access_token (ge_io G) (take (2 ^ 20) (body_bytes body)) of
                   None \<Rightarrow> (Inl (ErrOther ''token response''), rqs)
                 | Some tok \<Rightarrow> (if tok = [] then Inl (ErrOther ''token response'') else Inr tok, rqs))))"

section \<open>The score\<close>

text \<open>\<open>time.RFC3339\<close> in UTC.\<close>

definition rfc3339 :: "time \<Rightarrow> string" where
  "rfc3339 t = date_text 0 t @ ''T'' @ clock_text 0 t @ ''Z''"

text \<open>The comment "TAO Core Go" followed by the UTF-8 bytes of six Chinese characters.\<close>

definition grade_comment :: string where
  "grade_comment = ''TAO Core Go '' @
     bytes [0xE8, 0x87, 0xAA, 0xE5, 0x8B, 0x95, 0xE8, 0xA8, 0x88, 0xE5, 0x88, 0x86, 0xE5, 0xAE, 0x8C, 0xE6, 0x88, 0x90]"

definition grade_payload :: "grade_env \<Rightarrow> test_session \<Rightarrow> lti_link_session \<Rightarrow> f64 \<Rightarrow> ags_grade_payload" where
  "grade_payload G s l maximum =
     \<lparr>ag_timestamp = rfc3339 (ge_score_now G), ag_score_given = s_total_score s, ag_score_maximum = maximum,
      ag_comment = grade_comment, ag_activity_progress = ''Completed'', ag_grading_progress = ''FullyGraded'',
      ag_user_id = ls_lis_user_id l\<rparr>"

definition grade_json :: "(f64 \<Rightarrow> string option) \<Rightarrow> ags_grade_payload \<Rightarrow> string option" where
  "grade_json float_text a =
     (case (float_text (ag_score_given a), float_text (ag_score_maximum a)) of
        (Some given, Some maximum) \<Rightarrow>
          Some (''{\"timestamp\":'' @ json_string (ag_timestamp a) @ '',\"scoreGiven\":'' @ given
            @ '',\"scoreMaximum\":'' @ maximum @ '',\"comment\":'' @ json_string (ag_comment a)
            @ '',\"activityProgress\":'' @ json_string (ag_activity_progress a)
            @ '',\"gradingProgress\":'' @ json_string (ag_grading_progress a)
            @ '',\"userId\":'' @ json_string (ag_user_id a) @ ''}'')
      | _ \<Rightarrow> None)"

definition score_request :: "string \<Rightarrow> string \<Rightarrow> string \<Rightarrow> lti_request" where
  "score_request token body target =
     \<lparr>lq_method = ''POST'', lq_url = target,
      lq_headers = [(''Authorization'', ''Bearer '' @ token),
                    (''Content-Type'', ''application/vnd.ims.lis.v1.score+json'')],
      lq_body = body\<rparr>"

text \<open>Sending the score of a session over its link, once the platform is known.\<close>

definition send_grade ::
    "lti_env \<Rightarrow> grade_env \<Rightarrow> test_session \<Rightarrow> lti_link_session \<Rightarrow> lti_platform \<Rightarrow> db \<Rightarrow>
       service_err option \<times> lti_request list" where
  "send_grade V G s l p d =
     (case decrypt (lv_cipher V) (p_private_key p) of
        Inl _ \<Rightarrow> (Some (ErrOther ''decryption''), [])
      | Inr pem \<Rightarrow>
          (case parse_rsa_private_key (lv_keys V) pem of
             Inl e \<Rightarrow> (Some e, [])
           | Inr key \<Rightarrow>
               (case fetch_access_token V G p key of
                  (Inl e, rqs) \<Rightarrow> (Some e, rqs)
                | (Inr token, rqs) \<Rightarrow>
                    (case delivery_maximum_score (ge_sql_sum G) (ge_gorm G) 3 (s_delivery_id s) d of
                       Inl e \<Rightarrow> (Some e, rqs)
                     | Inr maximum \<Rightarrow>
                         (case grade_json (ge_float_text G) (grade_payload G s l maximum) of
                            None \<Rightarrow> (Some (ErrOther ''marshal''), rqs)
                          | Some body \<Rightarrow>
                              (case post_to V (ge_io G) (trim_right_set ''/'' (ls_lineitem_url l) @ ''/scores'')
                                  (hostnames (lv_unicode V) (lv_net V) [p_issuer p, p_auth_token_url p])
                                  (score_request token body) of
                                 (Inl e, rqs') \<Rightarrow> (Some e, rqs @ rqs')
                               | (Inr (status, _), rqs') \<Rightarrow>
                                   (if status < 200 \<or> 300 \<le> status then Some (ErrOther ''score status'') else None,
                                    rqs @ rqs')))))))"

definition submit_grade :: "lti_env \<Rightarrow> grade_env \<Rightarrow> test_session \<Rightarrow> db \<Rightarrow> service_err option \<times> lti_request list" where
  "submit_grade V G s d =
     (if stmt_fails (ge_gorm G) 1 then (Some (ErrStatement 1), [])
      else case first_by (pk_le (ge_gorm G)) ls_session_id (\<lambda>l. ls_session_id l = s_id s) (lti_link_sessions d) of
        None \<Rightarrow> (None, [])
      | Some l \<Rightarrow>
          if ls_lineitem_url l = [] then (None, [])
          else if stmt_fails (ge_gorm G) 2 then (Some (ErrStatement 2), [])
          else (case first_by (pk_le (ge_gorm G)) p_id (\<lambda>p. p_id p = ls_platform_id l) (lti_platforms d) of
              None \<Rightarrow> (Some ErrRecordNotFound, [])
            | Some p \<Rightarrow> send_grade V G s l p d))"

section \<open>Where requests go\<close>

text \<open>A target is the URL a policy for the given hosts makes of the string: HTTPS, to a public host.\<close>

definition allowed_target :: "lti_env \<Rightarrow> string list \<Rightarrow> string \<Rightarrow> string \<Rightarrow> bool" where
  "allowed_target V hosts raw target \<longleftrightarrow>
     (\<exists>pol u. new_outbound_policy (lv_unicode V) hosts = Some pol
        \<and> validate_url (lv_unicode V) (lv_net V) pol raw = Inr u \<and> target = net_url_string (lv_net V) u
        \<and> url_scheme u = ''https'' \<and> \<not> url_has_user u
        \<and> host_allowed (lv_unicode V) pol (normal_host (lv_unicode V) (url_hostname u))
        \<and> (case net_parse_ip (lv_net V) (normal_host (lv_unicode V) (url_hostname u)) of
             None \<Rightarrow> True | Some ip \<Rightarrow> safe_public_ip ip))"

lemma post_to_cases:
  assumes "post_to V io raw hosts mk = (res, rqs)"
  obtains (unsent) e where "res = Inl e" "rqs = []" "\<forall>t. allowed_target V hosts raw t \<longrightarrow> \<not> io_new_request_ok io t"
  | (sent) target where "rqs = [mk target]" "allowed_target V hosts raw target"
      "res = (case io_http io (mk target) of None \<Rightarrow> Inl (ErrOther ''transport'') | Some r \<Rightarrow> Inr r)"
proof (cases "safe_client (lv_unicode V) (lv_net V) raw hosts")
  case (Inl e)
  then have "\<not> allowed_target V hosts raw t" for t
    by (auto simp: safe_client_def allowed_target_def split: option.splits sum.splits)
  with assms Inl show thesis by (intro unsent) (auto simp: post_to_def Let_def)
next
  case (Inr pol)
  then have pol: "new_outbound_policy (lv_unicode V) hosts = Some pol"
    by (auto simp: safe_client_def split: option.splits sum.splits)
  show thesis
  proof (cases "validate_url (lv_unicode V) (lv_net V) pol raw")
    case (Inl e)
    with pol have "\<not> allowed_target V hosts raw t" for t by (auto simp: allowed_target_def)
    with assms Inr Inl show thesis by (intro unsent) (auto simp: post_to_def Let_def)
  next
    case u: (Inr u)
    then have t: "allowed_target V hosts raw (net_url_string (lv_net V) u)"
      using validate_url_Inr [OF u] pol unfolding allowed_target_def by blast
    have only: "allowed_target V hosts raw t \<Longrightarrow> t = net_url_string (lv_net V) u" for t
      using u pol by (auto simp: allowed_target_def)
    show thesis
    proof (cases "io_new_request_ok io (net_url_string (lv_net V) u)")
      case False
      with assms Inr u show thesis by (intro unsent) (auto simp: post_to_def Let_def dest: only)
    next
      case True
      with assms Inr u show thesis by (intro sent [OF _ t]) (auto simp: post_to_def Let_def split: option.splits)
    qed
  qed
qed

text \<open>The two requests of a passback, and what the first must have been answered.\<close>

definition answered_ok :: "grade_env \<Rightarrow> lti_request \<Rightarrow> bool" where
  "answered_ok G rq \<longleftrightarrow> (case io_http (ge_io G) rq of None \<Rightarrow> False | Some (status, _) \<Rightarrow> 200 \<le> status \<and> status < 300)"

definition token_sent :: "lti_env \<Rightarrow> lti_platform \<Rightarrow> lti_request \<Rightarrow> bool" where
  "token_sent V p rq \<longleftrightarrow> (\<exists>t a. rq = token_request t a
     \<and> allowed_target V (hostnames (lv_unicode V) (lv_net V) [p_auth_token_url p]) (p_auth_token_url p) t)"

definition token_won :: "grade_env \<Rightarrow> lti_request \<Rightarrow> string \<Rightarrow> bool" where
  "token_won G rq tok \<longleftrightarrow> answered_ok G rq \<and> tok \<noteq> []
     \<and> (\<exists>status b. io_http (ge_io G) rq = Some (status, b) \<and> io_access_token (ge_io G) (take (2 ^ 20) (body_bytes b)) = Some tok)"

definition score_sent ::
    "lti_env \<Rightarrow> grade_env \<Rightarrow> test_session \<Rightarrow> lti_link_session \<Rightarrow> lti_platform \<Rightarrow> db \<Rightarrow> string \<Rightarrow> lti_request \<Rightarrow> bool" where
  "score_sent V G s l p d tok rq \<longleftrightarrow> (\<exists>t maximum body. rq = score_request tok body t
     \<and> allowed_target V (hostnames (lv_unicode V) (lv_net V) [p_issuer p, p_auth_token_url p])
         (trim_right_set ''/'' (ls_lineitem_url l) @ ''/scores'') t
     \<and> delivery_maximum_score (ge_sql_sum G) (ge_gorm G) 3 (s_delivery_id s) d = Inr maximum
     \<and> grade_json (ge_float_text G) (grade_payload G s l maximum) = Some body)"

text \<open>
  Why a request is not sent: the stored key or its signature is missing, or the token URL is not one a
  request may go to; and, once the token request has been sent, no token won, no maximum, a score that
  cannot be encoded, or a line item that is not one a request may go to.
\<close>

definition token_blocked :: "lti_env \<Rightarrow> grade_env \<Rightarrow> lti_platform \<Rightarrow> bool" where
  "token_blocked V G p \<longleftrightarrow>
     (\<forall>pem key a t. decrypt (lv_cipher V) (p_private_key p) = Inr pem \<longrightarrow> parse_rsa_private_key (lv_keys V) pem = Inr key \<longrightarrow>
        ge_sign G key (p_key_id p) (client_assertion G p) = Some a \<longrightarrow>
        allowed_target V (hostnames (lv_unicode V) (lv_net V) [p_auth_token_url p]) (p_auth_token_url p) t \<longrightarrow>
        \<not> io_new_request_ok (ge_io G) t)"

definition score_blocked ::
    "lti_env \<Rightarrow> grade_env \<Rightarrow> test_session \<Rightarrow> lti_link_session \<Rightarrow> lti_platform \<Rightarrow> db \<Rightarrow> lti_request \<Rightarrow> bool" where
  "score_blocked V G s l p d rq \<longleftrightarrow>
     (\<forall>tok rq2. token_won G rq tok \<longrightarrow> score_sent V G s l p d tok rq2 \<longrightarrow> \<not> io_new_request_ok (ge_io G) (lq_url rq2))"

lemma token_won_unique: "token_won G rq tok \<Longrightarrow> token_won G rq tok' \<Longrightarrow> tok' = tok"
  by (auto simp: token_won_def)

lemma fetch_access_token_requests:
  assumes "fetch_access_token V G p key = (res, rqs)"
  shows "rqs = [] \<and> \<not> is_ok res \<and> (\<forall>a t. ge_sign G key (p_key_id p) (client_assertion G p) = Some a \<longrightarrow>
        allowed_target V (hostnames (lv_unicode V) (lv_net V) [p_auth_token_url p]) (p_auth_token_url p) t \<longrightarrow>
        \<not> io_new_request_ok (ge_io G) t)
    \<or> (\<exists>rq. rqs = [rq] \<and> token_sent V p rq \<and> (\<forall>tok. res = Inr tok \<longleftrightarrow> token_won G rq tok))"
proof (cases "ge_sign G key (p_key_id p) (client_assertion G p)")
  case None
  with assms show ?thesis by (auto simp: fetch_access_token_def)
next
  case (Some a)
  let ?hosts = "hostnames (lv_unicode V) (lv_net V) [p_auth_token_url p]"
  obtain r1 rqs1 where post: "post_to V (ge_io G) (p_auth_token_url p) ?hosts (\<lambda>t. token_request t a) = (r1, rqs1)"
    by fastforce
  then show ?thesis
  proof (cases rule: post_to_cases)
    case (unsent e)
    with assms Some post show ?thesis by (auto simp: fetch_access_token_def)
  next
    case (sent target)
    then have "token_sent V p (token_request target a)" by (auto simp: token_sent_def)
    moreover from assms Some post sent have "rqs = [token_request target a]"
      "\<forall>tok. res = Inr tok \<longleftrightarrow> token_won G (token_request target a) tok"
      by (auto simp: fetch_access_token_def token_won_def answered_ok_def split: if_splits option.splits prod.splits)
    ultimately show ?thesis by blast
  qed
qed

text \<open>Sending a grade: nothing, the token request alone, or both requests.\<close>

lemma post_score:
  assumes "delivery_maximum_score (ge_sql_sum G) (ge_gorm G) 3 (s_delivery_id s) d = Inr maximum"
    and "grade_json (ge_float_text G) (grade_payload G s l maximum) = Some body"
    and "post_to V (ge_io G) (trim_right_set ''/'' (ls_lineitem_url l) @ ''/scores'')
       (hostnames (lv_unicode V) (lv_net V) [p_issuer p, p_auth_token_url p]) (score_request tok body) = (r, rqs)"
  shows "rqs = [] \<and> \<not> is_ok r \<and> (\<forall>rq. score_sent V G s l p d tok rq \<longrightarrow> \<not> io_new_request_ok (ge_io G) (lq_url rq))
    \<or> (\<exists>rq. rqs = [rq] \<and> score_sent V G s l p d tok rq
         \<and> (answered_ok G rq \<longleftrightarrow> (\<exists>status b. r = Inr (status, b) \<and> 200 \<le> status \<and> status < 300)))"
  using assms(3)
proof (cases rule: post_to_cases)
  case (unsent e)
  then show ?thesis by (auto simp: score_sent_def score_request_def)
next
  case (sent target)
  with assms(1,2) show ?thesis by (auto simp: score_sent_def answered_ok_def split: option.splits prod.splits)
qed

lemma send_grade_won:
  assumes "decrypt (lv_cipher V) (p_private_key p) = Inr pem" and "parse_rsa_private_key (lv_keys V) pem = Inr key"
    and t: "fetch_access_token V G p key = (Inr tok, [rq1])" and won: "token_won G rq1 tok"
    and send: "send_grade V G s l p d = (res, rqs)"
  shows "rqs = [rq1] \<and> res \<noteq> None \<and> score_blocked V G s l p d rq1
    \<or> (\<exists>rq2. rqs = [rq1, rq2] \<and> score_sent V G s l p d tok rq2 \<and> (res = None \<longleftrightarrow> answered_ok G rq2))"
proof (cases "\<exists>maximum body. delivery_maximum_score (ge_sql_sum G) (ge_gorm G) 3 (s_delivery_id s) d = Inr maximum
    \<and> grade_json (ge_float_text G) (grade_payload G s l maximum) = Some body")
  case True
  then obtain maximum body where m: "delivery_maximum_score (ge_sql_sum G) (ge_gorm G) 3 (s_delivery_id s) d = Inr maximum"
    and j: "grade_json (ge_float_text G) (grade_payload G s l maximum) = Some body" by blast
  obtain r rqs2 where post: "post_to V (ge_io G) (trim_right_set ''/'' (ls_lineitem_url l) @ ''/scores'')
       (hostnames (lv_unicode V) (lv_net V) [p_issuer p, p_auth_token_url p]) (score_request tok body) = (r, rqs2)"
    by fastforce
  have "rqs = rq1 # rqs2" "res = None \<longleftrightarrow> (\<exists>status b. r = Inr (status, b) \<and> 200 \<le> status \<and> status < 300)"
    using assms m j post by (auto simp: send_grade_def not_less not_le split: sum.splits prod.splits if_splits)
  with post_score [OF m j post] show ?thesis
    by (auto simp: score_blocked_def dest: token_won_unique [OF won])
next
  case False
  with assms have "res \<noteq> None \<and> rqs = [rq1]"
    by (auto simp: send_grade_def split: sum.splits prod.splits option.splits)
  with False show ?thesis by (auto simp: score_blocked_def score_sent_def)
qed

lemma send_grade_requests:
  assumes "send_grade V G s l p d = (res, rqs)"
  shows "rqs = [] \<and> res \<noteq> None \<and> token_blocked V G p
    \<or> (\<exists>rq. rqs = [rq] \<and> res \<noteq> None \<and> token_sent V p rq \<and> score_blocked V G s l p d rq)
    \<or> (\<exists>rq1 rq2 tok. rqs = [rq1, rq2] \<and> token_sent V p rq1 \<and> token_won G rq1 tok \<and> score_sent V G s l p d tok rq2
         \<and> (res = None \<longleftrightarrow> answered_ok G rq2))"
proof (cases "\<exists>pem key. decrypt (lv_cipher V) (p_private_key p) = Inr pem \<and> parse_rsa_private_key (lv_keys V) pem = Inr key")
  case True
  then obtain pem key where k: "decrypt (lv_cipher V) (p_private_key p) = Inr pem"
      "parse_rsa_private_key (lv_keys V) pem = Inr key" by blast
  obtain rt rqs1 where t: "fetch_access_token V G p key = (rt, rqs1)" by fastforce
  show ?thesis
  proof (cases rt)
    case (Inl e)
    with assms k t have "res = Some e" "rqs = rqs1" by (simp_all add: send_grade_def)
    with fetch_access_token_requests [OF t] k Inl show ?thesis
      by (auto simp: token_blocked_def score_blocked_def)
  next
    case (Inr tok)
    with fetch_access_token_requests [OF t] obtain rq1 where
      rq: "rqs1 = [rq1]" "token_sent V p rq1" "token_won G rq1 tok" by auto
    from send_grade_won [OF k t [unfolded Inr rq(1)] rq(3) assms] rq(2,3) show ?thesis by blast
  qed
next
  case False
  with assms show ?thesis
    by (auto simp: send_grade_def token_blocked_def split: sum.splits)
qed

text \<open>
  Claim C24: the grade passback, where a session has at most one link.  A submission without a link, or
  with one without line item, sends nothing and succeeds.  Any other sends the token request to the
  platform's token URL and, with the token that request won, the session's score to the line item's
  \<open>/scores\<close>; each URL is one the outbound policy accepts, the first for the token URL's host, the
  second for the hosts of issuer and token URL; and it succeeds exactly when the score was sent and
  answered with a status from 200 to 299.  It stops before the token request only when a statement
  fails, the platform is gone, its key cannot sign or the token URL cannot be requested, and before the
  score only when no token was won, there is no maximum, or the score cannot be encoded or sent; in
  all these cases it fails.
\<close>
theorem grade_passback:
  assumes "submit_grade V G s d = (res, rqs)" and "distinct (map ls_session_id (lti_link_sessions d))"
  shows "if stmt_fails (ge_gorm G) 1 then res \<noteq> None \<and> rqs = []
    else if \<not> (\<exists>l \<in> set (lti_link_sessions d). ls_session_id l = s_id s \<and> ls_lineitem_url l \<noteq> [])
    then res = None \<and> rqs = []
    else \<exists>l \<in> set (lti_link_sessions d). ls_session_id l = s_id s \<and> ls_lineitem_url l \<noteq> []
      \<and> (rqs = [] \<and> res \<noteq> None \<and> (stmt_fails (ge_gorm G) 2 \<or> \<not> (\<exists>p \<in> set (lti_platforms d). p_id p = ls_platform_id l))
        \<or> (\<exists>p \<in> set (lti_platforms d). p_id p = ls_platform_id l
            \<and> (rqs = [] \<and> res \<noteq> None \<and> token_blocked V G p
               \<or> (\<exists>rq. rqs = [rq] \<and> res \<noteq> None \<and> token_sent V p rq \<and> score_blocked V G s l p d rq)
               \<or> (\<exists>rq1 rq2 tok. rqs = [rq1, rq2] \<and> token_sent V p rq1 \<and> token_won G rq1 tok
                    \<and> score_sent V G s l p d tok rq2 \<and> (res = None \<longleftrightarrow> answered_ok G rq2)))))"
proof (cases "stmt_fails (ge_gorm G) 1")
  case True
  with assms show ?thesis by (auto simp: submit_grade_def)
next
  case ok: False
  show ?thesis
  proof (cases "first_by (pk_le (ge_gorm G)) ls_session_id (\<lambda>l. ls_session_id l = s_id s) (lti_link_sessions d)")
    case None
    with ok assms show ?thesis by (auto simp: submit_grade_def first_by_None)
  next
    case (Some l)
    from first_by_Some [OF Some] have l: "l \<in> set (lti_link_sessions d)" "ls_session_id l = s_id s" by auto
    have only: "l' = l" if "l' \<in> set (lti_link_sessions d)" "ls_session_id l' = s_id s" for l'
      using assms(2) that l by (metis distinct_map inj_onD)
    show ?thesis
    proof (cases "ls_lineitem_url l = []")
      case True
      with ok Some assms only show ?thesis by (auto simp: submit_grade_def)
    next
      case item: False
      consider "rqs = []" "res \<noteq> None"
          "stmt_fails (ge_gorm G) 2 \<or> \<not> (\<exists>p \<in> set (lti_platforms d). p_id p = ls_platform_id l)"
        | p where "p \<in> set (lti_platforms d)" "p_id p = ls_platform_id l" "send_grade V G s l p d = (res, rqs)"
        using ok Some item assms(1)
        by (auto simp: submit_grade_def first_by_None split: if_splits option.splits dest!: first_by_Some)
      then have "\<exists>l \<in> set (lti_link_sessions d). ls_session_id l = s_id s \<and> ls_lineitem_url l \<noteq> []
        \<and> (rqs = [] \<and> res \<noteq> None \<and> (stmt_fails (ge_gorm G) 2 \<or> \<not> (\<exists>p \<in> set (lti_platforms d). p_id p = ls_platform_id l))
          \<or> (\<exists>p \<in> set (lti_platforms d). p_id p = ls_platform_id l
              \<and> (rqs = [] \<and> res \<noteq> None \<and> token_blocked V G p
                 \<or> (\<exists>rq. rqs = [rq] \<and> res \<noteq> None \<and> token_sent V p rq \<and> score_blocked V G s l p d rq)
                 \<or> (\<exists>rq1 rq2 tok. rqs = [rq1, rq2] \<and> token_sent V p rq1 \<and> token_won G rq1 tok
                      \<and> score_sent V G s l p d tok rq2 \<and> (res = None \<longleftrightarrow> answered_ok G rq2)))))"
      proof cases
        case 1
        with l item show ?thesis by blast
      next
        case 2
        from send_grade_requests [OF 2(3)] 2(1,2) l item show ?thesis by blast
      qed
      with ok l item show ?thesis by (auto simp del: ex_simps)
    qed
  qed
qed

section \<open>Keys from their registration to their use\<close>

lemma post_to_built: "post_to V io raw hosts mk = (res, rqs) \<Longrightarrow> rqs = [] \<or> (\<exists>t. rqs = [mk t])"
  by (erule post_to_cases) blast+

lemma fetch_access_token_signed:
  assumes "fetch_access_token V G p key = (res, rq # rqs)"
  shows "\<exists>a t. ge_sign G key (p_key_id p) (client_assertion G p) = Some a \<and> rq = token_request t a"
  using assms by (auto simp: fetch_access_token_def split: option.splits prod.splits sum.splits if_splits dest!: post_to_built)

lemma send_grade_first:
  assumes "decrypt (lv_cipher V) (p_private_key p) = Inr pem" and "parse_rsa_private_key (lv_keys V) pem = Inr key"
    and "send_grade V G s l p d = (res, rq # rqs)"
  shows "\<exists>r rqs'. fetch_access_token V G p key = (r, rq # rqs')"
proof (cases "fetch_access_token V G p key")
  case (Pair r rs)
  have "rs \<noteq> []" if "r = Inr tok" for tok using fetch_access_token_requests [OF Pair] that by auto
  then show ?thesis using assms Pair
    by (cases rs) (auto simp: send_grade_def split: sum.splits option.splits prod.splits)
qed

lemma submit_grade_sends:
  assumes "submit_grade V G s d = (res, rq # rqs)"
  obtains l p where "l \<in> set (lti_link_sessions d)" "ls_session_id l = s_id s"
    "p \<in> set (lti_platforms d)" "p_id p = ls_platform_id l" "send_grade V G s l p d = (res, rq # rqs)"
  using assms by (auto simp: submit_grade_def split: if_splits option.splits dest!: first_by_Some)

text \<open>
  Claim C26: the key an administrator submits signs the platform's grade passbacks.  After a platform
  has been registered with a private key, whatever the database then holds, as long as the row of the
  platform is still there under its identifier alone and all links of a session name this platform: the
  first request a grade submission of that session sends is the token request whose assertion is signed
  with exactly the submitted key, under the platform's key identifier, although the key is stored encrypted.
\<close>
theorem registered_key_signs:
  assumes "register_platform V g now nid rnd p0 d = (Inr p, d')" and "p_private_key p0 \<noteq> []"
    and "lv_cipher V = Some a" and "sound_nonce a rnd"
    and "\<forall>q \<in> set (lti_platforms d2). p_id q = p_id p \<longrightarrow> q = p"
    and "\<forall>l \<in> set (lti_link_sessions d2). ls_session_id l = s_id s \<longrightarrow> ls_platform_id l = p_id p"
    and "submit_grade V G s d2 = (res, rq # rqs)"
  shows "\<exists>key assertion t. parse_rsa_private_key (lv_keys V) (p_private_key p0) = Inr key
    \<and> ge_sign G key (p_key_id p) (client_assertion G p) = Some assertion \<and> rq = token_request t assertion
    \<and> prefix ''enc:v1:'' (p_private_key p) \<and> p_private_key p \<noteq> p_private_key p0"
proof -
  from register_platform_Inr [OF assms(1)] have prep: "prepare_platform V now nid rnd p0 = Inr p" by simp
  from prepare_platform_Inr [OF this] assms(2,3) obtain key where
    k: "encrypt (Some a) rnd (p_private_key p0) = Inr (p_private_key p)"
      "parse_rsa_private_key (lv_keys V) (p_private_key p0) = Inr key" "\<not> prefix ''enc:v1:'' (p_private_key p0)" by auto
  obtain l q where "q \<in> set (lti_platforms d2)" "p_id q = p_id p" "send_grade V G s l q d2 = (res, rq # rqs)"
    using submit_grade_sends [OF assms(7)] assms(6) by metis
  with assms(5) have send: "send_grade V G s l p d2 = (res, rq # rqs)" by blast
  have "decrypt (lv_cipher V) (p_private_key p) = Inr (p_private_key p0)"
    using cipher.get_put [OF assms(4) k(1)] assms(3) by simp
  from send_grade_first [OF this k(2) send] fetch_access_token_signed k(2)
    cipher.put_prefix [OF k(1)] cipher.not_in_clear [OF k(1,3)] show ?thesis
    by blast
qed

end
