(* ===== verification/Qti.thy ===== *)
theory Qti
  imports Scoring GoJson Http
begin

text \<open>
  The import of QTI 3.0 packages, \<open>internal/service/qti_service.go\<close>: the limits on a ZIP file, the
  extraction of media files, the conversion of an XML item, and the import with its transaction and
  clean-up.  What \<open>archive/zip\<close>, \<open>encoding/xml\<close> and \<open>http.DetectContentType\<close> make of bytes are parameters
  (\<open>qti_env\<close>), as are random numbers, generated names, failing file operations and the order in which
  the \<open>range\<close> over the media map runs.  The media directory is a list of file names with contents.
\<close>

section \<open>Packages\<close>

record zip_entry =
  ze_name :: string
  ze_uncompressed :: "64 word"
  ze_compressed :: "64 word"
  ze_content :: "request_body option"

text \<open>What \<open>os.Stat\<close> and \<open>zip.OpenReader\<close> return for the uploaded file.\<close>

record package =
  pk_stat :: "(bool \<times> int) option"
  pk_entries :: "zip_entry list option"

datatype qti_err =
    QtiFile | QtiSize | QtiZip | QtiEntries | QtiExpanded | QtiRatio | QtiDirectory | QtiSvg | QtiMedia
  | QtiXmlSize | QtiBegin | QtiCreate service_err | QtiNoItems | QtiCommit

definition max_qti_package_size :: int where
  "max_qti_package_size = 50 * 2 ^ 20"

definition max_qti_entries :: nat where
  "max_qti_entries = 1000"

definition max_qti_expanded_size :: "64 word" where
  "max_qti_expanded_size = 200 * 2 ^ 20"

definition max_qti_file_size :: "64 word" where
  "max_qti_file_size = 20 * 2 ^ 20"

definition max_qti_xml_size :: "64 word" where
  "max_qti_xml_size = 5 * 2 ^ 20"

definition max_qti_compression_ratio :: "64 word" where
  "max_qti_compression_ratio = 100"

text \<open>The loop over the declared sizes, with the total in 64 bits.\<close>

fun check_sizes :: "64 word \<Rightarrow> zip_entry list \<Rightarrow> qti_err option" where
  "check_sizes expanded [] = None"
| "check_sizes expanded (f # fs) =
     (let expanded' = expanded + ze_uncompressed f
      in if max_qti_file_size < ze_uncompressed f \<or> max_qti_expanded_size < expanded' then Some QtiExpanded
         else if 0 < ze_compressed f \<and> max_qti_compression_ratio < ze_uncompressed f div ze_compressed f
         then Some QtiRatio
         else check_sizes expanded' fs)"

text \<open>The checks before anything is extracted.\<close>

definition open_package :: "package \<Rightarrow> qti_err + zip_entry list" where
  "open_package p =
     (case pk_stat p of
        None \<Rightarrow> Inl QtiFile
      | Some (regular, n) \<Rightarrow>
          if \<not> regular \<or> n \<le> 0 \<or> max_qti_package_size < n then Inl QtiSize
          else (case pk_entries p of
              None \<Rightarrow> Inl QtiZip
            | Some fs \<Rightarrow>
                if max_qti_entries < length fs then Inl QtiEntries
                else (case check_sizes 0 fs of Some e \<Rightarrow> Inl e | None \<Rightarrow> Inr fs)))"

section \<open>Paths\<close>

text \<open>\<open>filepath.Ext\<close> and \<open>filepath.Base\<close>.\<close>

definition file_ext :: "string \<Rightarrow> string" where
  "file_ext s =
     (let r = takeWhile (\<lambda>c. c \<noteq> CHR ''.'' \<and> c \<noteq> CHR ''/'') (rev s)
      in case drop (length r) (rev s) of
           c # _ \<Rightarrow> if c = CHR ''.'' then CHR ''.'' # rev r else []
         | [] \<Rightarrow> [])"

definition file_base :: "string \<Rightarrow> string" where
  "file_base s =
     (if s = [] then ''.''
      else
        let t = trim_right_set ''/'' s; b = rev (takeWhile (\<lambda>c. c \<noteq> CHR ''/'') (rev t))
        in if b = [] then ''/'' else b)"

section \<open>Media files\<close>

record qti_choice =
  qc_identifier :: string
  qc_text :: string

record qti_item =
  qi_identifier :: string
  qi_title :: string
  qi_correct :: "string list"
  qi_default_value :: f64
  qi_response_identifier :: string
  qi_max_choices :: int
  qi_prompt :: string
  qi_choices :: "qti_choice list"

type_synonym media_dir = "(string \<times> string) list"

record qti_env =
  qe_unicode :: unicode_tables
  qe_detect :: "string \<Rightarrow> string"
  qe_xml :: "string \<Rightarrow> qti_item option"
  qe_mkdir_fails :: bool
  qe_media_fails :: "nat \<Rightarrow> bool"
  qe_copy_fails :: "nat \<Rightarrow> nat option"
  qe_close_fails :: "nat \<Rightarrow> bool"
  qe_remove_fails :: "string \<Rightarrow> bool"
  qe_media_name :: "nat \<Rightarrow> string"
  qe_order :: "nat \<Rightarrow> (string \<times> string) list \<Rightarrow> (string \<times> string) list"
  qe_draws :: "nat \<Rightarrow> nat \<Rightarrow> nat option"
  qe_item_id :: "nat \<Rightarrow> string"

definition allowed_media_types :: "string \<Rightarrow> string list" where
  "allowed_media_types ext =
     (if ext = ''.png'' then [''image/png'']
      else if ext = ''.jpg'' then [''image/jpeg'']
      else if ext = ''.jpeg'' then [''image/jpeg'']
      else if ext = ''.gif'' then [''image/gif'']
      else if ext = ''.mp3'' then [''audio/mpeg'', ''application/octet-stream'']
      else if ext = ''.mp4'' then [''video/mp4'', ''application/octet-stream'']
      else [])"

definition validate_media_type :: "unicode_tables \<Rightarrow> string \<Rightarrow> string \<Rightarrow> bool" where
  "validate_media_type U ext content_type = list_ex (\<lambda>t. content_type = t) (allowed_media_types (to_lower U ext))"

text \<open>
  The file operations of the import: \<open>qe_media_fails\<close> says which entry's file cannot be created,
  \<open>qe_copy_fails\<close> after how many bytes writing it stops, \<open>qe_close_fails\<close> whether closing it fails, and
  \<open>qe_remove_fails\<close> which names cannot be removed: the error of a removal is ignored and the file stays.
\<close>

definition discard_media :: "qti_env \<Rightarrow> string \<Rightarrow> string \<Rightarrow> media_dir \<Rightarrow> media_dir" where
  "discard_media E name data files = (if qe_remove_fails E name then files @ [(name, data)] else files)"

text \<open>Copying and closing: whether both succeed within the size limit, and what is in the file then.\<close>

definition copy_media :: "qti_env \<Rightarrow> nat \<Rightarrow> request_body \<Rightarrow> bool \<times> string" where
  "copy_media E i content =
     (case qe_copy_fails E i of
        Some k \<Rightarrow> (False, take k (take (nat (uint max_qti_file_size + 1)) (body_bytes content)))
      | None \<Rightarrow>
          (case read_limited (uint max_qti_file_size) content of
             None \<Rightarrow> (False, body_bytes content)
           | Some data \<Rightarrow> (\<not> uint max_qti_file_size < int (length data) \<and> \<not> qe_close_fails E i, data)))"

text \<open>
  \<open>saveMediaFile\<close> for the \<open>i\<close>-th entry: the name of the new file, if there is one, and the directory.
  The first 512 bytes decide the type; an empty or broken stream is an error; a file that fails after
  it has been created is removed again, unless that fails too.
\<close>

definition save_media_file :: "qti_env \<Rightarrow> nat \<Rightarrow> zip_entry \<Rightarrow> media_dir \<Rightarrow> string option \<times> media_dir" where
  "save_media_file E i f files =
     (case ze_content f of
        None \<Rightarrow> (None, files)
      | Some content \<Rightarrow>
          let ext = file_ext (ze_name f); name = qe_media_name E i @ ext; start = take 512 (body_bytes content)
          in if qe_media_fails E i \<or> name \<in> fst ` set files then (None, files)
             else if start = [] \<or> (body_breaks content \<and> length (body_bytes content) < 512)
             then (None, discard_media E name [] files)
             else if \<not> validate_media_type (qe_unicode E) ext (qe_detect E start)
             then (None, discard_media E name [] files)
             else (case copy_media E i content of
                 (False, data) \<Rightarrow> (None, discard_media E name data files)
               | (True, data) \<Rightarrow> (Some name, files @ [(name, data)])))"

definition media_url :: "string \<Rightarrow> string" where
  "media_url name = ''/uploads/media/'' @ name"

text \<open>The first pass: media files are stored, XML files collected, SVG refused.\<close>

record scan_state =
  sc_urls :: "(string \<times> string) list"
  sc_xml :: "zip_entry list"
  sc_created :: "string list"
  sc_files :: media_dir

definition media_exts :: "string list" where
  "media_exts = [''.png'', ''.jpg'', ''.jpeg'', ''.gif'', ''.mp3'', ''.mp4'']"

fun scan_entries :: "qti_env \<Rightarrow> nat \<Rightarrow> zip_entry list \<Rightarrow> scan_state \<Rightarrow> qti_err option \<times> scan_state" where
  "scan_entries E i [] s = (None, s)"
| "scan_entries E i (f # fs) s =
     (let ext = to_lower (qe_unicode E) (file_ext (ze_name f))
      in if ext = ''.svg'' then (Some QtiSvg, s)
         else if ext \<in> set media_exts then
           (case save_media_file E i f (sc_files s) of
              (None, files) \<Rightarrow> (Some QtiMedia, s\<lparr>sc_files := files\<rparr>)
            | (Some name, files) \<Rightarrow>
                scan_entries E (Suc i) fs
                  (s\<lparr>sc_urls := AList.update (file_base (ze_name f)) (media_url name)
                                 (AList.update (ze_name f) (media_url name) (sc_urls s)),
                     sc_created := sc_created s @ [name], sc_files := files\<rparr>))
         else if ext = ''.xml'' then
           if max_qti_xml_size < ze_uncompressed f then (Some QtiXmlSize, s)
           else scan_entries E (Suc i) fs (s\<lparr>sc_xml := sc_xml s @ [f]\<rparr>)
         else scan_entries E (Suc i) fs s)"

section \<open>Items\<close>

text \<open>Replacing the media paths in the prompt, in the order the map's \<open>range\<close> yields them.\<close>

definition replace_media :: "(string \<times> string) list \<Rightarrow> string \<Rightarrow> string" where
  "replace_media urls prompt = foldl (\<lambda>p (original, url). replace_all_ne original url p) prompt urls"

definition import_choices :: "qti_item \<Rightarrow> choice list option" where
  "import_choices q =
     (if list_ex (\<lambda>c. 64 < length (qc_identifier c) \<or> 4096 < length (qc_text c)) (qi_choices q) then None
      else Some (map (\<lambda>c. \<lparr>c_identifier = qc_identifier c, c_text = trim_space (qc_text c)\<rparr>) (qi_choices q)))"

text \<open>The remapped answer: every part must name an option.\<close>

fun remap_parts :: "(string \<rightharpoonup> string) \<Rightarrow> string list \<Rightarrow> string list option" where
  "remap_parts m [] = Some []"
| "remap_parts m (p # ps) =
     (case m (trim_space p) of None \<Rightarrow> None | Some x \<Rightarrow> map_option (Cons x) (remap_parts m ps))"

definition remap_answer :: "(string \<rightharpoonup> string) \<Rightarrow> string \<Rightarrow> string option" where
  "remap_answer m answer =
     (if answer = [] then Some []
      else (case remap_parts m (split_on CHR '','' answer) of
          None \<Rightarrow> None
        | Some ps \<Rightarrow> let a = join_with '','' ps in if 255 < length a then None else Some a))"

text \<open>\<open>json.Marshal\<close> of the option slice, which is nil when there are no choices.\<close>

definition options_json :: "choice list \<Rightarrow> string" where
  "options_json cs = (if cs = [] then ''null'' else json_options cs)"

definition item_of_qti :: "qti_env \<Rightarrow> nat \<Rightarrow> (string \<times> string) list \<Rightarrow> qti_item \<Rightarrow> item option" where
  "item_of_qti E k urls q =
     (if qi_identifier q = [] \<and> qi_response_identifier q = [] then None
      else if 36 < length (qi_identifier q) \<or> 255 < length (qi_title q) \<or> 2 ^ 20 < length (qi_prompt q) then None
      else
        let prompt = replace_media (qe_order E k urls) (if qi_prompt q = [] then qi_title q else qi_prompt q);
            answer = join_with '','' (qi_correct q)
        in case import_choices q of
             None \<Rightarrow> None
           | Some cs \<Rightarrow>
               (case balance_options_key (qe_draws E k) cs of
                  Inl _ \<Rightarrow> None
                | Inr (options, m) \<Rightarrow>
                    (case remap_answer m answer of
                       None \<Rightarrow> None
                     | Some correct \<Rightarrow>
                         let max_score = (if qi_default_value q = Fin 0 then Fin 1 else qi_default_value q)
                         in if f64_less max_score (Fin 0) \<or> f64_less (Fin 1000000) max_score
                               \<or> f64_is_nan max_score \<or> f64_is_inf max_score then None
                            else Some \<lparr>i_id = (if qi_identifier q = [] then qe_item_id E k else qi_identifier q),
                              i_title = qi_title q, i_prompt = prompt,
                              i_type = (if 1 < qi_max_choices q then MultipleChoice else SingleChoice),
                              i_options_json = options_json options, i_correct_answer = correct,
                              i_max_score = max_score, i_layout_hint = [],
                              i_created_at = zero_time, i_updated_at = zero_time\<rparr>)))"

definition parse_qti_xml_file :: "qti_env \<Rightarrow> nat \<Rightarrow> (string \<times> string) list \<Rightarrow> zip_entry \<Rightarrow> item option" where
  "parse_qti_xml_file E k urls f =
     (case ze_content f of
        None \<Rightarrow> None
      | Some content \<Rightarrow>
          (case read_limited (uint max_qti_xml_size) content of
             None \<Rightarrow> None
           | Some data \<Rightarrow>
               if uint max_qti_xml_size < int (length data) then None
               else (case qe_xml E data of None \<Rightarrow> None | Some q \<Rightarrow> item_of_qti E k urls q)))"

section \<open>The import\<close>

text \<open>\<open>Create\<close> fills the column default and the time stamps.\<close>

definition created_item :: "gorm \<Rightarrow> item \<Rightarrow> item" where
  "created_item g it = it\<lparr>i_layout_hint := ''AUTO'', i_created_at := orm_now g, i_updated_at := orm_now g\<rparr>"

text \<open>The second pass, inside the transaction: a file that does not parse is skipped.\<close>

fun import_items ::
    "qti_env \<Rightarrow> gorm \<Rightarrow> (string \<times> string) list \<Rightarrow> nat \<Rightarrow> zip_entry list \<Rightarrow> db \<Rightarrow> qti_err + (item list \<times> db)" where
  "import_items E g urls k [] d = Inr ([], d)"
| "import_items E g urls k (f # fs) d =
     (case parse_qti_xml_file E k urls f of
        None \<Rightarrow> import_items E g urls (Suc k) fs d
      | Some it \<Rightarrow>
          if stmt_fails g (k + 2) then Inl (QtiCreate (ErrStatement (k + 2)))
          else (case insert_row item_clash (created_item g it) (items d) of
              None \<Rightarrow> Inl (QtiCreate ErrConstraint)
            | Some rows \<Rightarrow>
                (case import_items E g urls (Suc k) fs (d\<lparr>items := rows\<rparr>) of
                   Inl e \<Rightarrow> Inl e
                 | Inr (its, d') \<Rightarrow> Inr (created_item g it # its, d'))))"

text \<open>The deferred removal of the stored media when the import has not been committed.\<close>

definition remove_created :: "qti_env \<Rightarrow> string list \<Rightarrow> media_dir \<Rightarrow> media_dir" where
  "remove_created E names files = filter (\<lambda>(n, _). n \<notin> set names \<or> qe_remove_fails E n) files"

definition import_qti_package ::
    "qti_env \<Rightarrow> gorm \<Rightarrow> package \<Rightarrow> media_dir \<Rightarrow> db \<Rightarrow> (qti_err + item list) \<times> media_dir \<times> db" where
  "import_qti_package E g p files d =
     (case open_package p of
        Inl e \<Rightarrow> (Inl e, files, d)
      | Inr fs \<Rightarrow>
          if qe_mkdir_fails E then (Inl QtiDirectory, files, d)
          else (case scan_entries E 0 fs \<lparr>sc_urls = [], sc_xml = [], sc_created = [], sc_files = files\<rparr> of
              (Some e, s) \<Rightarrow> (Inl e, remove_created E (sc_created s) (sc_files s), d)
            | (None, s) \<Rightarrow>
                let undo = remove_created E (sc_created s) (sc_files s)
                in if stmt_fails g 1 then (Inl QtiBegin, undo, d)
                   else (case import_items E g (sc_urls s) 0 (sc_xml s) d of
                       Inl e \<Rightarrow> (Inl e, undo, d)
                     | Inr (its, d') \<Rightarrow>
                         if its = [] then (Inl QtiNoItems, undo, d)
                         else if stmt_fails g 0 then (Inl QtiCommit, undo, d)
                         else (Inr its, sc_files s, d'))))"

end
