(* ===== verification/QtiProps.thy ===== *)
theory QtiProps
  imports Qti
begin

text \<open>
  What the import of QTI packages promises: the package limits read as plain integers (the 64-bit total
  cannot wrap before it is refused), the media directory and the database after success and after every
  failure, and answers that still name their options after the shuffle.
\<close>

section \<open>Limits\<close>

lemma add_below_limits:
  assumes "e \<le> max_qti_expanded_size" and "x \<le> max_qti_file_size"
  shows "unat (e + x) = unat e + unat x"
proof -
  have "unat e \<le> 209715200" "unat x \<le> 20971520"
    using assms by (simp_all add: max_qti_expanded_size_def max_qti_file_size_def word_le_nat_alt)
  then show ?thesis by (simp add: unat_word_ariths(1))
qed

definition entry_within :: "zip_entry \<Rightarrow> bool" where
  "entry_within f \<longleftrightarrow> unat (ze_uncompressed f) \<le> 20 * 2 ^ 20 \<and>
     (unat (ze_compressed f) = 0 \<or> unat (ze_uncompressed f) div unat (ze_compressed f) \<le> 100)"

definition expanded_total :: "zip_entry list \<Rightarrow> nat" where
  "expanded_total fs = sum_list (map (\<lambda>f. unat (ze_uncompressed f)) fs)"

lemma entry_within_iff:
  "entry_within f \<longleftrightarrow> \<not> max_qti_file_size < ze_uncompressed f \<and>
     \<not> (0 < ze_compressed f \<and> max_qti_compression_ratio < ze_uncompressed f div ze_compressed f)"
  by (simp add: entry_within_def max_qti_file_size_def max_qti_compression_ratio_def word_less_nat_alt
      unat_div_distrib not_less)

lemma check_sizes_None_iff:
  "e \<le> max_qti_expanded_size \<Longrightarrow>
     check_sizes e fs = None \<longleftrightarrow> list_all entry_within fs \<and> unat e + expanded_total fs \<le> 200 * 2 ^ 20"
proof (induction e fs rule: check_sizes.induct)
  case (1 e)
  then show ?case
    by (simp add: expanded_total_def max_qti_expanded_size_def word_le_nat_alt)
next
  case (2 e f fs)
  show ?case
  proof (cases "entry_within f")
    case False
    then show ?thesis using entry_within_iff [of f] by (auto simp: Let_def)
  next
    case True
    then have small: "ze_uncompressed f \<le> max_qti_file_size" by (simp add: entry_within_iff not_less)
    note sum = add_below_limits [OF 2(2) small]
    show ?thesis
    proof (cases "max_qti_expanded_size < e + ze_uncompressed f")
      case too_big: True
      have "200 * 2 ^ 20 < unat e + unat (ze_uncompressed f)"
        using too_big sum by (simp add: word_less_nat_alt max_qti_expanded_size_def)
      then show ?thesis using too_big by (auto simp: Let_def expanded_total_def)
    next
      case False
      then have "check_sizes (e + ze_uncompressed f) fs = None \<longleftrightarrow>
          list_all entry_within fs \<and> unat (e + ze_uncompressed f) + expanded_total fs \<le> 200 * 2 ^ 20"
        using True by (intro 2(1)) (auto simp: entry_within_iff)
      then show ?thesis using True False sum entry_within_iff [of f] by (auto simp: Let_def expanded_total_def add.assoc)
    qed
  qed
qed

text \<open>
  Claim C23: the package limits.  A package is opened exactly when its file is a regular one of 1 byte to
  50 MiB with a readable directory of at most 1000 entries, each declaring at most 20 MiB and, when it is
  stored in at least one byte, an integral compression ratio of at most 100, with at most 200 MiB declared
  altogether: the total is compared as an integer, although the code adds in 64 bits.
\<close>
theorem package_limits:
  "open_package p = Inr fs \<longleftrightarrow>
     (\<exists>n. pk_stat p = Some (True, n) \<and> 0 < n \<and> n \<le> 50 * 2 ^ 20) \<and> pk_entries p = Some fs
     \<and> length fs \<le> 1000 \<and> list_all entry_within fs \<and> expanded_total fs \<le> 200 * 2 ^ 20"
  using check_sizes_None_iff [of 0 fs]
  by (cases p) (auto simp: open_package_def max_qti_package_size_def max_qti_entries_def
      split: option.splits if_splits prod.splits)

section \<open>The media directory\<close>

definition stored_media_ok :: "qti_env \<Rightarrow> string \<times> string \<Rightarrow> bool" where
  "stored_media_ok E nf \<longleftrightarrow> (case nf of (name, data) \<Rightarrow>
     data \<noteq> [] \<and> length data \<le> 20 * 2 ^ 20 \<and> (\<exists>i ext. name = qe_media_name E i @ ext \<and>
       qe_detect E (take 512 data) \<in> set (allowed_media_types (to_lower (qe_unicode E) ext))))"

lemma copy_media_ok:
  assumes "copy_media E i content = (True, data)"
  shows "length data \<le> 20 * 2 ^ 20 \<and> take 512 data = take 512 (body_bytes content)"
proof -
  have max: "uint max_qti_file_size = 20971520" by (simp add: max_qti_file_size_def)
  from assms have d: "read_limited (uint max_qti_file_size) content = Some data"
    and le: "\<not> uint max_qti_file_size < int (length data)"
    by (auto simp: copy_media_def split: option.splits)
  have "data = take 20971521 (body_bytes content)" using d by (simp add: read_limited_def max split: if_splits)
  with le show ?thesis by (simp add: max)
qed

lemma save_media_file_Some:
  assumes "save_media_file E i f files = (Some name, files')"
  obtains data where "files' = files @ [(name, data)]" "name \<notin> fst ` set files" "stored_media_ok E (name, data)"
proof -
  from assms obtain content where c: "ze_content f = Some content"
    by (auto simp: save_media_file_def split: option.splits)
  let ?ext = "file_ext (ze_name f)"
  let ?start = "take 512 (body_bytes content)"
  from assms c obtain data where copy: "copy_media E i content = (True, data)"
    and name: "name = qe_media_name E i @ ?ext" "files' = files @ [(name, data)]" "name \<notin> fst ` set files"
    and start: "?start \<noteq> []" and ok: "validate_media_type (qe_unicode E) ?ext (qe_detect E ?start)"
    by (auto simp: save_media_file_def Let_def split: option.splits if_splits prod.splits bool.splits)
  have "stored_media_ok E (name, data)"
    using start ok copy_media_ok [OF copy] name(1)
    by (auto simp: stored_media_ok_def validate_media_type_def list_ex_iff)
  with name show thesis by (intro that) simp_all
qed

text \<open>A medium that is not stored leaves nothing, or a file that could not be removed.\<close>

lemma save_media_file_None:
  assumes "save_media_file E i f files = (None, files')"
  shows "files' = files \<or> (\<exists>name data. files' = files @ [(name, data)] \<and> name \<notin> fst ` set files \<and> qe_remove_fails E name)"
  using assms
  by (auto simp: save_media_file_def discard_media_def Let_def split: option.splits if_splits prod.splits bool.splits)

definition scan_inv :: "qti_env \<Rightarrow> media_dir \<Rightarrow> scan_state \<Rightarrow> bool" where
  "scan_inv E files s \<longleftrightarrow> (\<exists>new. sc_files s = files @ new \<and> map fst new = sc_created s
     \<and> set (sc_created s) \<inter> fst ` set files = {} \<and> distinct (sc_created s) \<and> (\<forall>nf \<in> set new. stored_media_ok E nf))"

lemma scan_inv_init: "scan_inv E files \<lparr>sc_urls = [], sc_xml = [], sc_created = [], sc_files = files\<rparr>"
  by (simp add: scan_inv_def)

lemma scan_inv_store:
  assumes inv: "scan_inv E files s" and save: "save_media_file E i f (sc_files s) = (Some name, files')"
  shows "scan_inv E files (s\<lparr>sc_urls := urls, sc_created := sc_created s @ [name], sc_files := files'\<rparr>)"
proof -
  from save obtain data where data: "files' = sc_files s @ [(name, data)]" "name \<notin> fst ` set (sc_files s)"
      "stored_media_ok E (name, data)"
    by (rule save_media_file_Some)
  from inv obtain new where new: "sc_files s = files @ new" "map fst new = sc_created s"
      "set (sc_created s) \<inter> fst ` set files = {}" "distinct (sc_created s)" "\<forall>nf \<in> set new. stored_media_ok E nf"
    by (auto simp: scan_inv_def)
  have "set (sc_created s) = fst ` set new" by (simp add: new(2) [symmetric])
  then have "name \<notin> set (sc_created s)" using data(2) by (simp add: new(1) image_Un)
  moreover have "name \<notin> fst ` set files" using data(2) by (auto simp: new(1))
  ultimately show ?thesis
    unfolding scan_inv_def using new data by (intro exI [of _ "new @ [(name, data)]"]) auto
qed

lemma scan_inv_xml: "scan_inv E files (s\<lparr>sc_xml := x\<rparr>) = scan_inv E files s"
  by (simp add: scan_inv_def)

text \<open>After a failure there may be one more file, which could not be removed.\<close>

definition scan_stopped :: "qti_env \<Rightarrow> media_dir \<Rightarrow> scan_state \<Rightarrow> bool" where
  "scan_stopped E files s \<longleftrightarrow> (\<exists>new left. sc_files s = files @ new @ left \<and> map fst new = sc_created s
     \<and> fst ` set (new @ left) \<inter> fst ` set files = {} \<and> distinct (map fst (new @ left))
     \<and> list_all (\<lambda>nf. qe_remove_fails E (fst nf)) left)"

lemma scan_inv_stopped: "scan_inv E files s \<Longrightarrow> scan_stopped E files s"
  unfolding scan_inv_def scan_stopped_def
  by (elim exE conjE, rule exI, rule exI [of _ "[]"]) (auto simp: image_iff simp flip: set_map)

lemma scan_stopped_media:
  assumes inv: "scan_inv E files s" and save: "save_media_file E i f (sc_files s) = (None, files')"
  shows "scan_stopped E files (s\<lparr>sc_files := files'\<rparr>)"
  using save_media_file_None [OF save]
proof
  assume "files' = sc_files s"
  with scan_inv_stopped [OF inv] show ?thesis by simp
next
  assume "\<exists>name data. files' = sc_files s @ [(name, data)] \<and> name \<notin> fst ` set (sc_files s) \<and> qe_remove_fails E name"
  then obtain name data where left: "files' = sc_files s @ [(name, data)]" "name \<notin> fst ` set (sc_files s)"
      "qe_remove_fails E name" by blast
  from inv obtain new where new: "sc_files s = files @ new" "map fst new = sc_created s"
      "set (sc_created s) \<inter> fst ` set files = {}" "distinct (sc_created s)"
    by (auto simp: scan_inv_def)
  have "fst ` set new = set (sc_created s)" by (simp add: new(2) [symmetric])
  then show ?thesis
    unfolding scan_stopped_def using new left
    by (intro exI [of _ new] exI [of _ "[(name, data)]"]) (auto simp: image_Un)
qed

lemma scan_entries_inv:
  "scan_entries E i fs s = (r, s') \<Longrightarrow> scan_inv E files s \<Longrightarrow>
     if r = None then scan_inv E files s' else scan_stopped E files s'"
proof (induction E i fs s rule: scan_entries.induct)
  case (1 E i s)
  then show ?case by auto
next
  case (2 E i f fs s)
  let ?ext = "to_lower (qe_unicode E) (file_ext (ze_name f))"
  consider (svg) "?ext = ''.svg''" | (media) "?ext \<noteq> ''.svg''" "?ext \<in> set media_exts"
    | (xml) "?ext \<noteq> ''.svg''" "?ext \<notin> set media_exts" "?ext = ''.xml''"
    | (other) "?ext \<noteq> ''.svg''" "?ext \<notin> set media_exts" "?ext \<noteq> ''.xml''" by blast
  then show ?case
  proof cases
    case svg
    then show ?thesis using 2(4) scan_inv_stopped [OF 2(5)] by (auto simp: Let_def)
  next
    case media
    obtain n files' where save: "save_media_file E i f (sc_files s) = (n, files')" by fastforce
    show ?thesis
    proof (cases n)
      case None
      then show ?thesis using 2(4) scan_stopped_media [OF 2(5)] save media by (auto simp: Let_def)
    next
      case (Some name)
      show ?thesis
        using 2(1) [OF refl media save [symmetric] Some] 2(4) scan_inv_store [OF 2(5) save [unfolded Some]] media Some save
        by (simp add: Let_def)
    qed
  next
    case xml
    show ?thesis
    proof (cases "max_qti_xml_size < ze_uncompressed f")
      case True
      then show ?thesis using 2(4) scan_inv_stopped [OF 2(5)] xml by (auto simp: Let_def)
    next
      case False
      then show ?thesis using 2(2) [OF refl xml(1,2,3) False] 2(4,5) xml by (simp add: Let_def scan_inv_xml)
    qed
  next
    case other
    then show ?thesis using 2(3) [OF refl other] 2(4,5) by (simp add: Let_def)
  qed
qed

lemma remove_created_restores:
  assumes "scan_stopped E files s"
  shows "\<exists>left. remove_created E (sc_created s) (sc_files s) = files @ left \<and> distinct (map fst left)
    \<and> fst ` set left \<inter> fst ` set files = {} \<and> list_all (\<lambda>nf. qe_remove_fails E (fst nf)) left"
proof -
  from assms obtain new left where new: "sc_files s = files @ new @ left" "map fst new = sc_created s"
      "fst ` set (new @ left) \<inter> fst ` set files = {}" "distinct (map fst (new @ left))"
      "list_all (\<lambda>nf. qe_remove_fails E (fst nf)) left"
    unfolding scan_stopped_def by blast
  have created: "set (sc_created s) = fst ` set new" by (simp add: new(2) [symmetric])
  let ?stays = "filter (\<lambda>(n, _). n \<notin> set (sc_created s) \<or> qe_remove_fails E n)"
  have "?stays files = files" using new(3) by (force simp: filter_id_conv created)
  moreover have "?stays left = left" using new(5) by (auto simp: filter_id_conv list_all_iff)
  moreover have "?stays new = filter (\<lambda>nf. qe_remove_fails E (fst nf)) new"
    by (intro filter_cong) (auto simp: created rev_image_eqI)
  ultimately have "remove_created E (sc_created s) (sc_files s) = files @ filter (\<lambda>nf. qe_remove_fails E (fst nf)) new @ left"
    by (simp add: remove_created_def new(1))
  moreover have "distinct (map fst (filter (\<lambda>nf. qe_remove_fails E (fst nf)) new @ left))"
    using new(4) by (auto simp: distinct_map_filter)
  moreover have "fst ` set (filter (\<lambda>nf. qe_remove_fails E (fst nf)) new @ left) \<inter> fst ` set files = {}"
    using new(3) by auto
  moreover have "list_all (\<lambda>nf. qe_remove_fails E (fst nf)) (filter (\<lambda>nf. qe_remove_fails E (fst nf)) new @ left)"
    using new(5) by (auto simp: list_all_iff)
  ultimately show ?thesis by blast
qed

section \<open>The import\<close>

lemma item_clash_iff: "item_clash x y \<longleftrightarrow> i_id x = i_id y"
  by (simp add: clash_on_def)

lemma import_items_Inr:
  "import_items E g urls k fs d = Inr (its, d') \<Longrightarrow>
     d' = d\<lparr>items := items d @ its\<rparr> \<and> distinct (map i_id its) \<and> i_id ` set its \<inter> i_id ` set (items d) = {} \<and>
     (\<forall>it \<in> set its. \<exists>f \<in> set fs. \<exists>j it0. parse_qti_xml_file E j urls f = Some it0 \<and> it = created_item g it0)"
proof (induction E g urls k fs d arbitrary: its d' rule: import_items.induct)
  case (1 E g urls k d)
  then show ?case by simp
next
  case (2 E g urls k f fs d)
  show ?case
  proof (cases "parse_qti_xml_file E k urls f")
    case None
    then show ?thesis using 2(1) [OF None] 2(3) by fastforce
  next
    case (Some it)
    with 2(3) obtain rows where ok: "\<not> stmt_fails g (k + 2)"
        "insert_row item_clash (created_item g it) (items d) = Some rows"
      by (auto split: if_splits option.splits)
    from 2(3) Some ok obtain its' where its: "its = created_item g it # its'"
        "import_items E g urls (Suc k) fs (d\<lparr>items := rows\<rparr>) = Inr (its', d')"
      by (auto split: sum.splits)
    have rows: "rows = items d @ [created_item g it]" "i_id (created_item g it) \<notin> i_id ` set (items d)"
      using ok(2) by (auto simp: insert_row_Some item_clash_iff)
    from 2(2) [OF Some ok its(2)] show ?thesis using Some its(1) rows by auto
  qed
qed

lemma import_outcome:
  "case import_qti_package E g p files d of
     (Inl e, files', d') \<Rightarrow> d' = d \<and> (\<exists>left. files' = files @ left \<and> distinct (map fst left)
       \<and> fst ` set left \<inter> fst ` set files = {} \<and> list_all (\<lambda>nf. qe_remove_fails E (fst nf)) left)
   | (Inr its, files', d') \<Rightarrow> its \<noteq> [] \<and> d' = d\<lparr>items := items d @ its\<rparr> \<and> distinct (map i_id its)
       \<and> i_id ` set its \<inter> i_id ` set (items d) = {}
       \<and> (\<exists>new. files' = files @ new \<and> distinct (map fst new) \<and> fst ` set new \<inter> fst ` set files = {}
            \<and> Ball (set new) (stored_media_ok E))"
proof (cases "open_package p")
  case (Inl e)
  then show ?thesis by (simp add: import_qti_package_def)
next
  case (Inr fs)
  let ?s0 = "\<lparr>sc_urls = [], sc_xml = [], sc_created = [], sc_files = files\<rparr>"
  obtain r s where scan: "scan_entries E 0 fs ?s0 = (r, s)" by (cases "scan_entries E 0 fs ?s0")
  note inv = scan_entries_inv [OF scan scan_inv_init]
  then have "scan_stopped E files s" using scan_inv_stopped by (auto split: if_splits)
  note undo = remove_created_restores [OF this]
  show ?thesis
  proof (cases r)
    case (Some e)
    then show ?thesis using Inr scan undo by (simp add: import_qti_package_def)
  next
    case None
    show ?thesis
    proof (cases "import_items E g (sc_urls s) 0 (sc_xml s) d")
      case (Inl e)
      then show ?thesis using Inr scan None undo by (simp add: import_qti_package_def Let_def)
    next
      case imported: (Inr q)
      obtain its d' where q: "q = (its, d')" by (cases q)
      from inv None obtain new where new: "sc_files s = files @ new" "distinct (map fst new)"
          "fst ` set new \<inter> fst ` set files = {}" "Ball (set new) (stored_media_ok E)"
        unfolding scan_inv_def by (metis list.set_map)
      show ?thesis
        using Inr scan None undo import_items_Inr [OF imported [unfolded q]] imported q new
        by (auto simp: import_qti_package_def Let_def)
    qed
  qed
qed

text \<open>
  Claim C21: an import is all or nothing.  Whatever goes wrong, a limit, a medium of the wrong type, a
  failing file operation, statement or commit, a duplicate identifier, a package without items: the
  database is as before, and so is the media directory but for files of this import, under fresh names,
  whose removal itself has failed.  Otherwise at least one item is added, under identifiers that were
  free, nothing else changes in the database, and the new files have fresh names, at most 20 MiB, and
  contents whose detected type is one allowed for their extension.
\<close>
theorem import_all_or_nothing:
  "case import_qti_package E g p files d of
     (Inl e, files', d') \<Rightarrow> d' = d \<and> (\<exists>left. files' = files @ left \<and> distinct (map fst left)
       \<and> fst ` set left \<inter> fst ` set files = {} \<and> list_all (\<lambda>nf. qe_remove_fails E (fst nf)) left)
   | (Inr its, files', d') \<Rightarrow> its \<noteq> [] \<and> d' = d\<lparr>items := items d @ its\<rparr> \<and> distinct (map i_id its)
       \<and> i_id ` set its \<inter> i_id ` set (items d) = {}
       \<and> (\<exists>new. files' = files @ new \<and> distinct (map fst new) \<and> fst ` set new \<inter> fst ` set files = {}
            \<and> Ball (set new) (stored_media_ok E))"
  by (rule import_outcome)

section \<open>Answers\<close>

lemma remap_parts_Some:
  "remap_parts m ps = Some qs \<longleftrightarrow> list_all2 (\<lambda>p q. m (trim_space p) = Some q) ps qs"
proof (induction ps arbitrary: qs)
  case Nil
  show ?case by auto
next
  case (Cons p ps)
  then show ?case by (cases qs) (auto split: option.splits)
qed

lemma letter_no_comma: "i < 26 \<Longrightarrow> CHR '','' \<notin> set (letter i)"
proof
  assume "i < 26" and "CHR '','' \<in> set (letter i)"
  then have "(of_char (CHR '','') :: nat) = of_char (char_of (65 + i) :: char)" by (simp add: letter_def)
  then show False using \<open>i < 26\<close> by simp
qed

text \<open>Balancing, seen from an option of the original list: its new label stands on the same text.\<close>

lemma balance_label:
  assumes bal: "balance_options_key rnd cs = Inr (out, m)" and dist: "distinct (map c_identifier cs)"
    and draws: "draws_ok rnd (length cs)" and m: "m x = Some y"
  shows "(\<exists>c \<in> set cs. c_identifier c = x \<and> (\<exists>o' \<in> set out. c_identifier o' = y \<and> c_text o' = c_text c))
    \<and> CHR '','' \<notin> set y"
proof (cases "cs = []")
  case True
  then show ?thesis using bal m by (auto simp: balance_options_key_def)
next
  case False
  with bal obtain sh where sh: "shuffle_from rnd (length cs - 1) cs = Some sh" "out = relabel 0 sh"
      "m = identifier_map 0 Map.empty sh" "length cs \<le> 26"
    by (rule balance_options_key_Inr)
  have mset: "mset sh = mset cs" using False by (intro shuffle_from_mset [OF draws _ sh(1)]) simp
  then have set: "set sh = set cs" and len: "length sh = length cs"
    by (auto dest: mset_eq_setD mset_eq_length)
  have dsh: "distinct (map c_identifier sh)"
    using dist mset by (metis mset_eq_imp_distinct_iff mset_map)
  have "x \<in> c_identifier ` set sh"
    using m sh(3) identifier_map_dom [of 0 Map.empty sh] by (auto simp: dom_def)
  then obtain i where i: "i < length sh" "c_identifier (sh ! i) = x" by (auto simp: in_set_conv_nth)
  have y: "y = letter i" using identifier_map_nth [OF dsh i(1), of 0 Map.empty] i(2) m sh(3) by simp
  have "out ! i = (sh ! i)\<lparr>c_identifier := y\<rparr>" using relabel_nth [OF i(1), of 0] sh(2) y by simp
  then have "c_identifier (out ! i) = y \<and> c_text (out ! i) = c_text (sh ! i)" by simp
  moreover have "out ! i \<in> set out" using i(1) sh(2) by simp
  ultimately have "\<exists>o' \<in> set out. c_identifier o' = y \<and> c_text o' = c_text (sh ! i)" by (rule bexI)
  moreover have "sh ! i \<in> set cs" using i(1) set by (metis nth_mem)
  ultimately show ?thesis using i letter_no_comma [of i] len sh(4) y by auto
qed

lemma balance_texts:
  assumes bal: "balance_options_key rnd cs = Inr (out, m)" and draws: "draws_ok rnd (length cs)"
  shows "mset (map c_text out) = mset (map c_text cs) \<and> map c_identifier out = map letter [0..<length cs]
    \<and> length cs \<le> 26"
proof (cases "cs = []")
  case True
  then show ?thesis using bal by (simp add: balance_options_key_def)
next
  case False
  with bal obtain sh where sh: "shuffle_from rnd (length cs - 1) cs = Some sh" "out = relabel 0 sh"
      "length cs \<le> 26"
    by (rule balance_options_key_Inr)
  have mset: "mset sh = mset cs" using False by (intro shuffle_from_mset [OF draws _ sh(1)]) simp
  then have "length sh = length cs" by (rule mset_eq_length)
  then show ?thesis
    using mset sh(2,3) relabel_identifiers [of 0 sh] relabel_text [of 0 sh] by (metis add_0 mset_map)
qed

lemma remap_answer_Some:
  assumes "remap_answer m answer = Some a" and "answer \<noteq> []"
    and "\<And>x y. m x = Some y \<Longrightarrow> CHR '','' \<notin> set y"
  shows "list_all2 (\<lambda>p q. m (trim_space p) = Some q) (split_on CHR '','' answer) (split_on CHR '','' a)
    \<and> length a \<le> 255"
proof -
  from assms(1,2) obtain qs where qs: "remap_parts m (split_on CHR '','' answer) = Some qs"
      "a = join_with '','' qs" "length a \<le> 255"
    by (auto simp: remap_answer_def Let_def split: option.splits if_splits)
  then have all: "list_all2 (\<lambda>p q. m (trim_space p) = Some q) (split_on CHR '','' answer) qs"
    by (simp add: remap_parts_Some)
  have "qs \<noteq> []" using all by (metis list_all2_Nil2 split_on_not_Nil)
  moreover have "\<forall>q \<in> set qs. CHR '','' \<notin> set q"
  proof
    fix q assume "q \<in> set qs"
    then obtain i where "i < length qs" "q = qs ! i" by (auto simp: in_set_conv_nth)
    then show "CHR '','' \<notin> set q"
      using all assms(3) [of "trim_space (split_on CHR '','' answer ! i)" q]
      by (simp add: list_all2_conv_all_nth)
  qed
  ultimately have "split_on CHR '','' a = qs" by (simp add: qs(2) split_on_join)
  with all qs(3) show ?thesis by simp
qed

lemma item_of_qti_Some:
  assumes "item_of_qti E k urls q = Some it"
  obtains cs options m where "import_choices q = Some cs"
    "balance_options_key (qe_draws E k) cs = Inr (options, m)"
    "remap_answer m (join_with '','' (qi_correct q)) = Some (i_correct_answer it)"
    "i_options_json it = options_json options" "\<not> bad_points (i_max_score it)"
proof -
  from assms obtain cs where cs: "import_choices q = Some cs"
    by (auto simp: item_of_qti_def Let_def split: if_splits option.splits)
  from assms cs obtain options m where bal: "balance_options_key (qe_draws E k) cs = Inr (options, m)"
    by (auto simp: item_of_qti_def Let_def split: if_splits sum.splits)
  from assms cs bal obtain a where a: "remap_answer m (join_with '','' (qi_correct q)) = Some a"
    by (auto simp: item_of_qti_def Let_def split: if_splits option.splits)
  have "i_correct_answer it = a" "i_options_json it = options_json options"
    and max: "i_max_score it = (if qi_default_value q = Fin 0 then Fin 1 else qi_default_value q)"
      "\<not> (f64_less (i_max_score it) (Fin 0) \<or> f64_less (Fin 1000000) (i_max_score it)
          \<or> f64_is_nan (i_max_score it) \<or> f64_is_inf (i_max_score it))"
    using assms cs bal a by (auto simp: item_of_qti_def Let_def split: if_splits)
  moreover have "\<not> bad_points (i_max_score it)"
    using max by (cases "qi_default_value q") (auto simp: not_bad_points_iff split: if_splits)
  ultimately show thesis using cs bal a by (intro that) simp_all
qed


lemma import_choices_Some:
  "import_choices q = Some cs \<Longrightarrow>
     cs = map (\<lambda>c. \<lparr>c_identifier = qc_identifier c, c_text = trim_space (qc_text c)\<rparr>) (qi_choices q)"
  by (simp add: import_choices_def split: if_splits)

text \<open>
  Claim C22: the key follows the shuffled options.  When the option identifiers of a QTI item are
  distinct, the imported item has at most 26 options labelled A, B, C, ... whose texts are a permutation
  of the trimmed texts of the file; it can be scored; and its answer is empty exactly when the file gives
  none, and otherwise has, position by position, the label now standing at the text of the option the
  file names there.
\<close>
theorem answer_follows_options:
  assumes item: "item_of_qti E k urls q = Some it"
    and dist: "distinct (map qc_identifier (qi_choices q))"
    and draws: "draws_ok (qe_draws E k) (length (qi_choices q))"
  shows "\<exists>options. i_options_json it = options_json options \<and> length options \<le> 26
    \<and> mset (map c_text options) = mset (map (\<lambda>c. trim_space (qc_text c)) (qi_choices q))
    \<and> map c_identifier options = map letter [0..<length (qi_choices q)]
    \<and> \<not> bad_points (i_max_score it)
    \<and> (if join_with '','' (qi_correct q) = [] then i_correct_answer it = []
       else list_all2 (\<lambda>p l. \<exists>c \<in> set (qi_choices q). qc_identifier c = trim_space p
              \<and> (\<exists>o' \<in> set options. c_identifier o' = l \<and> c_text o' = trim_space (qc_text c)))
            (split_on CHR '','' (join_with '','' (qi_correct q))) (split_on CHR '','' (i_correct_answer it)))"
proof -
  from item obtain cs options m where it: "import_choices q = Some cs"
      "balance_options_key (qe_draws E k) cs = Inr (options, m)"
      "remap_answer m (join_with '','' (qi_correct q)) = Some (i_correct_answer it)"
      "i_options_json it = options_json options" "\<not> bad_points (i_max_score it)"
    by (rule item_of_qti_Some)
  note cs = import_choices_Some [OF it(1)]
  have dcs: "distinct (map c_identifier cs)" and draws': "draws_ok (qe_draws E k) (length cs)"
    using dist draws by (simp_all add: cs comp_def)
  note label = balance_label [OF it(2) dcs draws']
  note texts = balance_texts [OF it(2) draws']
  have len: "length options = length cs" using texts by (metis length_map length_upt minus_nat.diff_0)
  have key: "if join_with '','' (qi_correct q) = [] then i_correct_answer it = []
       else list_all2 (\<lambda>p l. \<exists>c \<in> set (qi_choices q). qc_identifier c = trim_space p
              \<and> (\<exists>o' \<in> set options. c_identifier o' = l \<and> c_text o' = trim_space (qc_text c)))
            (split_on CHR '','' (join_with '','' (qi_correct q))) (split_on CHR '','' (i_correct_answer it))"
  proof (cases "join_with '','' (qi_correct q) = []")
    case True
    then show ?thesis using it(3) by (simp add: remap_answer_def)
  next
    case False
    have named: "\<exists>c \<in> set (qi_choices q). qc_identifier c = x
        \<and> (\<exists>o' \<in> set options. c_identifier o' = l \<and> c_text o' = trim_space (qc_text c))"
      if "m x = Some l" for x l
      using label [OF that] unfolding cs by auto
    have "list_all2 (\<lambda>p l. m (trim_space p) = Some l)
        (split_on CHR '','' (join_with '','' (qi_correct q))) (split_on CHR '','' (i_correct_answer it))"
      using remap_answer_Some [OF it(3) False] label by blast
    then have "list_all2 (\<lambda>p l. \<exists>c \<in> set (qi_choices q). qc_identifier c = trim_space p
              \<and> (\<exists>o' \<in> set options. c_identifier o' = l \<and> c_text o' = trim_space (qc_text c)))
        (split_on CHR '','' (join_with '','' (qi_correct q))) (split_on CHR '','' (i_correct_answer it))"
      by (rule list_all2_mono) (rule named)
    with False show ?thesis by simp
  qed
  show ?thesis
    using it(4,5) texts len key by (intro exI [of _ options]) (simp add: cs comp_def)
qed

section \<open>Media links\<close>

text \<open>
  The replacement of media names in the prompt depends on the order in which the map is traversed: with
  the base name before the full path the link keeps the directory of the package and leads nowhere.
\<close>
lemma media_order_matters:
  "replace_media [(''i/a.png'', ''/uploads/media/x.png''), (''a.png'', ''/uploads/media/x.png'')] ''i/a.png''
     = ''/uploads/media/x.png''"
  "replace_media [(''a.png'', ''/uploads/media/x.png''), (''i/a.png'', ''/uploads/media/x.png'')] ''i/a.png''
     = ''i//uploads/media/x.png''"
  by (simp_all add: replace_media_def replace_all_ne.simps)

end
