(* ===== verification/ServiceHandlers.thy ===== *)
theory ServiceHandlers
  imports Webhook QtiProps Http
begin

text \<open>
  The webhook handlers of \<open>internal/handler/session_handler.go\<close> and the upload handler of
  \<open>internal/handler/qti_handler.go\<close>.  Binding a JSON body, what \<open>c.FormFile\<close> finds in a multipart
  body behind a \<open>MaxBytesReader\<close>, and the directory of a ZIP file are parameters.
\<close>

section \<open>Webhooks\<close>

datatype webhook_reply = WebhookError | WebhookRegistered webhook_config string | WebhookLogs "webhook_log list"

text \<open>Event, URL and signing secret of \<open>RegisterWebhookRequest\<close>.\<close>

record webhook_request =
  wr_event :: string
  wr_url :: string
  wr_secret :: string

text \<open>The service fills in the configuration it is given, which is the row it inserts.\<close>

definition register_webhook_handler ::
    "'p hook_env \<Rightarrow> gorm \<Rightarrow> time \<Rightarrow> string \<Rightarrow> (nat \<Rightarrow> nat list option) \<Rightarrow> (nat \<Rightarrow> nat list option) \<Rightarrow>
       (string \<Rightarrow> webhook_request option) \<Rightarrow> ctx \<Rightarrow> db \<Rightarrow> (nat \<times> webhook_reply) \<times> db" where
  "register_webhook_handler E g now nid rnd1 rnd2 bind c d =
     (case bind (case cx_body c of None \<Rightarrow> [] | Some b \<Rightarrow> body_bytes b) of
        None \<Rightarrow> ((400, WebhookError), d)
      | Some rq \<Rightarrow>
          (case register_config E g now nid rnd1 rnd2
              \<lparr>wc_id = [], wc_event = wr_event rq, wc_target_url = wr_url rq, wc_http_method = [],
               wc_secret_token = wr_secret rq, wc_is_active = True, wc_created_at = zero_time\<rparr> d of
             (Inl _, d') \<Rightarrow> ((400, WebhookError), d')
           | (Inr secret, d') \<Rightarrow> ((201, WebhookRegistered (last (webhook_configs d')) secret), d')))"

definition get_webhook_logs_handler :: "gorm \<Rightarrow> db \<Rightarrow> nat \<times> webhook_reply" where
  "get_webhook_logs_handler g d =
     (case get_webhook_logs g d of Inl _ \<Rightarrow> (500, WebhookError) | Inr logs \<Rightarrow> (200, WebhookLogs logs))"

section \<open>Uploads\<close>

datatype qti_reply = QtiError | QtiImported nat "item list"

record upload =
  up_filename :: string
  up_size :: int
  up_content :: "request_body option"

datatype form_file = FormFileTooLarge | FormFileMissing | FormFile upload

record qti_handler_env =
  qh_env :: qti_env
  qh_form_file :: "int \<Rightarrow> ctx \<Rightarrow> form_file"
  qh_temp_file :: bool
  qh_close_fails :: bool
  qh_zip_entries :: "string \<Rightarrow> zip_entry list option"

text \<open>The temporary file is a regular one with the bytes that were copied; it is removed at the end.\<close>

definition import_qti_handler ::
    "qti_handler_env \<Rightarrow> gorm \<Rightarrow> ctx \<Rightarrow> media_dir \<Rightarrow> db \<Rightarrow> (nat \<times> qti_reply) \<times> media_dir \<times> db" where
  "import_qti_handler Q g c files d =
     (case qh_form_file Q max_qti_package_size c of
        FormFileTooLarge \<Rightarrow> ((413, QtiError), files, d)
      | FormFileMissing \<Rightarrow> ((400, QtiError), files, d)
      | FormFile u \<Rightarrow>
          if up_size u \<le> 0 \<or> max_qti_package_size < up_size u
             \<or> \<not> equal_fold (qe_unicode (qh_env Q)) (file_ext (up_filename u)) ''.zip''
          then ((400, QtiError), files, d)
          else (case up_content u of
              None \<Rightarrow> ((400, QtiError), files, d)
            | Some content \<Rightarrow>
                if \<not> qh_temp_file Q then ((500, QtiError), files, d)
                else (case read_limited max_qti_package_size content of
                    None \<Rightarrow> ((413, QtiError), files, d)
                  | Some data \<Rightarrow>
                      if qh_close_fails Q \<or> max_qti_package_size < int (length data)
                      then ((413, QtiError), files, d)
                      else (case import_qti_package (qh_env Q) g
                              \<lparr>pk_stat = Some (True, int (length data)), pk_entries = qh_zip_entries Q data\<rparr> files d of
                          (Inl _, files', d') \<Rightarrow> ((500, QtiError), files', d')
                        | (Inr its, files', d') \<Rightarrow> ((201, QtiImported (length its) its), files', d')))))"

end
