(* ===== verification/Database.thy ===== *)
theory Database
  imports GoStrings Prelude
begin

text \<open>
  \<open>internal/database/database.go\<close> and the command \<open>cmd/migrate\<close>: the choice of the driver, the check that
  a release does not run PostgreSQL in plain text, the schema migration and its verification.  The schema
  is the tables and named indexes present; GORM's migrator is the record \<open>migrator\<close>, whose documented
  behaviour is \<open>gorm_migrator\<close>.
\<close>

section \<open>Drivers\<close>

datatype driver = Postgres | Sqlite

definition driver_name :: "unicode_tables \<Rightarrow> string \<Rightarrow> string" where
  "driver_name U d = to_lower U (trim_space d)"

definition open_driver :: "unicode_tables \<Rightarrow> string \<Rightarrow> driver option" where
  "open_driver U d =
     (if driver_name U d \<in> {''postgres'', ''postgresql''} then Some Postgres
      else if driver_name U d \<in> {''sqlite'', ''sqlite3'', ''''} then Some Sqlite
      else None)"

definition is_sqlite_driver :: "unicode_tables \<Rightarrow> string \<Rightarrow> bool" where
  "is_sqlite_driver U d \<longleftrightarrow> driver_name U d \<in> {'''', ''sqlite'', ''sqlite3''}"

text \<open>\<open>strings.Contains\<close>.\<close>

definition string_contains :: "string \<Rightarrow> string \<Rightarrow> bool" where
  "string_contains s sub \<longleftrightarrow> list_ex (prefix sub) (suffixes s)"

text \<open>\<open>True\<close> when the configuration is acceptable.\<close>

definition validate_transport_security :: "unicode_tables \<Rightarrow> string \<Rightarrow> string \<Rightarrow> string \<Rightarrow> bool \<Rightarrow> bool" where
  "validate_transport_security U server_mode d dsn allow_insecure \<longleftrightarrow>
     \<not> (equal_fold U (trim_space server_mode) ''release'' \<and> \<not> is_sqlite_driver U d
        \<and> string_contains (to_lower U dsn) ''sslmode=disable'' \<and> \<not> allow_insecure)"

section \<open>The schema\<close>

datatype table =
    TUser | TRole | TPermission | TUserRole | TRolePermission | TItem | TTest | TTestSection | TTestItem
  | TDelivery | TTestSession | TItemResponse | TWebhookConfig | TWebhookLog | TLTIPlatform | TLTIOIDCState
  | TLTIResourceLink | TLTILinkSession | TProctorEvent | TGroup | TUserGroup | TDeliveryGroup

definition schema_models :: "table list" where
  "schema_models =
     [TUser, TRole, TPermission, TUserRole, TRolePermission, TItem, TTest, TTestSection, TTestItem,
      TDelivery, TTestSession, TItemResponse, TWebhookConfig, TWebhookLog, TLTIPlatform, TLTIOIDCState,
      TLTIResourceLink, TLTILinkSession, TProctorEvent, TGroup, TUserGroup, TDeliveryGroup]"

definition required_indexes :: "(table \<times> string) list" where
  "required_indexes =
     [(TTestSession, ''idx_delivery_user_attempt''), (TItemResponse, ''idx_session_item''),
      (TLTIPlatform, ''idx_lti_platform_registration''), (TLTIResourceLink, ''idx_lti_resource_mapping'')]"

definition legacy_index :: "table \<times> string" where
  "legacy_index = (TLTIPlatform, ''idx_lti_platforms_issuer'')"

text \<open>The named composite indexes that the struct tags of the models declare.\<close>

fun declared_indexes :: "table \<Rightarrow> string list" where
  "declared_indexes TTestSession = [''idx_delivery_user_attempt'']"
| "declared_indexes TItemResponse = [''idx_session_item'']"
| "declared_indexes TLTIPlatform = [''idx_lti_platform_registration'']"
| "declared_indexes TLTIResourceLink = [''idx_lti_resource_mapping'']"
| "declared_indexes _ = []"

record schema =
  sc_tables :: "table list"
  sc_indexes :: "(table \<times> string) list"

text \<open>A migrator call returns the schema it leaves, changed or not, and whether it succeeded.\<close>

record migrator =
  mg_auto :: "table list \<Rightarrow> schema \<Rightarrow> schema \<times> bool"
  mg_drop :: "table \<times> string \<Rightarrow> schema \<Rightarrow> schema \<times> bool"

datatype migrate_err = NilDatabase | AutoMigrateFailed | DropIndexFailed | MissingTable table | MissingIndex string

definition verify_schema :: "schema option \<Rightarrow> migrate_err option" where
  "verify_schema db =
     (case db of
        None \<Rightarrow> Some NilDatabase
      | Some s \<Rightarrow>
          (case find (\<lambda>t. t \<notin> set (sc_tables s)) schema_models of
             Some t \<Rightarrow> Some (MissingTable t)
           | None \<Rightarrow>
               (case find (\<lambda>ix. ix \<notin> set (sc_indexes s)) required_indexes of
                  Some ix \<Rightarrow> Some (MissingIndex (snd ix))
                | None \<Rightarrow> None)))"

definition migrate :: "migrator \<Rightarrow> schema option \<Rightarrow> schema option \<times> migrate_err option" where
  "migrate M db =
     (case db of
        None \<Rightarrow> (None, Some NilDatabase)
      | Some s \<Rightarrow>
          (case mg_auto M schema_models s of
             (s1, False) \<Rightarrow> (Some s1, Some AutoMigrateFailed)
           | (s1, True) \<Rightarrow>
               if legacy_index \<in> set (sc_indexes s1) then
                 (case mg_drop M legacy_index s1 of
                    (s2, False) \<Rightarrow> (Some s2, Some DropIndexFailed)
                  | (s2, True) \<Rightarrow> (Some s2, verify_schema (Some s2)))
               else (Some s1, verify_schema (Some s1))))"

section \<open>The migration command\<close>

text \<open>\<open>strconv.ParseBool\<close>.\<close>

definition parse_bool :: "string \<Rightarrow> bool option" where
  "parse_bool s =
     (if s \<in> {''1'', ''t'', ''T'', ''true'', ''TRUE'', ''True''} then Some True
      else if s \<in> {''0'', ''f'', ''F'', ''false'', ''FALSE'', ''False''} then Some False
      else None)"

definition default_value :: "string \<Rightarrow> string \<Rightarrow> string" where
  "default_value v fallback = (if trim_space v = [] then fallback else v)"

datatype cli_result =
    Completed_ok | FatalMissing | FatalAllowInsecure | FatalTransport | FatalConnect | FatalMode
  | FatalSchema migrate_err

text \<open>
  The environment of one run: the variables read, the mode flag, and whether opening the database,
  getting its handle and the ping succeed.
\<close>

record cli_env =
  cli_unicode :: unicode_tables
  cli_getenv :: "string \<Rightarrow> string"
  cli_mode :: string
  cli_connects :: bool
  cli_migrator :: migrator

definition run_schema_mode :: "migrator \<Rightarrow> string \<Rightarrow> schema \<Rightarrow> schema \<times> cli_result" where
  "run_schema_mode M mode s =
     (if mode = ''verify'' then
        (case verify_schema (Some s) of None \<Rightarrow> (s, Completed_ok) | Some e \<Rightarrow> (s, FatalSchema e))
      else if mode = ''up'' then
        (case migrate M (Some s) of
           (None, _) \<Rightarrow> (s, FatalSchema NilDatabase)
         | (Some s', None) \<Rightarrow> (s', Completed_ok)
         | (Some s', Some e) \<Rightarrow> (s', FatalSchema e))
      else (s, FatalMode))"

definition run_migrate_command :: "cli_env \<Rightarrow> schema \<Rightarrow> schema \<times> cli_result" where
  "run_migrate_command E s =
     (let U = cli_unicode E;
          drv = trim_space (cli_getenv E ''DATABASE_DRIVER'');
          dsn = trim_space (cli_getenv E ''DATABASE_DSN'');
          mode0 = trim_space (cli_getenv E ''SERVER_MODE'');
          server_mode = (if mode0 = [] then ''release'' else mode0)
      in if drv = [] \<or> dsn = [] then (s, FatalMissing)
         else (case parse_bool (default_value (cli_getenv E ''DATABASE_ALLOW_INSECURE_INTERNAL'') ''false'') of
             None \<Rightarrow> (s, FatalAllowInsecure)
           | Some allow \<Rightarrow>
               if \<not> validate_transport_security U server_mode drv dsn allow then (s, FatalTransport)
               else if open_driver U drv = None \<or> \<not> cli_connects E then (s, FatalConnect)
               else run_schema_mode (cli_migrator E) (to_lower U (trim_space (cli_mode E))) s))"

section \<open>Verification\<close>

definition schema_complete :: "schema \<Rightarrow> bool" where
  "schema_complete s \<longleftrightarrow> set schema_models \<subseteq> set (sc_tables s) \<and> set required_indexes \<subseteq> set (sc_indexes s)"

lemma find_missing: "find (\<lambda>x. x \<notin> B) xs = None \<longleftrightarrow> set xs \<subseteq> B"
  by (auto simp: find_None_iff)

lemma verify_schema_None: "verify_schema (Some s) = None \<longleftrightarrow> schema_complete s"
proof (cases "find (\<lambda>t. t \<notin> set (sc_tables s)) schema_models")
  case (Some t)
  then have "\<not> set schema_models \<subseteq> set (sc_tables s)" using find_missing by (metis option.distinct(1))
  with Some show ?thesis by (simp add: verify_schema_def schema_complete_def)
next
  case tables: None
  then have "set schema_models \<subseteq> set (sc_tables s)" by (simp only: find_missing)
  moreover have "find (\<lambda>ix. ix \<notin> set (sc_indexes s)) required_indexes = None
      \<longleftrightarrow> set required_indexes \<subseteq> set (sc_indexes s)"
    by (rule find_missing)
  ultimately show ?thesis
    using tables by (cases "find (\<lambda>ix. ix \<notin> set (sc_indexes s)) required_indexes")
      (simp_all add: verify_schema_def schema_complete_def)
qed

lemma all_tables: "set schema_models = UNIV"
proof -
  have "t \<in> set schema_models" for t by (cases t) (simp_all add: schema_models_def)
  then show ?thesis by auto
qed

lemma schema_models_distinct: "distinct schema_models"
  by (simp add: schema_models_def)

text \<open>A parent is created before the tables that refer to it.\<close>

definition table_dependencies :: "(table \<times> table) list" where
  "table_dependencies =
     [(TTest, TTestSection), (TTestSection, TTestItem), (TItem, TTestItem), (TTest, TDelivery),
      (TDelivery, TTestSession), (TTestSession, TItemResponse), (TLTIPlatform, TLTIResourceLink),
      (TLTIPlatform, TLTILinkSession), (TGroup, TUserGroup), (TGroup, TDeliveryGroup)]"

lemma parents_first: "\<forall>(p, c) \<in> set table_dependencies. c \<notin> set (takeWhile (\<lambda>t. t \<noteq> p) schema_models)"
  by (simp add: table_dependencies_def schema_models_def)

text \<open>
  What GORM documents: \<open>AutoMigrate\<close> only adds, and when it succeeds the tables and their declared
  indexes exist; \<open>DropIndex\<close> removes the index and nothing else.
\<close>

definition gorm_migrator :: "migrator \<Rightarrow> bool" where
  "gorm_migrator M \<longleftrightarrow>
     (\<forall>ts s s' ok. mg_auto M ts s = (s', ok) \<longrightarrow>
        set (sc_tables s) \<subseteq> set (sc_tables s') \<and> set (sc_indexes s) \<subseteq> set (sc_indexes s') \<and>
        (ok \<longrightarrow> set ts \<subseteq> set (sc_tables s') \<and> (\<forall>t \<in> set ts. Pair t ` set (declared_indexes t) \<subseteq> set (sc_indexes s'))))
     \<and> (\<forall>ix s s'. mg_drop M ix s = (s', True) \<longrightarrow>
        sc_tables s' = sc_tables s \<and> set (sc_indexes s') = set (sc_indexes s) - {ix})"

lemma gorm_migrator_auto:
  assumes "gorm_migrator M" and "mg_auto M ts s = (s', True)"
  shows "set (sc_tables s) \<subseteq> set (sc_tables s')" "set (sc_indexes s) \<subseteq> set (sc_indexes s')"
    "set ts \<subseteq> set (sc_tables s')" "\<forall>t \<in> set ts. Pair t ` set (declared_indexes t) \<subseteq> set (sc_indexes s')"
  using assms unfolding gorm_migrator_def by metis+

lemma gorm_migrator_drop:
  assumes "gorm_migrator M" and "mg_drop M ix s = (s', True)"
  shows "sc_tables s' = sc_tables s" "set (sc_indexes s') = set (sc_indexes s) - {ix}"
  using assms unfolding gorm_migrator_def by metis+

lemma declared_required:
  "\<forall>t \<in> set schema_models. Pair t ` set (declared_indexes t) \<subseteq> B \<Longrightarrow> set required_indexes \<subseteq> B"
  by (simp add: schema_models_def required_indexes_def)

text \<open>
  Migration.  With a migrator that behaves as documented, a migration whose calls succeed ends
  without an error in a schema that has every table and every unique index the code relies on, keeps all
  tables and all other indexes that were there, and has lost the index that allowed one client per issuer.
\<close>
theorem migration_completes:
  assumes gorm: "gorm_migrator M" and auto: "mg_auto M schema_models s = (s1, True)"
    and drop: "legacy_index \<in> set (sc_indexes s1) \<Longrightarrow> snd (mg_drop M legacy_index s1)"
  shows "\<exists>s'. migrate M (Some s) = (Some s', None) \<and> schema_complete s'
    \<and> set (sc_tables s) \<subseteq> set (sc_tables s') \<and> set (sc_indexes s) - {legacy_index} \<subseteq> set (sc_indexes s')
    \<and> legacy_index \<notin> set (sc_indexes s')"
proof -
  have s1: "set (sc_tables s) \<subseteq> set (sc_tables s1)" "set (sc_indexes s) \<subseteq> set (sc_indexes s1)"
      "set schema_models \<subseteq> set (sc_tables s1)" "set required_indexes \<subseteq> set (sc_indexes s1)"
    using gorm_migrator_auto [OF gorm auto] declared_required by simp_all
  show ?thesis
  proof (cases "legacy_index \<in> set (sc_indexes s1)")
    case False
    then have "migrate M (Some s) = (Some s1, verify_schema (Some s1))" by (simp add: migrate_def auto)
    moreover have "verify_schema (Some s1) = None" using s1 by (simp add: verify_schema_None schema_complete_def)
    ultimately show ?thesis using s1 False by (auto simp: schema_complete_def)
  next
    case True
    with drop obtain s2 where s2: "mg_drop M legacy_index s1 = (s2, True)" by (metis prod.collapse)
    then have keep: "sc_tables s2 = sc_tables s1" "set (sc_indexes s2) = set (sc_indexes s1) - {legacy_index}"
      using gorm_migrator_drop [OF gorm] by simp_all
    have "legacy_index \<notin> set required_indexes" by (simp add: legacy_index_def required_indexes_def)
    then have complete: "schema_complete s2" using s1 keep by (auto simp: schema_complete_def)
    have "migrate M (Some s) = (Some s2, verify_schema (Some s2))" using True by (simp add: migrate_def auto s2)
    moreover have "verify_schema (Some s2) = None" using complete by (simp add: verify_schema_None)
    ultimately show ?thesis using complete s1 keep by auto
  qed
qed

lemma migrate_ok: "migrate M (Some s) = (Some s', None) \<Longrightarrow> schema_complete s'"
  by (auto simp: migrate_def verify_schema_None split: prod.splits bool.splits if_splits)

lemma default_value_false:
  "parse_bool v \<noteq> Some True \<Longrightarrow> parse_bool (default_value v ''false'') = Some b \<Longrightarrow> \<not> b"
  by (auto simp: default_value_def parse_bool_def split: if_splits)

lemma release_refused:
  assumes "trim_space m = [] \<or> equal_fold U (trim_space m) ''release''" and "\<not> is_sqlite_driver U d"
    and "string_contains (to_lower U dsn) ''sslmode=disable''"
  shows "\<not> validate_transport_security U (if trim_space m = [] then ''release'' else trim_space m) d dsn False"
proof -
  have "trim_space ''release'' = ''release''" by (simp add: go_simps)
  then show ?thesis using assms by (auto simp: validate_transport_security_def equal_fold_def)
qed

lemma run_schema_mode_ok: "run_schema_mode M mode s = (s', Completed_ok) \<Longrightarrow> schema_complete s'"
  by (auto simp: run_schema_mode_def verify_schema_None split: if_splits option.splits prod.splits dest: migrate_ok)

lemma run_schema_mode_keeps: "run_schema_mode M mode s = (s', r) \<Longrightarrow> mode \<noteq> ''up'' \<Longrightarrow> s' = s"
  by (auto simp: run_schema_mode_def split: if_splits option.splits)

lemma run_migrate_command_cases:
  assumes "run_migrate_command E s = (s', r)"
  obtains (refused) "s' = s" "r \<noteq> Completed_ok"
  | (ran) allow where "parse_bool (default_value (cli_getenv E ''DATABASE_ALLOW_INSECURE_INTERNAL'') ''false'') = Some allow"
      "validate_transport_security (cli_unicode E)
         (if trim_space (cli_getenv E ''SERVER_MODE'') = [] then ''release'' else trim_space (cli_getenv E ''SERVER_MODE''))
         (trim_space (cli_getenv E ''DATABASE_DRIVER'')) (trim_space (cli_getenv E ''DATABASE_DSN'')) allow"
      "run_schema_mode (cli_migrator E) (to_lower (cli_unicode E) (trim_space (cli_mode E))) s = (s', r)"
  using assms unfolding run_migrate_command_def Let_def by (auto split: if_splits option.splits)

text \<open>
  Claim C40: the migration command.  Whatever the migrator does, the command reports success only with a
  complete schema; with any mode but \<open>up\<close> it leaves the schema as it is; and it never touches a
  PostgreSQL database in release mode, the default, through a DSN with \<open>sslmode=disable\<close>, unless the
  exception is set.
\<close>
theorem migrate_command_guarded:
  "case run_migrate_command E s of (s', r) \<Rightarrow>
     (r = Completed_ok \<longrightarrow> schema_complete s')
     \<and> (to_lower (cli_unicode E) (trim_space (cli_mode E)) \<noteq> ''up'' \<longrightarrow> s' = s)
     \<and> ((trim_space (cli_getenv E ''SERVER_MODE'') = []
            \<or> equal_fold (cli_unicode E) (trim_space (cli_getenv E ''SERVER_MODE'')) ''release'')
          \<and> \<not> is_sqlite_driver (cli_unicode E) (trim_space (cli_getenv E ''DATABASE_DRIVER''))
          \<and> string_contains (to_lower (cli_unicode E) (trim_space (cli_getenv E ''DATABASE_DSN''))) ''sslmode=disable''
          \<and> parse_bool (cli_getenv E ''DATABASE_ALLOW_INSECURE_INTERNAL'') \<noteq> Some True
          \<longrightarrow> s' = s \<and> r \<noteq> Completed_ok)"
proof (cases "run_migrate_command E s")
  case (Pair s' r)
  then show ?thesis
  proof (cases rule: run_migrate_command_cases)
    case refused
    then show ?thesis by (simp add: Pair)
  next
    case (ran allow)
    have "\<not> allow" if "parse_bool (cli_getenv E ''DATABASE_ALLOW_INSECURE_INTERNAL'') \<noteq> Some True"
      using default_value_false [OF that ran(1)] .
    then show ?thesis
      using ran(2) release_refused [of "cli_getenv E ''SERVER_MODE''" "cli_unicode E"]
        run_schema_mode_ok [of "cli_migrator E" _ s s'] run_schema_mode_keeps [OF ran(3)] ran(3)
      by (cases allow) (auto simp: Pair)
  qed
qed

end
