(* ===== verification/Server.thy ===== *)
theory Server
  imports Api LtiHandler LtiGrades ServiceHandlers ResultsExport Database Demo
begin

text \<open>
  The whole server of \<open>cmd/server/main.go\<close>: its start, the state it then keeps (database, request
  counter and rate limiter, webhook queue, key cache, media directory, grade submissions and launches
  under way), the
  answer of every registered endpoint, and the steps of the running system: a request, a step of a
  launch under way, a webhook worker taking an event, a grade submission, a clean-up of the rate limiter.
\<close>

section \<open>Start\<close>

record server_config =
  sv_jwt :: jwt_config
  sv_encryption_key :: string
  sv_mode :: string
  sv_driver :: string
  sv_dsn :: string
  sv_allow_insecure :: bool
  sv_max_open :: int
  sv_max_idle :: int
  sv_seed_demo :: bool
  sv_webhook_hosts :: string
  sv_webhook_workers :: int
  sv_trusted_proxies :: string

text \<open>The libraries and the outcomes of connecting; identifiers for the demonstration data.\<close>

record startup_env =
  se_unicode :: unicode_tables
  se_gcm :: "nat list \<Rightarrow> aead option"
  se_connects :: bool
  se_ping :: bool
  se_migrator :: migrator
  se_gorm :: gorm
  se_ids :: "string \<times> string \<times> string \<times> string"
  se_proxies_ok :: "string list \<Rightarrow> bool"

datatype startup_err =
    StartJwt | StartCipher cipher_err | StartTransport | StartConnect | StartPool | StartPing
  | StartMigration migrate_err | StartWebhook | StartProxies

record started =
  st_cipher :: aead
  st_pool :: "int \<times> int"
  st_hook_policy :: outbound_policy
  st_workers :: int

definition pool_limits :: "unicode_tables \<Rightarrow> server_config \<Rightarrow> (int \<times> int) option" where
  "pool_limits U cfg =
     (let (max_open, max_idle) = (if is_sqlite_driver U (sv_driver cfg) then (1, 1) else (sv_max_open cfg, sv_max_idle cfg))
      in if max_open \<le> 0 \<or> max_idle < 0 \<or> max_open < max_idle then None else Some (max_open, max_idle))"

text \<open>\<open>strings.FieldsFunc\<close> with a comma.\<close>

definition comma_fields :: "string \<Rightarrow> string list" where
  "comma_fields s = filter (\<lambda>f. f \<noteq> []) (split_on CHR '','' s)"

text \<open>After the migration: demonstration data when asked for, the webhook policy, the proxies.\<close>

definition start_services ::
    "startup_env \<Rightarrow> server_config \<Rightarrow> aead \<Rightarrow> int \<times> int \<Rightarrow> db \<Rightarrow> db \<times> (startup_err + started)" where
  "start_services E cfg ci pool d =
     (case se_ids E of (tid, secid, ti1, ti2) \<Rightarrow>
        let d' = (if sv_seed_demo cfg then seed_demo_data (se_gorm E) tid secid ti1 ti2 d else d)
        in case new_webhook_policy (se_unicode E) (comma_fields (sv_webhook_hosts cfg)) of
             None \<Rightarrow> (d', Inl StartWebhook)
           | Some pol \<Rightarrow>
               if \<not> se_proxies_ok E (comma_fields (sv_trusted_proxies cfg)) then (d', Inl StartProxies)
               else (d', Inr \<lparr>st_cipher = ci, st_pool = pool, st_hook_policy = pol,
                              st_workers = worker_pool_size (sv_webhook_workers cfg)\<rparr>))"

definition start_server ::
    "startup_env \<Rightarrow> server_config \<Rightarrow> schema \<times> db \<Rightarrow> (schema \<times> db) \<times> (startup_err + started)" where
  "start_server E cfg sd =
     (if \<not> validate_jwt_config (sv_jwt cfg) then (sd, Inl StartJwt)
      else case new_secret_cipher (se_gcm E) (sv_encryption_key cfg) of
        Inl e \<Rightarrow> (sd, Inl (StartCipher e))
      | Inr ci \<Rightarrow>
          if \<not> validate_transport_security (se_unicode E) (sv_mode cfg) (sv_driver cfg) (sv_dsn cfg) (sv_allow_insecure cfg)
          then (sd, Inl StartTransport)
          else if open_driver (se_unicode E) (sv_driver cfg) = None \<or> \<not> se_connects E then (sd, Inl StartConnect)
          else (case pool_limits (se_unicode E) cfg of
              None \<Rightarrow> (sd, Inl StartPool)
            | Some pool \<Rightarrow>
                if \<not> se_ping E then (sd, Inl StartPing)
                else (case migrate (se_migrator E) (Some (fst sd)) of
                    (None, _) \<Rightarrow> (sd, Inl StartConnect)
                  | (Some sch, Some e) \<Rightarrow> ((sch, snd sd), Inl (StartMigration e))
                  | (Some sch, None) \<Rightarrow>
                      (case start_services E cfg ci pool (snd sd) of (d', r) \<Rightarrow> ((sch, d'), r)))))"

section \<open>Configuration and exit\<close>

text \<open>
  What Viper answers for a key once \<open>main\<close> has set it up: the environment, else the file, else the default
  set below, else the zero value of the type.
\<close>

record viper =
  vp_string :: "string \<Rightarrow> string"
  vp_int :: "string \<Rightarrow> int"
  vp_bool :: "string \<Rightarrow> bool"

datatype config_value = CfgString string | CfgInt int | CfgBool bool

definition config_defaults :: "(string \<times> config_value) list" where
  "config_defaults =
     [(''server.port'', CfgInt 8080), (''database.dsn'', CfgString ''tao_core.db''),
      (''database.max_open_connections'', CfgInt 50), (''database.max_idle_connections'', CfgInt 10),
      (''database.connection_max_lifetime_minutes'', CfgInt 30), (''demo.seed_enabled'', CfgBool False)]"

definition read_config :: "viper \<Rightarrow> server_config" where
  "read_config v =
     \<lparr>sv_jwt = \<lparr>jc_secret = vp_string v ''jwt.secret'', jc_issuer = vp_string v ''jwt.issuer'',
        jc_audience = vp_string v ''jwt.audience''\<rparr>,
      sv_encryption_key = vp_string v ''security.encryption_key'', sv_mode = vp_string v ''server.mode'',
      sv_driver = vp_string v ''database.driver'', sv_dsn = vp_string v ''database.dsn'',
      sv_allow_insecure = vp_bool v ''database.allow_insecure_internal'',
      sv_max_open = vp_int v ''database.max_open_connections'', sv_max_idle = vp_int v ''database.max_idle_connections'',
      sv_seed_demo = vp_bool v ''demo.seed_enabled'', sv_webhook_hosts = vp_string v ''webhook.allowed_hosts'',
      sv_webhook_workers = vp_int v ''webhook.worker_pool_size'', sv_trusted_proxies = vp_string v ''server.trusted_proxies''\<rparr>"

text \<open>\<open>time.Duration(hours) * time.Hour\<close>, in 64 bits.\<close>

definition token_lifetime :: "viper \<Rightarrow> duration" where
  "token_lifetime v = wrap_int64 (wrap_int64 (vp_int v ''jwt.expire_hours'') * (60 * minute))"

definition listen_address :: "viper \<Rightarrow> string" where
  "listen_address v = '':'' @ int_string (vp_int v ''server.port'')"

text \<open>
  Why \<open>main\<close> stops waiting: the listener returned (\<open>None\<close> for no error, else whether it is
  \<open>ErrServerClosed\<close>), or a signal arrived and the shutdown succeeded in time or not.  \<open>Fatal\<close> exits with 1.
\<close>

datatype stop_cause = ListenReturned "bool option" | SignalReceived bool

fun exit_status :: "stop_cause \<Rightarrow> nat" where
  "exit_status (ListenReturned (Some False)) = 1"
| "exit_status (ListenReturned _) = 0"
| "exit_status (SignalReceived shut_down) = 0"

text \<open>Viper with nothing but the defaults.\<close>

definition defaults_only :: viper where
  "defaults_only =
     \<lparr>vp_string = (\<lambda>k. case map_of config_defaults k of Some (CfgString s) \<Rightarrow> s | _ \<Rightarrow> []),
      vp_int = (\<lambda>k. case map_of config_defaults k of Some (CfgInt n) \<Rightarrow> n | _ \<Rightarrow> 0),
      vp_bool = (\<lambda>k. case map_of config_defaults k of Some (CfgBool b) \<Rightarrow> b | _ \<Rightarrow> False)\<rparr>"

text \<open>The defaults alone do not start a server: there is no default secret.\<close>

lemma defaults_refuse_start: "start_server E (read_config defaults_only) sd = (sd, Inl StartJwt)"
  by (simp add: start_server_def read_config_def defaults_only_def config_defaults_def validate_jwt_config_def
      validate_jwt_secret_def min_jwt_secret_length_def)

text \<open>
  The lifetime of tokens has no default and is not checked at the start: without it a launch, although its
  state is used up and its session started, is answered with an error.
\<close>

lemma unset_lifetime_fails_launches:
  assumes "vp_int v ''jwt.expire_hours'' \<le> 0" and "- 2000000 \<le> vp_int v ''jwt.expire_hours''"
    and "lh_token_ttl H = token_lifetime v"
    and "launch_handler H L others now1 now2 c cache d = ((status, reply), cache', d')"
  shows "reply = LtiError \<and> status \<noteq> 200"
proof -
  have "wrap_int64 (vp_int v ''jwt.expire_hours'') = vp_int v ''jwt.expire_hours''"
    using assms(1,2) by (intro wrap_int64_id) auto
  moreover have "wrap_int64 (vp_int v ''jwt.expire_hours'' * (60 * minute)) = vp_int v ''jwt.expire_hours'' * (60 * minute)"
    using assms(1,2) by (intro wrap_int64_id) (auto simp: minute_def second_def)
  ultimately have "lh_token_ttl H \<le> 0"
    using assms(1,3) by (simp add: token_lifetime_def minute_def second_def)
  then show ?thesis using assms(4)
    by (auto simp: launch_handler_def generate_jwt_def launch_error_status_def
        split: form_result.splits if_splits prod.splits sum.splits)
qed

section \<open>The running server\<close>

type_synonym hook_queue = "completion_payload webhook_event list"

record world =
  w_server :: server
  w_db :: db
  w_queue :: hook_queue
  w_cache :: jwks_cache
  w_files :: media_dir
  w_grades :: "test_session list"
  w_launches :: "pending_launch list"

text \<open>What the collaborators do with the effects of a submission; nothing subscribes to the event bus.\<close>

fun apply_effect :: "effect \<Rightarrow> world \<Rightarrow> world" where
  "apply_effect (PublishEvent n p) w = w"
| "apply_effect (DispatchWebhook n p) w = w\<lparr>w_queue := dispatch n p (w_queue w)\<rparr>"
| "apply_effect (SpawnGradeSubmission s) w = w\<lparr>w_grades := w_grades w @ [s]\<rparr>"

lemma unsubscribed_publish: "publish n p new_event_bus = []"
  by (simp add: publish_def new_event_bus_def handlers_of_def)

datatype server_reply =
    ApiReply reply
  | LtiReply lti_reply
  | WebhookReply webhook_reply
  | QtiReply qti_reply
  | CsvReply csv_reply
  | MetricsReply metrics_summary
  | PageReply
  | HealthReply string
  | StaticReply

text \<open>What one request reads from outside, for all handlers.\<close>

record request_env =
  re_layers :: layer_env
  re_handler :: handler_env
  re_lti :: lti_handler_env
  re_launch :: launch_env
  re_hook :: "completion_payload hook_env"
  re_bind_webhook :: "string \<Rightarrow> webhook_request option"
  re_qti :: qti_handler_env
  re_now2 :: time
  re_state :: string
  re_nonce :: string
  re_rnd1 :: "nat \<Rightarrow> nat list option"
  re_rnd2 :: "nat \<Rightarrow> nat list option"
  re_row_gorm :: "nat \<Rightarrow> gorm"
  re_time_zone :: int
  re_ping :: "bool option"
  re_static :: "media_dir \<Rightarrow> string \<Rightarrow> nat"
  re_runtime :: "nat \<times> nat"

text \<open>Replacing the database of the state.\<close>

definition with_db :: "(nat \<times> 'a) \<times> db \<Rightarrow> ('a \<Rightarrow> server_reply) \<Rightarrow> world \<Rightarrow> (nat \<times> server_reply) \<times> world \<times> effect list" where
  "with_db r f w = ((fst (fst r), f (snd (fst r))), w\<lparr>w_db := snd r\<rparr>, [])"

definition reading :: "nat \<times> 'a \<Rightarrow> ('a \<Rightarrow> server_reply) \<Rightarrow> world \<Rightarrow> (nat \<times> server_reply) \<times> world \<times> effect list" where
  "reading r f w = ((fst r, f (snd r)), w, [])"

text \<open>The handler of each endpoint on the whole state.\<close>

fun answer :: "endpoint \<Rightarrow> request_env \<Rightarrow> ctx \<Rightarrow> world \<Rightarrow> (nat \<times> server_reply) \<times> world \<times> effect list" where
  "answer EpHome R c w = ((200, PageReply), w, [])"
| "answer EpHealth R c w = ((200, HealthReply ''UP''), w, [])"
| "answer EpReady R c w =
     ((ready_status (re_ping R), HealthReply (if ready_status (re_ping R) = 200 then ''READY'' else ''NOT_READY'')), w, [])"
| "answer EpUploads R c w = ((re_static R (w_files w) (ctx_param c ''filepath''), StaticReply), w, [])"
| "answer EpMetrics R c w =
     ((200, MetricsReply (get_metrics_summary (he_clock (re_handler R)) (fst (re_runtime R)) (snd (re_runtime R)) (w_server w))), w, [])"
| "answer EpStartSession R c w = with_db (start_session_handler (re_handler R) c (w_db w)) ApiReply w"
| "answer EpGetSession R c w = reading (get_session_handler (re_handler R) c (w_db w)) ApiReply w"
| "answer EpSaveResponse R c w = with_db (save_response_handler (re_handler R) c (w_db w)) ApiReply w"
| "answer EpSubmitSession R c w =
     (case submit_session_handler (re_handler R) c (w_db w) of
        (r, d', effs) \<Rightarrow> ((fst r, ApiReply (snd r)), fold apply_effect effs (w\<lparr>w_db := d'\<rparr>), effs))"
| "answer EpRecordEvent R c w = with_db (record_event_handler (re_handler R) c (w_db w)) ApiReply w"
| "answer EpProctorLog R c w = reading (proctor_log_handler (re_handler R) c (w_db w)) ApiReply w"
| "answer EpProctorAnalytics R c w = reading (proctor_analytics_handler (re_handler R) c (w_db w)) ApiReply w"
| "answer EpResultsCsv R c w =
     reading (export_results_handler (le_unicode (re_layers R)) (he_gorm (re_handler R)) (re_row_gorm R)
       (re_time_zone R) (ctx_param c ''id'') (w_db w)) CsvReply w"
| "answer EpImportQti R c w =
     (case import_qti_handler (re_qti R) (he_gorm (re_handler R)) c (w_files w) (w_db w) of
        (r, files', d') \<Rightarrow> ((fst r, QtiReply (snd r)), w\<lparr>w_db := d', w_files := files'\<rparr>, []))"
| "answer EpRegisterPlatform R c w =
     with_db (register_platform_handler (re_lti R) (he_gorm (re_handler R)) (he_clock (re_handler R))
       (he_id (re_handler R)) (re_rnd1 R) c (w_db w)) LtiReply w"
| "answer EpRegisterResourceLink R c w =
     with_db (register_resource_link_handler (re_lti R) (he_gorm (re_handler R)) (he_clock (re_handler R))
       (he_id (re_handler R)) c (w_db w)) LtiReply w"
| "answer EpRegisterWebhook R c w =
     with_db (register_webhook_handler (re_hook R) (he_gorm (re_handler R)) (he_clock (re_handler R))
       (he_id (re_handler R)) (re_rnd1 R) (re_rnd2 R) (re_bind_webhook R) c (w_db w)) WebhookReply w"
| "answer EpWebhookLogs R c w = reading (get_webhook_logs_handler (he_gorm (re_handler R)) (w_db w)) WebhookReply w"
| "answer EpLtiLogin R c w =
     with_db (initiate_login_handler (re_lti R) (he_gorm (re_handler R)) (he_clock (re_handler R))
       (re_state R) (re_nonce R) c (w_db w)) LtiReply w"
| "answer EpLtiLaunch R c w =
     (case launch_handler (re_lti R) (re_launch R) (\<lambda>_ d. d) (he_clock (re_handler R)) (re_now2 R) c (w_cache w) (w_db w) of
        (r, cache', d') \<Rightarrow> ((fst r, LtiReply (snd r)), w\<lparr>w_db := d', w_cache := cache'\<rparr>, []))"

text \<open>A whole request: the layers of the route, then its handler.\<close>

definition serve ::
    "request_env \<Rightarrow> route \<Rightarrow> ctx \<Rightarrow> world \<Rightarrow> (nat \<times> server_reply) \<times> world \<times> effect list" where
  "serve R rt c w =
     (case serve_layers (re_layers R) rt (w_server w) c of
        (srv, Abort _ st rep) \<Rightarrow> ((st, ApiReply rep), w\<lparr>w_server := srv\<rparr>, [])
      | (srv, Next c') \<Rightarrow> answer (rt_endpoint rt) R c' (w\<lparr>w_server := srv\<rparr>))"

text \<open>
  The steps of the running system, with the effects of completed sessions they emit.  The session service
  and the scoring engine are fixed when the server starts, and \<open>D\<close> are the identifiers that may be drawn
  for the state of a login; everything else a step reads is arbitrary.  A launch is no transaction: it
  runs in one go, or is verified first and then goes on in steps, so that others may come between its
  verification and each of its three changes of the database.  Besides, a webhook worker takes an event
  from the queue, a grade submission runs, or the limiter is cleaned up.
\<close>

inductive server_step :: "session_service \<Rightarrow> scorer \<Rightarrow> string set \<Rightarrow> world \<Rightarrow> effect list \<Rightarrow> world \<Rightarrow> bool" for svc sc D where
  step_request:
    "rt \<in> set all_routes \<Longrightarrow> he_service (re_handler R) = svc \<Longrightarrow> he_scorer (re_handler R) = sc \<Longrightarrow>
       re_state R \<in> D \<Longrightarrow> serve R rt c w = (r, w', effs) \<Longrightarrow> server_step svc sc D w effs w'"
| step_launch_begin:
    "rt \<in> set all_routes \<Longrightarrow> rt_endpoint rt = EpLtiLaunch \<Longrightarrow>
       serve_layers (re_layers (R :: request_env)) rt (w_server w) c = (srv, Next c') \<Longrightarrow> parse_lti_form (re_lti R) c' = Form form \<Longrightarrow>
       values_get form ''id_token'' \<noteq> [] \<Longrightarrow> values_get form ''state'' \<noteq> [] \<Longrightarrow>
       verify_launch (lh_env (re_lti R)) (re_launch R) (values_get form ''id_token'') (values_get form ''state'')
         (w_cache w) (w_db w) = (Inr v, cache') \<Longrightarrow>
       server_step svc sc D w [] (w\<lparr>w_server := srv, w_cache := cache',
         w_launches := begin_launch (lh_env (re_lti R)) (re_launch R) (values_get form ''state'') v # w_launches w\<rparr>)"
| step_launch:
    "w_launches w = xs @ P # ys \<Longrightarrow> advance_launch P (w_db w) = (out, d') \<Longrightarrow>
       server_step svc sc D w [] (w\<lparr>w_db := d',
         w_launches := xs @ (case out of Inl P' \<Rightarrow> [P'] | Inr _ \<Rightarrow> []) @ ys\<rparr>)"
| step_worker:
    "w_queue w = ev # q \<Longrightarrow> worker_iteration E g a gl ev (w_db w) = (rqs, d') \<Longrightarrow>
       server_step svc sc D w [] (w\<lparr>w_queue := q, w_db := d'\<rparr>)"
| step_grade:
    "w_grades w = xs @ s # ys \<Longrightarrow> submit_grade V G s (w_db w) = (err, rqs) \<Longrightarrow>
       server_step svc sc D w [] (w\<lparr>w_grades := xs @ ys\<rparr>)"
| step_cleanup:
    "server_step svc sc D w [] (w\<lparr>w_server := (w_server w)\<lparr>limiter := cleanup (limiter (w_server w)) now\<rparr>\<rparr>)"

inductive server_run :: "session_service \<Rightarrow> scorer \<Rightarrow> string set \<Rightarrow> world \<Rightarrow> effect list \<Rightarrow> world \<Rightarrow> bool" for svc sc D w0 where
  run_init: "server_run svc sc D w0 [] w0"
| run_step: "server_run svc sc D w0 tr w \<Longrightarrow> server_step svc sc D w effs w' \<Longrightarrow> server_run svc sc D w0 (tr @ effs) w'"

inductive_cases server_stepE: "server_step svc sc D w effs w'"

end
