(* ===== verification/ServerProps.thy ===== *)
theory ServerProps
  imports Server
begin

text \<open>
  Properties of the whole server: what each endpoint does to the sessions, so that the invariants of the
  session service hold under every interleaving of requests, workers and grade submissions; isolation of
  users on every route; effects of a completed session sent at most once; and a safe start.
\<close>

section \<open>Steps that leave sessions alone\<close>

definition quiet :: "db \<Rightarrow> db \<Rightarrow> bool" where
  "quiet d d' \<longleftrightarrow>
     test_sessions d' = test_sessions d \<and> item_responses d' = item_responses d \<and> deliveries d' = deliveries d"

named_theorems quiet_intros \<open>operations that do not write sessions or responses\<close>

lemma quiet_refl [simp, quiet_intros]: "quiet d d"
  by (simp add: quiet_def)

lemma quiet_trans [trans]: "quiet d d1 \<Longrightarrow> quiet d1 d2 \<Longrightarrow> quiet d d2"
  by (simp add: quiet_def)

lemma quiet_updates [simp, quiet_intros]:
  "quiet d (lti_platforms_update f1 d)" "quiet d (lti_resource_links_update f2 d)"
  "quiet d (lti_oidc_states_update f3 d)" "quiet d (lti_link_sessions_update f4 d)"
  "quiet d (webhook_configs_update f5 d)" "quiet d (webhook_logs_update f6 d)"
  "quiet d (items_update f7 d)" "quiet d (proctor_events_update f8 d)"
  by (simp_all add: quiet_def)

lemma quiet_session_inv: "quiet d d' \<Longrightarrow> session_inv d' = session_inv d"
  by (simp add: quiet_def session_inv_def attempts_of_def)

lemma quiet_register_platform [quiet_intros]: "register_platform V g now nid rnd p d = (r, d') \<Longrightarrow> quiet d d'"
  by (cases r) (auto dest: register_platform_Inl register_platform_Inr)

lemma quiet_register_resource_link [quiet_intros]: "register_resource_link g now nid l d = (r, d') \<Longrightarrow> quiet d d'"
  by (auto simp: register_resource_link_def Let_def split: if_splits option.splits)

lemma quiet_sweep [quiet_intros]: "quiet d (sweep_states g k now d)"
  by (simp add: sweep_states_def)

lemma quiet_sweep_after: "quiet d (sweep_states g k now (d\<lparr>lti_oidc_states := rows\<rparr>))"
  using quiet_trans [OF quiet_updates(3) quiet_sweep] by blast

lemma quiet_initiate_login [quiet_intros]:
  "initiate_login V g now st nonce iss cid target lh mh d = (r, d') \<Longrightarrow> quiet d d'"
  by (auto simp: initiate_login_def quiet_sweep_after split: if_splits option.splits)

lemma quiet_claim_state: "claim_state g k st now d = (ok, d') \<Longrightarrow> quiet d d'"
  by (auto simp: claim_state_def split: if_splits)

lemma quiet_save_link: "save_link g k row d = (e, d') \<Longrightarrow> quiet d d'"
  by (auto simp: save_link_def Let_def split: if_splits)

lemma quiet_register_config [quiet_intros]:
  "register_config E g now nid rnd1 rnd2 cfg d = (r, d') \<Longrightarrow> quiet d d'"
  by (auto simp: register_config_def Let_def split: if_splits option.splits sum.splits)

lemma quiet_log: "quiet d (log_webhook_result g row d)"
  by (simp add: log_webhook_result_def split: option.splits)

lemma quiet_send_all: "quiet d (snd (send_all E a gl i ev body cs d))"
proof (induction E a gl i ev body cs d rule: send_all.induct)
  case (1 E a gl i ev body d)
  then show ?case by simp
next
  case (2 E a gl i ev body c cs d)
  obtain rq row where sent: "send_webhook E (a i) c ev body = (rq, row)" by (cases "send_webhook E (a i) c ev body")
  show ?case
    using quiet_trans [OF quiet_log 2 [OF sent [symmetric] refl]] sent by (simp add: case_prod_beta)
qed

lemma quiet_worker:
  assumes "worker_iteration E g a gl ev d = (rqs, d')"
  shows "quiet d d'"
proof -
  have "quiet d (snd (worker_iteration E g a gl ev d))"
    by (simp add: worker_iteration_def quiet_send_all split: option.splits)
  then show ?thesis by (simp add: assms)
qed

lemma quiet_import [quiet_intros]: "import_qti_package E g p files d = (r, files', d') \<Longrightarrow> quiet d d'"
  using import_outcome [where E = E and g = g and p = p and files = files and d = d] by (cases r) auto

lemma quiet_record_event [quiet_intros]: "record_event g now nid e uid d1 d = (r, d') \<Longrightarrow> quiet d d'"
  by (cases r) (auto simp: create_event_Inr dest: record_event_Inl dest!: record_event_Inr)

section \<open>What an endpoint calls\<close>

text \<open>The one operation of a service by which an answer changes the database, with the effects it emits.\<close>

inductive endpoint_op :: "request_env \<Rightarrow> endpoint \<Rightarrow> db \<Rightarrow> effect list \<Rightarrow> db \<Rightarrow> bool" for R where
  no_op: "endpoint_op R ep d [] d"
| start_op: "start_session g now nid did uid d = (rs, d') \<Longrightarrow> endpoint_op R EpStartSession d [] d'"
| save_op: "save_response g now1 now2 rid sid uid iid dat d = (rr, d') \<Longrightarrow> endpoint_op R EpSaveResponse d [] d'"
| submit_op:
    "submit_session (he_service (re_handler R)) g (he_scorer (re_handler R)) now sid uid d = (rf, d', effs) \<Longrightarrow>
       endpoint_op R EpSubmitSession d effs d'"
| event_op: "record_event g now nid e uid d d = (rv, d') \<Longrightarrow> endpoint_op R EpRecordEvent d [] d'"
| import_op: "import_qti_package Q g pk files d = (ri, files', d') \<Longrightarrow> endpoint_op R EpImportQti d [] d'"
| platform_op: "register_platform V g now nid rnd p d = (rp, d') \<Longrightarrow> endpoint_op R EpRegisterPlatform d [] d'"
| link_op: "register_resource_link g now nid l d = (rl, d') \<Longrightarrow> endpoint_op R EpRegisterResourceLink d [] d'"
| config_op:
    "register_config (E :: completion_payload hook_env) g now nid rnd1 rnd2 cfg d = (rc, d') \<Longrightarrow>
       endpoint_op R EpRegisterWebhook d [] d'"
| login_op:
    "initiate_login V g now (re_state R) nonce iss cid target lh mh d = (out, d') \<Longrightarrow> endpoint_op R EpLtiLogin d [] d'"
| launch_op: "handle_launch V L (\<lambda>_ d. d) tok st cache d = (ra, cache', d') \<Longrightarrow> endpoint_op R EpLtiLaunch d [] d'"

inductive_cases endpoint_opE: "endpoint_op R ep d effs d'"

inductive_simps endpoint_op_submit: "endpoint_op R EpSubmitSession d effs d'"

lemma w_db_effects [simp]: "w_db (fold apply_effect effs w) = w_db w"
proof (induction effs arbitrary: w)
  case (Cons e effs)
  have "w_db (apply_effect e w) = w_db w" by (cases e) simp_all
  with Cons show ?case by simp
qed simp

lemma answer_op:
  assumes "answer ep R c w = (r, w', effs)"
  shows "endpoint_op R ep (w_db w) effs (w_db w')"
proof (cases ep)
  case EpStartSession
  with assms show ?thesis
    by (auto simp: with_db_def start_session_handler_def split: option.splits prod.splits sum.splits
        intro: endpoint_op.intros)
next
  case EpSaveResponse
  with assms show ?thesis
    by (auto simp: with_db_def save_response_handler_def split: option.splits prod.splits sum.splits
        intro: endpoint_op.intros)
next
  case EpSubmitSession
  with assms show ?thesis
    by (auto simp: submit_session_handler_def split: option.splits prod.splits sum.splits intro: endpoint_op.intros)
next
  case EpRecordEvent
  with assms show ?thesis
    by (auto simp: with_db_def record_event_handler_def split: option.splits prod.splits sum.splits
        intro: endpoint_op.intros)
next
  case EpImportQti
  with assms show ?thesis
    by (auto simp: import_qti_handler_def split: form_file.splits if_splits option.splits prod.splits sum.splits
        intro: endpoint_op.intros)
next
  case EpRegisterPlatform
  with assms show ?thesis
    by (auto simp: with_db_def register_platform_handler_def split: option.splits prod.splits sum.splits
        intro: endpoint_op.intros)
next
  case EpRegisterResourceLink
  with assms show ?thesis
    by (auto simp: with_db_def register_resource_link_handler_def split: option.splits prod.splits sum.splits
        intro: endpoint_op.intros)
next
  case EpRegisterWebhook
  with assms show ?thesis
    by (auto simp: with_db_def register_webhook_handler_def split: option.splits prod.splits sum.splits
        intro: endpoint_op.intros)
next
  case EpLtiLogin
  with assms show ?thesis
    by (auto simp: with_db_def initiate_login_handler_def answer_login_def Let_def
        split: option.splits prod.splits form_result.splits login_outcome.splits if_splits intro: endpoint_op.intros)
next
  case EpLtiLaunch
  with assms show ?thesis
    by (auto simp: launch_handler_def split: form_result.splits if_splits prod.splits sum.splits
        intro: endpoint_op.intros)
qed (use assms in \<open>auto simp: reading_def intro: no_op\<close>)

lemma serve_op:
  assumes "serve R rt c w = (r, w', effs)"
  shows "endpoint_op R (rt_endpoint rt) (w_db w) effs (w_db w')"
  using assms answer_op [of "rt_endpoint rt" R _ "w\<lparr>w_server := fst (serve_layers (re_layers R) rt (w_server w) c)\<rparr>" r w' effs]
  by (auto simp: serve_def intro: no_op split: prod.splits outcome.splits)

section \<open>What an endpoint does to sessions\<close>

text \<open>The operations on sessions, with the effects they emit.\<close>

inductive session_op :: "session_service \<Rightarrow> scorer \<Rightarrow> db \<Rightarrow> effect list \<Rightarrow> db \<Rightarrow> bool" for svc sc where
  op_none: "session_op svc sc d [] d"
| op_start: "start_session g now nid did uid d = (res, d') \<Longrightarrow> session_op svc sc d [] d'"
| op_save: "save_response g now1 now2 rid sid uid iid dat d = (res, d') \<Longrightarrow> session_op svc sc d [] d'"
| op_submit: "submit_session svc g sc now sid uid d = (res, d', effs) \<Longrightarrow> session_op svc sc d effs d'"

inductive_cases session_opE: "session_op svc sc d effs d'"

text \<open>At most one operation on the sessions, between changes of other tables.\<close>

definition session_change :: "session_service \<Rightarrow> scorer \<Rightarrow> db \<Rightarrow> effect list \<Rightarrow> db \<Rightarrow> bool" where
  "session_change svc sc d effs d' \<longleftrightarrow> (\<exists>d1 d2. quiet d d1 \<and> session_op svc sc d1 effs d2 \<and> quiet d2 d')"

lemma quiet_change: "quiet d d' \<Longrightarrow> session_change svc sc d [] d'"
  unfolding session_change_def by (blast intro: op_none quiet_refl)

lemma op_change: "session_op svc sc d effs d' \<Longrightarrow> session_change svc sc d effs d'"
  unfolding session_change_def by (blast intro: quiet_refl)

lemma launch_change:
  assumes "handle_launch V L (\<lambda>_ d. d) tok st cache d = (r, cache', d')"
  shows "session_change svc sc d [] d'"
proof (cases "verify_launch V L tok st cache d")
  case (Pair v c1)
  show ?thesis
  proof (cases v)
    case (Inl e)
    then show ?thesis using assms Pair by (simp add: handle_launch_def quiet_change)
  next
    case (Inr vl)
    obtain ok d1 where claim: "claim_state (la_gorm L) 4 st (la_now L) d = (ok, d1)"
      by (cases "claim_state (la_gorm L) 4 st (la_now L) d")
    note q1 = quiet_claim_state [OF claim]
    show ?thesis
    proof (cases ok)
      case False
      then show ?thesis using assms Pair Inr claim q1 by (simp add: handle_launch_def quiet_change)
    next
      case True
      obtain rs d2 where start: "start_session (la_session_gorm L) (la_start_now L) (la_new_id L) (rl_delivery_id (vl_link vl))
           (lti_user_id V (p_issuer (vl_platform vl)) (lc_subject (vl_claims vl))) d1 = (rs, d2)"
        by (metis prod.exhaust)
      have "quiet d2 d'"
        using assms Pair Inr claim True start
        by (auto simp: handle_launch_def quiet_save_link split: sum.splits prod.splits option.splits dest: quiet_save_link)
      with q1 op_start [OF start] show ?thesis unfolding session_change_def by blast
    qed
  qed
qed

lemma endpoint_op_change:
  "endpoint_op R ep d effs d' \<Longrightarrow> session_change (he_service (re_handler R)) (he_scorer (re_handler R)) d effs d'"
  by (erule endpoint_opE) (auto dest: launch_change intro: op_change op_start op_save op_submit quiet_change quiet_intros)

lemmas serve_change = endpoint_op_change [OF serve_op]

lemma advance_launch_change:
  assumes "advance_launch P d = (out, d')"
  shows "session_change svc sc d [] d'"
  using assms
  by (auto simp: advance_launch_def Let_def split: launch_phase.splits prod.splits bool.splits sum.splits option.splits
      intro: quiet_change quiet_claim_state quiet_save_link op_change op_start)

lemma step_change: "server_step svc sc D w effs w' \<Longrightarrow> session_change svc sc (w_db w) effs (w_db w')"
  by (erule server_stepE) (auto dest: serve_change intro: quiet_change [OF quiet_worker] quiet_change advance_launch_change)

section \<open>Invariants of the running server\<close>

lemma session_op_step: "session_op svc sc d effs d' \<Longrightarrow> d' = d \<or> session_step svc sc d d'"
  by (erule session_opE) (auto intro: session_step.intros)

lemma session_op_inv [wf_intros]: "session_op svc sc d effs d' \<Longrightarrow> session_inv d \<Longrightarrow> session_inv d'"
  by (drule session_op_step) (auto intro: session_inv_step)

lemma session_change_inv: "session_change svc sc d effs d' \<Longrightarrow> session_inv d \<Longrightarrow> session_inv d'"
  by (auto simp: session_change_def quiet_session_inv dest: session_op_inv)

lemma session_change_live:
  assumes "session_change svc sc d effs d'" and "session_inv d" and "list_all live_or_done (test_sessions d)"
  shows "list_all live_or_done (test_sessions d')"
proof -
  from assms(1) obtain d1 d2 where q: "quiet d d1" "session_op svc sc d1 effs d2" "quiet d2 d'"
    by (auto simp: session_change_def)
  have "session_inv d1" "list_all live_or_done (test_sessions d1)"
    using assms(2,3) q(1) quiet_session_inv [OF q(1)] by (simp_all add: quiet_def)
  then have "list_all live_or_done (test_sessions d2)"
    using session_op_step [OF q(2)] live_or_done_step by blast
  with q(3) show ?thesis by (simp add: quiet_def)
qed

text \<open>Queue, limiter and key cache.\<close>

lemma dispatch_bounded: "length q \<le> event_chan_size \<Longrightarrow> length (dispatch n p q) \<le> event_chan_size"
  by (auto simp: dispatch_def chan_send_def split: if_splits)

lemma effects_bounded:
  "length (w_queue w) \<le> event_chan_size \<Longrightarrow> length (w_queue (fold apply_effect effs w)) \<le> event_chan_size"
proof (induction effs arbitrary: w)
  case (Cons e effs)
  have "length (w_queue (apply_effect e w)) \<le> event_chan_size"
    using Cons.prems by (cases e) (simp_all add: dispatch_bounded)
  then show ?case using Cons.IH by simp
qed simp

lemma effects_keep [simp]:
  "w_server (fold apply_effect effs w) = w_server w" "w_cache (fold apply_effect effs w) = w_cache w"
  "w_files (fold apply_effect effs w) = w_files w"
proof -
  have "w_server (apply_effect e v) = w_server v" "w_cache (apply_effect e v) = w_cache v"
    "w_files (apply_effect e v) = w_files v" for e v by (cases e; simp)+
  then show "w_server (fold apply_effect effs w) = w_server w" "w_cache (fold apply_effect effs w) = w_cache w"
    "w_files (fold apply_effect effs w) = w_files w"
    by (induction effs arbitrary: w) simp_all
qed

lemma verify_cache_strong:
  assumes "verify_launch V L tok st cache d = (v, cache')" and "cache_strong cache"
  shows "cache_strong cache'"
proof -
  have claims: "cache_strong c'" if "verified_claims V L tok p s cache = (cl, c')" for p s cl c'
    using that signing_key_keeps_strong [OF assms(2)] assms(2)
    by (auto simp: verified_claims_def split: option.splits prod.splits)
  show ?thesis
    using assms
    by (auto simp: verify_launch_def split: option.splits prod.splits if_splits dest: claims)
qed

lemma launch_cache_strong:
  assumes "handle_launch V L others tok st cache d = (r, cache', d')" and "cache_strong cache"
  shows "cache_strong cache'"
proof -
  have "\<exists>v. verify_launch V L tok st cache d = (v, cache')"
    using assms(1) by (auto simp: handle_launch_def split: prod.splits sum.splits bool.splits option.splits)
  then show ?thesis using verify_cache_strong assms(2) by blast
qed

definition world_inv :: "world \<Rightarrow> bool" where
  "world_inv w \<longleftrightarrow> session_inv (w_db w) \<and> list_all live_or_done (test_sessions (w_db w)) \<and> length (w_queue w) \<le> event_chan_size
     \<and> rl_inv (limiter (w_server w)) \<and> cache_strong (w_cache w)"

lemma answer_rest:
  assumes "answer ep R c w = (r, w', effs)" and "length (w_queue w) \<le> event_chan_size" and "cache_strong (w_cache w)"
  shows "length (w_queue w') \<le> event_chan_size \<and> cache_strong (w_cache w') \<and> w_server w' = w_server w"
proof (cases ep)
  case EpSubmitSession
  with assms show ?thesis by (auto simp: effects_bounded split: prod.splits)
next
  case EpLtiLaunch
  with assms show ?thesis
    by (auto simp: launch_handler_def split: prod.splits form_result.splits if_splits sum.splits
        dest: launch_cache_strong)
qed (use assms in \<open>auto simp: with_db_def reading_def split: prod.splits\<close>)

lemma rate_limit_keeps: "rate_limit pick now s c = (s', out) \<Longrightarrow> rl_inv (limiter s) \<Longrightarrow> rl_inv (limiter s')"
  using rl_inv_admit [of "limiter s" pick now "cx_client_ip c"]
  by (auto simp: rate_limit_def split: prod.splits if_splits)

text \<open>No other middleware touches the limiter.\<close>

lemma run_layer_keeps: "run_layer E l s c = (s', out) \<Longrightarrow> rl_inv (limiter s) \<Longrightarrow> rl_inv (limiter s')"
proof (cases l)
  case AuthLayer
  then show "run_layer E l s c = (s', out) \<Longrightarrow> rl_inv (limiter s) \<Longrightarrow> rl_inv (limiter s')"
    by (auto simp: jwt_auth_def Let_def split: if_splits option.splits list.splits)
next
  case (RoleLayer r)
  then show "run_layer E l s c = (s', out) \<Longrightarrow> rl_inv (limiter s) \<Longrightarrow> rl_inv (limiter s')"
    by (auto simp: require_role_def split: if_splits option.splits ctx_value.splits)
qed (auto dest: rate_limit_keeps)

lemma run_chain_keeps:
  assumes "\<And>m s c s' out. m \<in> set ms \<Longrightarrow> m s c = (s', out) \<Longrightarrow> rl_inv (limiter s) \<Longrightarrow> rl_inv (limiter s')"
  shows "run_chain ms s c = (s', out) \<Longrightarrow> rl_inv (limiter s) \<Longrightarrow> rl_inv (limiter s')"
  using assms
proof (induction ms arbitrary: s c)
  case (Cons m ms)
  obtain s1 o1 where m: "m s c = (s1, o1)" by (cases "m s c")
  have "m \<in> set (m # ms)" by simp
  from Cons.prems(3) [OF this m Cons.prems(2)] have s1: "rl_inv (limiter s1)" .
  show ?case
  proof (cases o1)
    case (Next c1)
    with m Cons.prems(1) have "run_chain ms s1 c1 = (s', out)" by simp
    then show ?thesis using s1 by (rule Cons.IH) (rule Cons.prems(3), erule list.set_intros(2), assumption, assumption)
  next
    case Abort
    with m Cons.prems(1) s1 show ?thesis by simp
  qed
qed simp

lemma global_layers_keep:
  "m \<in> set (global_layers E) \<Longrightarrow> m s c = (s', out) \<Longrightarrow> rl_inv (limiter s) \<Longrightarrow> rl_inv (limiter s')"
  by (auto simp: global_layers_def metrics_collector_def security_headers_def json_body_limit_def
      split: option.splits if_splits)

lemma serve_layers_keep: "serve_layers E rt s c = (s', out) \<Longrightarrow> rl_inv (limiter s) \<Longrightarrow> rl_inv (limiter s')"
  unfolding serve_layers_def
  by (erule run_chain_keeps [rotated]) (auto dest: global_layers_keep run_layer_keeps)

lemma world_inv_serve:
  assumes "serve R rt c w = (r, w', effs)" and inv: "world_inv w"
  shows "world_inv w'"
proof (cases "serve_layers (re_layers R) rt (w_server w) c")
  case (Pair srv out)
  have rl: "rl_inv (limiter srv)" using serve_layers_keep [OF Pair] inv by (simp add: world_inv_def)
  have db: "session_inv (w_db w')" "list_all live_or_done (test_sessions (w_db w'))"
    using session_change_inv [OF serve_change [OF assms(1)]] session_change_live [OF serve_change [OF assms(1)]] inv
    by (simp_all add: world_inv_def)
  show ?thesis
  proof (cases out)
    case (Abort c' st rep)
    with assms Pair rl show ?thesis by (auto simp: serve_def world_inv_def)
  next
    case (Next c')
    with assms(1) Pair have "answer (rt_endpoint rt) R c' (w\<lparr>w_server := srv\<rparr>) = (r, w', effs)"
      by (simp add: serve_def)
    from answer_rest [OF this] inv rl db show ?thesis by (simp add: world_inv_def)
  qed
qed

lemma world_inv_step [wf_intros]:
  assumes step: "server_step svc sc D w effs w'" and inv: "world_inv w"
  shows "world_inv w'"
proof -
  have db: "session_inv (w_db w')" "list_all live_or_done (test_sessions (w_db w'))"
    using session_change_inv [OF step_change [OF step]] session_change_live [OF step_change [OF step]] inv
    by (simp_all add: world_inv_def)
  from step show ?thesis
  proof cases
    case step_request
    with inv show ?thesis by (auto dest: world_inv_serve)
  next
    case (step_launch_begin rt R c srv c' form v cache')
    with inv db serve_layers_keep [OF step_launch_begin(5)] verify_cache_strong [OF step_launch_begin(9)]
    show ?thesis by (simp add: world_inv_def)
  qed (use db inv in \<open>auto simp: world_inv_def rl_inv_cleanup\<close>)
qed

lemma world_inv_run: "server_run svc sc D w0 tr w \<Longrightarrow> world_inv w0 \<Longrightarrow> world_inv w"
  by (induction rule: server_run.induct) (auto intro: world_inv_step)

section \<open>The sessions of the running server\<close>

definition fresh_world :: "world \<Rightarrow> bool" where
  "fresh_world w \<longleftrightarrow> no_sessions (w_db w) \<and> w_queue w = [] \<and> w_cache w = [] \<and> w_launches w = [] \<and> visitors (limiter (w_server w)) = []"

lemma world_inv_fresh: "fresh_world w \<Longrightarrow> world_inv w"
  by (simp add: fresh_world_def world_inv_def session_inv_initial cache_strong_empty rl_inv_def no_sessions_def)

text \<open>
  Claim C3: the invariant of the running server.  From a state without sessions, whatever requests arrive
  on whatever routes, in whatever order with the steps of launches, webhook workers, grade submissions and
  clean-ups, and however the database fails: session and response rows are unique, the attempts of a user at a delivery are
  numbered 1, 2, ..., at most one of them is open, each is either started, unfinished and without a score
  or completed with a finish time, no response lacks its session, at most 100 events
  wait for the workers, at most 10000 clients are tracked, and every cached key is a strong one.
\<close>
theorem server_invariant:
  assumes "fresh_world w0" and "server_run svc sc D w0 tr w"
  shows "unique_rows session_clash (test_sessions (w_db w)) \<and> unique_rows response_clash (item_responses (w_db w))
    \<and> map s_attempt (filter (of_user did uid) (test_sessions (w_db w))) = map int [1..<Suc (attempts_of did uid (w_db w))]
    \<and> count_where (open_of did uid) (test_sessions (w_db w)) \<le> 1 \<and> list_all live_or_done (test_sessions (w_db w))
    \<and> r_session_id ` set (item_responses (w_db w)) \<subseteq> s_id ` set (test_sessions (w_db w))
    \<and> length (w_queue w) \<le> 100 \<and> length (visitors (limiter (w_server w))) \<le> 10000 \<and> cache_strong (w_cache w)"
proof -
  have inv: "world_inv w" using world_inv_run [OF assms(2) world_inv_fresh [OF assms(1)]] .
  then have "session_inv (w_db w)" by (simp add: world_inv_def)
  from session_invD [OF this] inv show ?thesis
    by (auto simp: world_inv_def event_chan_size_def rl_inv_def max_tracked_clients_def)
qed

lemma attempts_change:
  assumes "session_change svc sc d effs d'" and inv: "session_inv d"
    and dl: "dl \<in> set (deliveries d)" "distinct (map d_id (deliveries d))"
    and le: "int (attempts_of (d_id dl) uid d) \<le> effective_max_attempts dl"
  shows "deliveries d' = deliveries d \<and> int (attempts_of (d_id dl) uid d') \<le> effective_max_attempts dl"
proof -
  from assms(1) obtain d1 d2 where q: "quiet d d1" "session_op svc sc d1 effs d2" "quiet d2 d'"
    by (auto simp: session_change_def)
  have same: "attempts_of did uid x = attempts_of did uid y" if "quiet y x" for x y did
    using that by (simp add: quiet_def attempts_of_def)
  have inv1: "session_inv d1" using inv quiet_session_inv [OF q(1)] by simp
  have le1: "int (attempts_of (d_id dl) uid d1) \<le> effective_max_attempts dl" using le same [OF q(1)] by simp
  have dl1: "dl \<in> set (deliveries d1)" "distinct (map d_id (deliveries d1))" using dl q(1) by (simp_all add: quiet_def)
  from session_op_step [OF q(2)] have "deliveries d2 = deliveries d1 \<and> int (attempts_of (d_id dl) uid d2) \<le> effective_max_attempts dl"
    using le1 session_step_deliveries [OF _ inv1] attempts_bounded_step [OF _ inv1 dl1 le1] by blast
  then show ?thesis using same [OF q(3)] q(1,3) by (simp add: quiet_def)
qed

text \<open>
  Claim C4: attempts on the whole server.  No user, of the API or of an LTI platform, ever has more
  sessions at a delivery than its \<open>MaxAttempts\<close> (or one, when that is not positive), whatever happens.
\<close>
theorem server_attempts_bounded:
  assumes "fresh_world w0" and "server_run svc sc D w0 tr w"
    and "dl \<in> set (deliveries (w_db w0))" and "distinct (map d_id (deliveries (w_db w0)))"
  shows "int (attempts_of (d_id dl) uid (w_db w)) \<le> effective_max_attempts dl"
proof -
  have "world_inv w \<and> deliveries (w_db w) = deliveries (w_db w0)
      \<and> int (attempts_of (d_id dl) uid (w_db w)) \<le> effective_max_attempts dl"
    using assms(2)
  proof (induction rule: server_run.induct)
    case run_init
    then show ?case using assms(1) world_inv_fresh [OF assms(1)]
      by (simp add: fresh_world_def no_sessions_def attempts_of_def effective_max_attempts_def)
  next
    case (run_step tr w effs w')
    then have "session_inv (w_db w)" by (simp add: world_inv_def)
    with run_step assms(3,4) attempts_change [OF step_change [OF run_step(2)], of dl uid]
    show ?case by (auto intro: world_inv_step)
  qed
  then show ?thesis by blast
qed

lemma frozen_change:
  assumes "session_change svc sc d effs d'" and "session_inv d"
    and "s \<in> set (test_sessions d)" "s_status s = Completed"
  shows "s \<in> set (test_sessions d') \<and> responses_of (s_id s) d' = responses_of (s_id s) d"
proof -
  from assms(1) obtain d1 d2 where q: "quiet d d1" "session_op svc sc d1 effs d2" "quiet d2 d'"
    by (auto simp: session_change_def)
  have "session_inv d1" using assms(2) quiet_session_inv [OF q(1)] by simp
  moreover have "s \<in> set (test_sessions d1)" using assms(3) q(1) by (simp add: quiet_def)
  ultimately have "s \<in> set (test_sessions d2) \<and> responses_of (s_id s) d2 = responses_of (s_id s) d1"
    using session_op_step [OF q(2)] completed_frozen_step [of svc sc d1 d2 s] assms(4) by blast
  then show ?thesis using q(1,3) by (simp add: quiet_def responses_of_def)
qed

text \<open>
  Claim C5: results are final.  Once a session is completed, nothing the server does later, on any route,
  in a worker or for a platform, changes its row, with its score and times, or its responses.
\<close>
theorem server_results_final:
  assumes "world_inv w" "s \<in> set (test_sessions (w_db w))" "s_status s = Completed"
    and "server_run svc sc D w tr w'"
  shows "s \<in> set (test_sessions (w_db w')) \<and> responses_of (s_id s) (w_db w') = responses_of (s_id s) (w_db w)"
proof -
  have "world_inv w' \<and> s \<in> set (test_sessions (w_db w')) \<and> responses_of (s_id s) (w_db w') = responses_of (s_id s) (w_db w)"
    using assms(4)
  proof (induction rule: server_run.induct)
    case run_init
    then show ?case using assms by simp
  next
    case (run_step tr v effs v')
    then have "session_inv (w_db v)" by (simp add: world_inv_def)
    with run_step frozen_change [OF step_change [OF run_step(2)], of s] assms(3)
    show ?case by (auto intro: world_inv_step)
  qed
  then show ?thesis by blast
qed

section \<open>A completion is sent once\<close>

text \<open>The sessions for which a trace of effects publishes an event, queues a webhook or submits a grade.\<close>

fun published_of :: "effect \<Rightarrow> string list" where
  "published_of (PublishEvent n p) = [s_id (fst p)]"
| "published_of _ = []"

fun announced_of :: "effect \<Rightarrow> string list" where
  "announced_of (DispatchWebhook n p) = [cp_session_id p]"
| "announced_of _ = []"

fun graded_of :: "effect \<Rightarrow> string list" where
  "graded_of (SpawnGradeSubmission s) = [s_id s]"
| "graded_of _ = []"

lemma op_effects:
  assumes "session_op svc sc d effs d'" and inv: "session_inv d"
  obtains (silent) "effs = []"
  | (completed) s res where "s \<in> set (test_sessions d)" "s_status s = InProgress" "s_id (fst res) = s_id s"
      "fst res \<in> set (test_sessions d')" "s_status (fst res) = Completed" "effs = completion_effects svc res"
  using assms(1)
proof cases
  case (op_submit g now sid uid r)
  show thesis
  proof (cases r)
    case (Inl e)
    with op_submit show thesis by (intro silent) (auto dest: submit_session_Inl)
  next
    case (Inr res)
    with op_submit obtain dc where tx: "submit_session_tx g sc now sid uid d = Inr ((res, dc), d')"
      and effs: "effs = (if dc then completion_effects svc res else [])"
      by (auto elim: submit_session_Inr)
    show thesis
    proof (cases dc)
      case True
      with tx have "submit_session_tx g sc now sid uid d = Inr ((res, True), d')" by simp
      from submit_finished [OF inv this] obtain s where s: "s \<in> set (test_sessions d)" "s_id s = sid"
          "s_status s = InProgress" "d' = completed_db g sc now s d"
          "fst res = finish_session g now (sum_points g sc (s_delivery_id s) d (Fin 0) (responses_of sid d)) s"
        by (metis fst_conv)
      have "fst res \<in> set (test_sessions d')"
        unfolding s(4,5) completed_db_def using s(1,2) by (auto simp: set_update_where)
      with s effs True show thesis by (intro completed [of s res]) simp_all
    qed (use effs silent in simp)
  qed
qed (rule silent)+

definition completed_ids :: "db \<Rightarrow> string set" where
  "completed_ids d = s_id ` {s \<in> set (test_sessions d). s_status s = Completed}"

lemma change_effects:
  assumes "session_change svc sc d effs d'" and inv: "session_inv d"
  shows "completed_ids d \<subseteq> completed_ids d' \<and>
    (effs = [] \<or> (\<exists>res. effs = completion_effects svc res \<and> s_id (fst res) \<notin> completed_ids d
       \<and> s_id (fst res) \<in> completed_ids d'))"
proof -
  have mono: "completed_ids d \<subseteq> completed_ids d'"
    using frozen_change [OF assms] by (auto simp: completed_ids_def)
  from assms(1) obtain d1 d2 where q: "quiet d d1" "session_op svc sc d1 effs d2" "quiet d2 d'"
    by (auto simp: session_change_def)
  have inv1: "session_inv d1" using inv quiet_session_inv [OF q(1)] by simp
  from q(2) inv1 show ?thesis
  proof (cases rule: op_effects)
    case silent
    with mono show ?thesis by simp
  next
    case (completed s res)
    have "s_id (fst res) \<notin> completed_ids d"
    proof
      assume "s_id (fst res) \<in> completed_ids d"
      then obtain t where t: "t \<in> set (test_sessions d1)" "s_status t = Completed" "s_id t = s_id s"
        using completed(3) q(1) by (auto simp: completed_ids_def quiet_def)
      then have "t = s"
        using sessions.rows_determined [OF session_invD(1) [OF inv1] t(1) completed(1)] by (simp add: clash_on_def)
      with t completed(2) show False by simp
    qed
    moreover have "s_id (fst res) \<in> completed_ids d'"
      using completed(4,5) q(3) by (auto simp: completed_ids_def quiet_def)
    ultimately show ?thesis using mono completed(6) by blast
  qed
qed

definition once :: "(effect \<Rightarrow> string list) \<Rightarrow> effect list \<Rightarrow> db \<Rightarrow> bool" where
  "once f tr d \<longleftrightarrow> distinct (concat (map f tr)) \<and> set (concat (map f tr)) \<subseteq> completed_ids d"

lemma once_step:
  assumes "once f tr d" and "completed_ids d \<subseteq> completed_ids d'"
    and "concat (map f effs) = [] \<or> (\<exists>i. concat (map f effs) = [i] \<and> i \<notin> completed_ids d \<and> i \<in> completed_ids d')"
  shows "once f (tr @ effs) d'"
proof -
  have c: "concat (map f (tr @ effs)) = concat (map f tr) @ concat (map f effs)" by simp
  from assms(3) show ?thesis
  proof
    assume e: "concat (map f effs) = []"
    show ?thesis using assms(1,2) unfolding once_def c e by auto
  next
    assume "\<exists>i. concat (map f effs) = [i] \<and> i \<notin> completed_ids d \<and> i \<in> completed_ids d'"
    then obtain i where i: "concat (map f effs) = [i]" "i \<notin> completed_ids d" "i \<in> completed_ids d'" by blast
    then show ?thesis using assms(1,2) unfolding once_def c i(1) by auto
  qed
qed

lemma completion_effects_of:
  "concat (map published_of (completion_effects svc res)) \<in> {[], [s_id (fst res)]}"
  "concat (map announced_of (completion_effects svc res)) \<in> {[], [s_id (fst res)]}"
  "concat (map graded_of (completion_effects svc res)) \<in> {[], [s_id (fst res)]}"
  by (simp_all add: completion_effects_def payload_of_def)

lemma run_once:
  assumes "server_run svc sc D w0 tr w" and "world_inv w0"
  shows "once published_of tr (w_db w) \<and> once announced_of tr (w_db w) \<and> once graded_of tr (w_db w)"
  using assms(1)
proof (induction rule: server_run.induct)
  case run_init
  show ?case by (simp add: once_def)
next
  case (run_step tr w effs w')
  have "session_inv (w_db w)" using world_inv_run [OF run_step(1) assms(2)] by (simp add: world_inv_def)
  from change_effects [OF step_change [OF run_step(2)] this]
  have mono: "completed_ids (w_db w) \<subseteq> completed_ids (w_db w')"
    and effs: "effs = [] \<or> (\<exists>res. effs = completion_effects svc res \<and> s_id (fst res) \<notin> completed_ids (w_db w)
       \<and> s_id (fst res) \<in> completed_ids (w_db w'))"
    by blast+
  have "once f (tr @ effs) (w_db w')"
    if "once f tr (w_db w)" "\<And>res. concat (map f (completion_effects svc res)) \<in> {[], [s_id (fst res)]}" for f
  proof (rule once_step [OF that(1) mono])
    from effs show "concat (map f effs) = [] \<or> (\<exists>i. concat (map f effs) = [i] \<and> i \<notin> completed_ids (w_db w)
        \<and> i \<in> completed_ids (w_db w'))"
    proof
      assume "\<exists>res. effs = completion_effects svc res \<and> s_id (fst res) \<notin> completed_ids (w_db w)
        \<and> s_id (fst res) \<in> completed_ids (w_db w')"
      then obtain res where res: "effs = completion_effects svc res" "s_id (fst res) \<notin> completed_ids (w_db w)"
          "s_id (fst res) \<in> completed_ids (w_db w')" by blast
      show ?thesis using that(2) [of res] res(2,3) unfolding res(1) [symmetric] by blast
    qed simp
  qed
  with run_step(3) completion_effects_of show ?case by blast
qed

text \<open>
  Claim C6: completions are sent once.  In any run of the server, over all interleavings of requests,
  repeated submissions included, every session gives rise to at most one published event, one webhook
  dispatch and one grade submission, and only when it has been completed.
\<close>
theorem completions_sent_once:
  assumes "world_inv w0" and "server_run svc sc D w0 tr w"
  shows "distinct (concat (map published_of tr)) \<and> distinct (concat (map announced_of tr)) \<and> distinct (concat (map graded_of tr))
    \<and> set (concat (map published_of tr)) \<union> set (concat (map announced_of tr)) \<union> set (concat (map graded_of tr))
        \<subseteq> s_id ` {s \<in> set (test_sessions (w_db w)). s_status s = Completed}"
  using run_once [OF assms(2,1)] by (simp add: once_def completed_ids_def)

section \<open>Users are isolated from each other\<close>

lemma quiet_keeps: "quiet d d' \<Longrightarrow> s \<in> set (test_sessions d) \<Longrightarrow> keeps_session s d d'"
  by (simp add: quiet_def keeps_session_def responses_of_def)

lemma keeps_quiet: "keeps_session s d d1 \<Longrightarrow> quiet d1 d' \<Longrightarrow> keeps_session s d d'"
  by (simp add: quiet_def keeps_session_def responses_of_def)

lemma launch_keeps_others:
  assumes run: "handle_launch V L (\<lambda>_ d. d) tok st cache d = (r, cache', d')"
    and inv: "session_inv d" and s: "s \<in> set (test_sessions d)" and other: "\<And>i sub. s_user_id s \<noteq> lti_user_id V i sub"
  shows "keeps_session s d d'"
proof (cases "verify_launch V L tok st cache d")
  case (Pair v c1)
  show ?thesis
  proof (cases v)
    case (Inl e)
    then show ?thesis using run Pair s by (simp add: handle_launch_def quiet_keeps)
  next
    case (Inr vl)
    obtain ok d1 where claim: "claim_state (la_gorm L) 4 st (la_now L) d = (ok, d1)"
      by (cases "claim_state (la_gorm L) 4 st (la_now L) d")
    note q1 = quiet_claim_state [OF claim]
    show ?thesis
    proof (cases ok)
      case False
      then show ?thesis using run Pair Inr claim q1 s by (simp add: handle_launch_def quiet_keeps)
    next
      case True
      obtain rs d2 where start: "start_session (la_session_gorm L) (la_start_now L) (la_new_id L) (rl_delivery_id (vl_link vl))
           (lti_user_id V (p_issuer (vl_platform vl)) (lc_subject (vl_claims vl))) d1 = (rs, d2)"
        by (metis prod.exhaust)
      have "session_inv d1" "s \<in> set (test_sessions d1)"
        using inv s q1 quiet_session_inv [OF q1] by (simp_all add: quiet_def)
      from start_keeps_others [OF this _ start] have "keeps_session s d1 d2" using other by simp
      moreover have "quiet d2 d'"
        using run Pair Inr claim True start
        by (auto simp: handle_launch_def split: sum.splits prod.splits option.splits dest: quiet_save_link)
      ultimately show ?thesis using q1 by (simp add: keeps_session_def quiet_def responses_of_def)
    qed
  qed
qed

lemma endpoint_op_quiet:
  "endpoint_op R ep d effs d' \<Longrightarrow> ep \<notin> {EpStartSession, EpSaveResponse, EpSubmitSession, EpLtiLaunch} \<Longrightarrow> quiet d d'"
  by (erule endpoint_opE) (auto intro: quiet_intros)

lemma user_handlers_keep_others:
  assumes inv: "session_inv d" and s: "s \<in> set (test_sessions d)"
    and uid: "ctx_get c ''user_id'' = Some (CtxString uid)" "s_user_id s \<noteq> uid" "s_user_id s \<noteq> trim_space uid"
  shows "start_session_handler H c d = (r, d') \<Longrightarrow> keeps_session s d d'"
    and "save_response_handler H c d = (r, d') \<Longrightarrow> keeps_session s d d'"
    and "submit_session_handler H c d = (r, d', effs) \<Longrightarrow> keeps_session s d d'"
proof -
  have self: "keeps_session s d d" using s by (simp add: keeps_session_def)
  have user: "authenticated_user_id c = (if trim_space uid = [] then None else Some uid)"
    by (simp add: authenticated_user_id_def uid)
  show "start_session_handler H c d = (r, d') \<Longrightarrow> keeps_session s d d'"
    using self by (auto simp: start_session_handler_def user split: if_splits option.splits prod.splits sum.splits
        dest: start_keeps_others [OF inv s uid(3)])
  show "save_response_handler H c d = (r, d') \<Longrightarrow> keeps_session s d d'"
    using self by (auto simp: save_response_handler_def user split: if_splits option.splits prod.splits sum.splits
        dest: save_keeps_others [OF inv s uid(2)])
  show "submit_session_handler H c d = (r, d', effs) \<Longrightarrow> keeps_session s d d'"
    using self by (auto simp: submit_session_handler_def user split: if_splits option.splits prod.splits sum.splits
        dest: submit_keeps_others [OF inv s uid(2)])
qed

lemma answer_keeps_others:
  assumes run: "answer ep R c w = (r, w', effs)" and inv: "session_inv (w_db w)" and s: "s \<in> set (test_sessions (w_db w))"
    and user: "ep \<in> {EpStartSession, EpSaveResponse, EpSubmitSession} \<Longrightarrow>
      \<exists>uid. ctx_get c ''user_id'' = Some (CtxString uid) \<and> s_user_id s \<noteq> uid \<and> s_user_id s \<noteq> trim_space uid"
    and lti: "\<And>i sub. ep = EpLtiLaunch \<Longrightarrow> s_user_id s \<noteq> lti_user_id (lh_env (re_lti R)) i sub"
  shows "keeps_session s (w_db w) (w_db w')"
proof -
  have self: "keeps_session s (w_db w) (w_db w)" using s by (simp add: keeps_session_def)
  show ?thesis
  proof (cases "ep \<in> {EpStartSession, EpSaveResponse, EpSubmitSession}")
    case True
    with user obtain uid where uid: "ctx_get c ''user_id'' = Some (CtxString uid)" "s_user_id s \<noteq> uid"
        "s_user_id s \<noteq> trim_space uid" by blast
    note kept = user_handlers_keep_others [OF inv s uid]
    from True consider (start) "ep = EpStartSession" | (save) "ep = EpSaveResponse" | (submit) "ep = EpSubmitSession"
      by blast
    then show ?thesis
    proof cases
      case start
      obtain r' d' where h: "start_session_handler (re_handler R) c (w_db w) = (r', d')" by (metis prod.exhaust)
      with run start have "w_db w' = d'" by (auto simp: with_db_def)
      with kept(1) [OF h] show ?thesis by simp
    next
      case save
      obtain r' d' where h: "save_response_handler (re_handler R) c (w_db w) = (r', d')" by (metis prod.exhaust)
      with run save have "w_db w' = d'" by (auto simp: with_db_def)
      with kept(2) [OF h] show ?thesis by simp
    next
      case submit
      obtain r' d' effs' where h: "submit_session_handler (re_handler R) c (w_db w) = (r', d', effs')" by (metis prod.exhaust)
      with run submit have "w_db w' = d'" by auto
      with kept(3) [OF h] show ?thesis by simp
    qed
  next
    case False
    show ?thesis
    proof (cases "ep = EpLtiLaunch")
      case launch: True
      with run self show ?thesis
        by (auto simp: launch_handler_def split: prod.splits form_result.splits if_splits sum.splits
            dest: launch_keeps_others [OF _ inv s lti [OF launch]])
    next
      case False
      with \<open>ep \<notin> {EpStartSession, EpSaveResponse, EpSubmitSession}\<close> endpoint_op_quiet [OF answer_op [OF run]] s
      show ?thesis by (simp add: quiet_keeps)
    qed
  qed
qed

text \<open>
  Claim C7: users are isolated.  Whatever request arrives on whatever registered route, with whatever
  body, parameters, clocks, network answers and database failures: a session whose owner is not the
  token's user (as written in the token, or with the surrounding white space removed), nor, on the launch
  route, a user derived from a platform, keeps its row and its responses.
\<close>
theorem requests_keep_other_users:
  assumes "rt \<in> set all_routes" and "serve R rt c w = (r, w', effs)"
    and "session_inv (w_db w)" and "s \<in> set (test_sessions (w_db w))"
    and "\<forall>cl. authenticates (le_jwt (re_layers R)) (le_config (re_layers R)) (le_now (re_layers R)) c cl \<longrightarrow>
      s_user_id s \<noteq> cl_user_id cl \<and> s_user_id s \<noteq> trim_space (cl_user_id cl)"
    and "rt_endpoint rt = EpLtiLaunch \<longrightarrow> (\<forall>i sub. s_user_id s \<noteq> lti_user_id (lh_env (re_lti R)) i sub)"
  shows "s \<in> set (test_sessions (w_db w')) \<and> responses_of (s_id s) (w_db w') = responses_of (s_id s) (w_db w)"
proof (cases "serve_layers (re_layers R) rt (w_server w) c")
  case (Pair srv out)
  show ?thesis
  proof (cases out)
    case (Abort c' st rep)
    with assms(2,4) Pair show ?thesis by (auto simp: serve_def)
  next
    case (Next c')
    with Pair have n: "serve_layers (re_layers R) rt (w_server w) c = (srv, Next c')" by simp
    have "\<exists>uid. ctx_get c' ''user_id'' = Some (CtxString uid) \<and> s_user_id s \<noteq> uid \<and> s_user_id s \<noteq> trim_space uid"
      if "rt_endpoint rt \<in> {EpStartSession, EpSaveResponse, EpSubmitSession}"
    proof -
      have "\<not> public_endpoint (rt_endpoint rt)" using that by (auto simp: public_endpoint_def)
      from routes_protected_user [OF assms(1) this n] assms(5) show ?thesis by blast
    qed
    moreover have "answer (rt_endpoint rt) R c' (w\<lparr>w_server := srv\<rparr>) = (r, w', effs)"
      using assms(2) n by (simp add: serve_def)
    ultimately have "keeps_session s (w_db w) (w_db w')"
      using answer_keeps_others [of "rt_endpoint rt" R c' "w\<lparr>w_server := srv\<rparr>" r w' effs s] assms(3,4,6) by simp
    then show ?thesis by (simp add: keeps_session_def)
  qed
qed

section \<open>A safe start\<close>

lemma webhook_policy_hosts: "new_webhook_policy U hosts = Some pol \<Longrightarrow> allowed_hosts pol \<noteq> []"
  by (auto simp: new_webhook_policy_def new_outbound_policy_def Let_def split: if_splits)

lemma worker_pool_within: "1 \<le> worker_pool_size n \<and> worker_pool_size n \<le> 100"
  by (simp add: worker_pool_size_def)

lemma start_services_cases:
  assumes "start_services E cfg ci pool d = (d', r)"
  shows "(sv_seed_demo cfg \<or> d' = d) \<and> test_sessions d' = test_sessions d \<and> item_responses d' = item_responses d \<and>
    (\<forall>st. r = Inr st \<longrightarrow> st_cipher st = ci \<and> st_pool st = pool \<and> allowed_hosts (st_hook_policy st) \<noteq> []
       \<and> 1 \<le> st_workers st \<and> st_workers st \<le> 100)"
proof -
  obtain tid secid ti1 ti2 where ids: "se_ids E = (tid, secid, ti1, ti2)" by (metis prod_cases4)
  define d1 where "d1 = (if sv_seed_demo cfg then seed_demo_data (se_gorm E) tid secid ti1 ti2 d else d)"
  have d1: "sv_seed_demo cfg \<or> d1 = d" "test_sessions d1 = test_sessions d" "item_responses d1 = item_responses d"
    by (simp_all add: d1_def seed_demo_data_def)
  show ?thesis
  proof (cases "new_webhook_policy (se_unicode E) (comma_fields (sv_webhook_hosts cfg))")
    case None
    with assms ids have "d' = d1" "r = Inl StartWebhook" by (simp_all add: start_services_def d1_def)
    with d1 show ?thesis by simp
  next
    case (Some pol)
    have pol: "allowed_hosts pol \<noteq> []" by (rule webhook_policy_hosts [OF Some])
    show ?thesis
    proof (cases "se_proxies_ok E (comma_fields (sv_trusted_proxies cfg))")
      case False
      with assms ids Some have "d' = d1" "r = Inl StartProxies" by (simp_all add: start_services_def d1_def)
      with d1 show ?thesis by simp
    next
      case True
      with assms ids Some have "d' = d1"
          "r = Inr \<lparr>st_cipher = ci, st_pool = pool, st_hook_policy = pol,
              st_workers = worker_pool_size (sv_webhook_workers cfg)\<rparr>"
        by (simp_all add: start_services_def d1_def)
      with d1 pol worker_pool_within [of "sv_webhook_workers cfg"] show ?thesis by simp
    qed
  qed
qed

text \<open>The checks before the migration, then the migration and what follows it.\<close>

lemma start_server_checked:
  assumes "start_server E cfg sd = (sd', r)"
  obtains (refused) "sd' = sd" "\<not> is_ok r"
  | (checked) ci pool where "validate_jwt_config (sv_jwt cfg)"
      "new_secret_cipher (se_gcm E) (sv_encryption_key cfg) = Inr ci"
      "validate_transport_security (se_unicode E) (sv_mode cfg) (sv_driver cfg) (sv_dsn cfg) (sv_allow_insecure cfg)"
      "pool_limits (se_unicode E) cfg = Some pool"
      "(case migrate (se_migrator E) (Some (fst sd)) of
          (None, _) \<Rightarrow> (sd, Inl StartConnect)
        | (Some sch, Some e) \<Rightarrow> ((sch, snd sd), Inl (StartMigration e))
        | (Some sch, None) \<Rightarrow> (case start_services E cfg ci pool (snd sd) of (d', r) \<Rightarrow> ((sch, d'), r))) = (sd', r)"
proof (cases "validate_jwt_config (sv_jwt cfg) \<and> is_ok (new_secret_cipher (se_gcm E) (sv_encryption_key cfg))
    \<and> validate_transport_security (se_unicode E) (sv_mode cfg) (sv_driver cfg) (sv_dsn cfg) (sv_allow_insecure cfg)
    \<and> open_driver (se_unicode E) (sv_driver cfg) \<noteq> None \<and> se_connects E \<and> se_ping E
    \<and> pool_limits (se_unicode E) cfg \<noteq> None")
  case False
  with assms have "sd' = sd \<and> \<not> is_ok r"
    by (cases "new_secret_cipher (se_gcm E) (sv_encryption_key cfg)"; cases "pool_limits (se_unicode E) cfg")
      (auto simp: start_server_def split: if_splits)
  then show thesis by (intro refused) simp_all
next
  case True
  then obtain ci pool where "new_secret_cipher (se_gcm E) (sv_encryption_key cfg) = Inr ci"
    "pool_limits (se_unicode E) cfg = Some pool"
    by (cases "new_secret_cipher (se_gcm E) (sv_encryption_key cfg)") auto
  with True assms show thesis by (intro checked [of ci pool]) (auto simp: start_server_def)
qed

lemma start_server_cases:
  assumes "start_server E cfg sd = (sd', r)"
  obtains (refused) "sd' = sd" "\<not> is_ok r"
  | (unmigrated) sch e where "sd' = (sch, snd sd)" "r = Inl (StartMigration e)"
  | (migrated) ci pool sch d' where "validate_jwt_config (sv_jwt cfg)"
      "new_secret_cipher (se_gcm E) (sv_encryption_key cfg) = Inr ci"
      "validate_transport_security (se_unicode E) (sv_mode cfg) (sv_driver cfg) (sv_dsn cfg) (sv_allow_insecure cfg)"
      "pool_limits (se_unicode E) cfg = Some pool" "migrate (se_migrator E) (Some (fst sd)) = (Some sch, None)"
      "start_services E cfg ci pool (snd sd) = (d', r)" "sd' = (sch, d')"
  using assms
proof (cases rule: start_server_checked)
  case refused
  then show thesis by (rule that(1))
next
  case (checked ci pool)
  obtain sch e where m: "migrate (se_migrator E) (Some (fst sd)) = (sch, e)" by (metis prod.exhaust)
  obtain d' r' where services: "start_services E cfg ci pool (snd sd) = (d', r')" by (metis prod.exhaust)
  note run = checked(5) [unfolded m services prod.case]
  show thesis
  proof (cases sch)
    case None
    with run show thesis by (intro refused) auto
  next
    case sch: (Some sch')
    show thesis
    proof (cases e)
      case None
      with run sch have "r' = r" "sd' = (sch', d')" by simp_all
      with services m sch None checked(1-4) show thesis by (intro migrated [of ci pool sch' d']) simp_all
    next
      case (Some e')
      with run sch have "sd' = (sch', snd sd)" "r = Inl (StartMigration e')" by simp_all
      then show thesis by (rule unmigrated)
    qed
  qed
qed

lemma drivers: "open_driver U d = Some Postgres \<Longrightarrow> \<not> is_sqlite_driver U d" "open_driver U d = Some Sqlite \<Longrightarrow> is_sqlite_driver U d"
  by (auto simp: open_driver_def is_sqlite_driver_def split: if_splits)

lemma pool_limits_Some:
  "pool_limits U cfg = Some pool \<Longrightarrow> 1 \<le> fst pool \<and> 0 \<le> snd pool \<and> snd pool \<le> fst pool
     \<and> (is_sqlite_driver U (sv_driver cfg) \<longrightarrow> pool = (1, 1))"
  by (auto simp: pool_limits_def split: if_splits)

lemma new_secret_cipher_Inr:
  "new_secret_cipher gcm k = Inr a \<Longrightarrow> \<exists>key. std_decode (trim_space k) = Some key \<and> length key = 32 \<and> gcm key = Some a"
  by (auto simp: new_secret_cipher_def split: option.splits if_splits)

text \<open>
  Claim C39: a safe start.  The server runs only with a valid token configuration, a 32-byte encryption
  key, a schema that has all tables and unique indexes, a sound connection pool (one connection for
  SQLite), at least one allowed webhook host and 1 to 100 workers; and in release mode, unless excepted,
  not with a PostgreSQL DSN that contains \<open>sslmode=disable\<close> (other modes that do not insist on
  encryption, such as \<open>allow\<close> and \<open>prefer\<close>, are let through).  Sessions and responses are those found in
  the database, and when any check before the migration fails nothing has been changed.
\<close>
theorem safe_start:
  assumes "start_server E cfg sd = (sd', r)"
  shows "test_sessions (snd sd') = test_sessions (snd sd) \<and> item_responses (snd sd') = item_responses (snd sd)
    \<and> (case r of
         Inl e \<Rightarrow> e \<in> {StartJwt, StartTransport, StartConnect, StartPool, StartPing} \<union> range StartCipher \<longrightarrow> sd' = sd
       | Inr st \<Rightarrow>
           validate_jwt_config (sv_jwt cfg)
           \<and> (\<exists>key. std_decode (trim_space (sv_encryption_key cfg)) = Some key \<and> length key = 32
                \<and> se_gcm E key = Some (st_cipher st))
           \<and> schema_complete (fst sd')
           \<and> (equal_fold (se_unicode E) (trim_space (sv_mode cfg)) ''release'' \<and> open_driver (se_unicode E) (sv_driver cfg) = Some Postgres
                \<and> \<not> sv_allow_insecure cfg \<longrightarrow> \<not> string_contains (to_lower (se_unicode E) (sv_dsn cfg)) ''sslmode=disable'')
           \<and> 1 \<le> fst (st_pool st) \<and> 0 \<le> snd (st_pool st) \<and> snd (st_pool st) \<le> fst (st_pool st)
           \<and> (open_driver (se_unicode E) (sv_driver cfg) = Some Sqlite \<longrightarrow> st_pool st = (1, 1))
           \<and> allowed_hosts (st_hook_policy st) \<noteq> [] \<and> 1 \<le> st_workers st \<and> st_workers st \<le> 100
           \<and> (\<not> sv_seed_demo cfg \<longrightarrow> snd sd' = snd sd))"
  using assms
proof (cases rule: start_server_cases)
  case refused
  then show ?thesis by (cases r) simp_all
next
  case (unmigrated sch e)
  then show ?thesis by auto
next
  case (migrated ci pool sch d')
  note services = start_services_cases [OF migrated(6)]
  show ?thesis
  proof (cases r)
    case (Inl e)
    then have "e \<in> {StartWebhook, StartProxies}"
      using migrated(6) by (auto simp: start_services_def Let_def split: prod.splits option.splits if_splits)
    with services migrated(7) Inl show ?thesis by auto
  next
    case (Inr st)
    with services have st: "st_cipher st = ci" "st_pool st = pool" "allowed_hosts (st_hook_policy st) \<noteq> []"
        "1 \<le> st_workers st" "st_workers st \<le> 100" by simp_all
    have "schema_complete sch" using migrate_ok [OF migrated(5)] .
    moreover have "\<not> string_contains (to_lower (se_unicode E) (sv_dsn cfg)) ''sslmode=disable''"
      if "equal_fold (se_unicode E) (trim_space (sv_mode cfg)) ''release''"
        "open_driver (se_unicode E) (sv_driver cfg) = Some Postgres" "\<not> sv_allow_insecure cfg"
      using migrated(3) that drivers(1) [OF that(2)] by (simp add: validate_transport_security_def)
    ultimately show ?thesis
      using services st migrated(1,7) Inr new_secret_cipher_Inr [OF migrated(2)] pool_limits_Some [OF migrated(4)]
        drivers(2) [of "se_unicode E" "sv_driver cfg"] by auto
  qed
qed

end
