(* ===== verification/SessionMachine.thy ===== *)
theory SessionMachine
  imports ServerProps
begin

text \<open>
  What the server promises about sessions, as an abstract machine: a partial map from session identifiers
  to who takes which attempt where, and a phase, running with the answers given so far or finished with a
  score.  The server refines it: each of its steps is, on the abstraction of the database, a step of the
  machine.
\<close>

section \<open>The machine\<close>

datatype phase = Running "string \<rightharpoonup> string" | Finished f64 "string \<rightharpoonup> string"

record attempt_view =
  av_user :: string
  av_delivery :: string
  av_number :: int
  av_phase :: phase

type_synonym session_machine = "string \<rightharpoonup> attempt_view"

inductive machine_step :: "session_machine \<Rightarrow> session_machine \<Rightarrow> bool" where
  machine_stay: "machine_step m m"
| machine_open:
    "m sid = None \<Longrightarrow>
       machine_step m (m(sid \<mapsto> \<lparr>av_user = u, av_delivery = did, av_number = n, av_phase = Running Map.empty\<rparr>))"
| machine_answer:
    "m sid = Some v \<Longrightarrow> av_phase v = Running a \<Longrightarrow> machine_step m (m(sid \<mapsto> v\<lparr>av_phase := Running (a(iid \<mapsto> dat))\<rparr>))"
| machine_finish:
    "m sid = Some v \<Longrightarrow> av_phase v = Running a \<Longrightarrow> machine_step m (m(sid \<mapsto> v\<lparr>av_phase := Finished score a\<rparr>))"

section \<open>The abstraction\<close>

definition answers_of :: "item_response list \<Rightarrow> string \<Rightarrow> string \<rightharpoonup> string" where
  "answers_of rs sid iid = map_option r_response_data (find (answers sid iid) rs)"

definition view_session :: "item_response list \<Rightarrow> test_session \<Rightarrow> attempt_view" where
  "view_session rs s =
     \<lparr>av_user = s_user_id s, av_delivery = s_delivery_id s, av_number = s_attempt s,
      av_phase = (if s_status s = Completed then Finished (s_total_score s) (answers_of rs (s_id s))
                  else Running (answers_of rs (s_id s)))\<rparr>"

definition view_db :: "db \<Rightarrow> session_machine" where
  "view_db d sid = map_option (view_session (item_responses d)) (find (\<lambda>s. s_id s = sid) (test_sessions d))"

lemma view_quiet: "quiet d d' \<Longrightarrow> view_db d' = view_db d"
  by (simp add: quiet_def view_db_def fun_eq_iff)

lemma find_session_id:
  "session_inv d \<Longrightarrow> s \<in> set (test_sessions d) \<Longrightarrow> find (\<lambda>x. s_id x = s_id s) (test_sessions d) = Some s"
  by (rule sessions.rows_first(2) [OF session_invD(1)]) (auto simp: clash_on_def)

lemma view_of: "session_inv d \<Longrightarrow> s \<in> set (test_sessions d) \<Longrightarrow> view_db d (s_id s) = Some (view_session (item_responses d) s)"
  by (simp add: view_db_def find_session_id)

lemma answers_of_append:
  "answers_of (rs @ [r]) sid iid =
     (case answers_of rs sid iid of None \<Rightarrow> if answers sid iid r then Some (r_response_data r) else None | Some x \<Rightarrow> Some x)"
  by (auto simp: answers_of_def find_append split: option.splits)

section \<open>Each operation is a step\<close>

lemma open_step:
  assumes inv: "session_inv d" and inv': "session_inv d'" and d': "d' = d\<lparr>test_sessions := test_sessions d @ [s]\<rparr>"
    and s: "s_status s \<noteq> Completed"
  shows "machine_step (view_db d) (view_db d')"
proof -
  have "unique_rows session_clash (test_sessions d @ [s])" using session_invD(1) [OF inv'] d' by simp
  then have fresh: "\<forall>x \<in> set (test_sessions d). s_id x \<noteq> s_id s"
    by (auto simp: unique_rows_def sorted_wrt_append clash_on_def)
  then have none: "find (\<lambda>x. s_id x = s_id s) (test_sessions d) = None" by (simp add: find_None_iff)
  have "\<forall>r \<in> set (item_responses d). r_session_id r \<noteq> s_id s"
    using session_invD(5) [OF inv] fresh by fastforce
  then have "answers_of (item_responses d) (s_id s) = Map.empty"
    by (auto simp: answers_of_def fun_eq_iff find_None_iff answers_def)
  then have "view_db d' = (view_db d)(s_id s \<mapsto> \<lparr>av_user = s_user_id s, av_delivery = s_delivery_id s,
      av_number = s_attempt s, av_phase = Running Map.empty\<rparr>)"
    using none s by (auto simp: d' view_db_def fun_eq_iff find_append view_session_def split: option.splits)
  moreover have "view_db d (s_id s) = None" using none by (simp add: view_db_def)
  ultimately show ?thesis by (simp add: machine_open)
qed

lemma answers_of_upsert:
  assumes "upsert_response r rows = Some rows'"
  shows "answers_of rows' sid = (if sid = r_session_id r then (answers_of rows sid)(r_item_id r \<mapsto> r_response_data r)
    else answers_of rows sid)"
  using assms
proof (cases rule: upsert_response_cases)
  case overwrite
  have keeps: "answers sid iid (overwrite_response r x) = answers sid iid x" for sid iid x
    by (simp add: answers_def overwrite_response_def)
  have dat: "r_response_data (overwrite_response r x) = r_response_data r" for x
    by (simp add: overwrite_response_def)
  have "answers_of rows' sid iid = (if sid = r_session_id r \<and> iid = r_item_id r then Some (r_response_data r)
      else answers_of rows sid iid)" for iid
  proof -
    have f: "find (answers sid iid) rows' = map_option
        (\<lambda>x. if answers (r_session_id r) (r_item_id r) x then overwrite_response r x else x) (find (answers sid iid) rows)"
      unfolding overwrite(2) by (rule find_update_where_same) (simp add: keeps)
    show ?thesis
    proof (cases "find (answers sid iid) rows")
      case None
      then have "\<not> (sid = r_session_id r \<and> iid = r_item_id r)" using overwrite(1) by (auto simp: find_None_iff)
      then show ?thesis using None f by (simp add: answers_of_def)
    next
      case (Some x)
      then have "answers sid iid x" using find_SomeD [of "answers sid iid"] by blast
      then show ?thesis using Some f by (auto simp: answers_of_def dat answers_def)
    qed
  qed
  then show ?thesis by (auto simp: fun_eq_iff)
next
  case insert
  have "answers_of rows (r_session_id r) (r_item_id r) = None"
    using insert(1) by (auto simp: answers_of_def find_None_iff)
  then show ?thesis
    by (auto simp: insert(3) fun_eq_iff answers_of_append answers_def split: option.splits)
qed

lemma answer_step:
  assumes inv: "session_inv d" and s: "s \<in> set (test_sessions d)" "s_status s = InProgress"
    and up: "upsert_response r (item_responses d) = Some rows" "r_session_id r = s_id s"
    and d': "d' = d\<lparr>item_responses := rows\<rparr>"
  shows "machine_step (view_db d) (view_db d')"
proof -
  let ?v = "view_session (item_responses d) s"
  have v: "view_db d (s_id s) = Some ?v" by (rule view_of [OF inv s(1)])
  have phase: "av_phase ?v = Running (answers_of (item_responses d) (s_id s))" using s(2) by (simp add: view_session_def)
  have other: "view_session rows x = view_session (item_responses d) x" if "s_id x \<noteq> s_id s" for x
    using that answers_of_upsert [OF up(1), of "s_id x"] up(2) by (simp add: view_session_def)
  have "view_db d' sid = ((view_db d)(s_id s \<mapsto> ?v\<lparr>av_phase := Running ((answers_of (item_responses d) (s_id s))(r_item_id r \<mapsto> r_response_data r))\<rparr>)) sid"
    for sid
  proof (cases "sid = s_id s")
    case True
    then show ?thesis
      using find_session_id [OF inv s(1)] answers_of_upsert [OF up(1), of "s_id s"] up(2) s(2)
      by (simp add: d' view_db_def view_session_def)
  next
    case False
    then show ?thesis
      by (cases "find (\<lambda>x. s_id x = sid) (test_sessions d)") (auto simp: d' view_db_def other dest: find_SomeD)
  qed
  then have "view_db d' = (view_db d)(s_id s \<mapsto> ?v\<lparr>av_phase := Running ((answers_of (item_responses d) (s_id s))(r_item_id r \<mapsto> r_response_data r))\<rparr>)"
    by (rule ext)
  then show ?thesis
    using machine_answer [of "view_db d" "s_id s" ?v "answers_of (item_responses d) (s_id s)" "r_item_id r" "r_response_data r"]
      v phase by simp
qed

lemma answers_of_scored:
  "answers_of (update_where P (apply_points g sc did d) rs) sid iid = answers_of rs sid iid"
proof -
  have "find (answers sid iid) (update_where P (apply_points g sc did d) rs)
      = map_option (\<lambda>x. if P x then apply_points g sc did d x else x) (find (answers sid iid) rs)"
    by (rule find_update_where_same) (simp add: answers_def)
  then show ?thesis by (simp add: answers_of_def option.map_comp comp_def if_distrib cong: if_cong)
qed

lemma finish_step:
  assumes inv: "session_inv d" and s: "s \<in> set (test_sessions d)" "s_status s = InProgress"
    and d': "d' = completed_db g sc now s d"
  shows "machine_step (view_db d) (view_db d')"
proof -
  define tot where "tot = sum_points g sc (s_delivery_id s) d (Fin 0) (responses_of (s_id s) d)"
  let ?v = "view_session (item_responses d) s" and ?rows = "item_responses d'"
  have v: "view_db d (s_id s) = Some ?v" by (rule view_of [OF inv s(1)])
  have phase: "av_phase ?v = Running (answers_of (item_responses d) (s_id s))" using s(2) by (simp add: view_session_def)
  have same: "answers_of ?rows sid = answers_of (item_responses d) sid" for sid
    by (simp add: d' completed_db_def answers_of_scored fun_eq_iff)
  have f: "find (\<lambda>x. s_id x = sid) (test_sessions d')
      = map_option (\<lambda>x. if s_id x = s_id s then finish_session g now tot x else x) (find (\<lambda>x. s_id x = sid) (test_sessions d))" for sid
    unfolding d' completed_db_def tot_def by (simp, rule find_update_where_same) simp
  have "view_db d' sid = ((view_db d)(s_id s \<mapsto> ?v\<lparr>av_phase := Finished tot (answers_of (item_responses d) (s_id s))\<rparr>)) sid"
    for sid
  proof (cases "sid = s_id s")
    case True
    then show ?thesis using f [of sid] find_session_id [OF inv s(1)] by (simp add: view_db_def view_session_def same)
  next
    case False
    then show ?thesis
      using f [of sid] by (cases "find (\<lambda>x. s_id x = sid) (test_sessions d)")
        (auto simp: view_db_def view_session_def same dest: find_SomeD)
  qed
  then have "view_db d' = (view_db d)(s_id s \<mapsto> ?v\<lparr>av_phase := Finished tot (answers_of (item_responses d) (s_id s))\<rparr>)"
    by (rule ext)
  then show ?thesis
    using machine_finish [of "view_db d" "s_id s" ?v "answers_of (item_responses d) (s_id s)" tot] v phase by simp
qed

lemma op_machine_step:
  assumes op: "session_op svc sc d effs d'" and inv: "session_inv d" and live: "list_all live_or_done (test_sessions d)"
  shows "machine_step (view_db d) (view_db d')"
  using op
proof cases
  case op_none
  then show ?thesis by (simp add: machine_stay)
next
  case (op_start g now nid did uid res)
  from op_start(2) show ?thesis
  proof (cases rule: start_session_effect)
    case same
    then show ?thesis by (simp add: machine_stay)
  next
    case (begun s0)
    then have "live_or_done s0" using live by (simp add: list_all_iff)
    with begun(2) show ?thesis by (simp add: live_or_done_def)
  next
    case (created dl)
    have "session_inv d'" using session_op_inv [OF op inv] .
    from open_step [OF inv this created(3)] show ?thesis by (simp add: new_session_def)
  qed
next
  case (op_save g now1 now2 rid sid uid iid dat res)
  from op_save(2) show ?thesis
  proof (cases rule: save_response_effect)
    case same
    then show ?thesis by (simp add: machine_stay)
  next
    case (saved s rows)
    have s: "s \<in> set (test_sessions d)" "s_id s = sid" using find_session_Some [OF saved(1)] by simp_all
    show ?thesis
      by (rule answer_step [OF inv s(1) saved(2,3) _ saved(4)]) (simp add: new_response_def s(2))
  qed
next
  case (op_submit g now sid uid res)
  from inv op_submit(1) show ?thesis
  proof (cases rule: submit_session_effect)
    case same
    then show ?thesis by (simp add: machine_stay)
  next
    case (completed s)
    then show ?thesis by (intro finish_step [OF inv])
  qed
qed

section \<open>Refinement\<close>

lemma change_machine_step:
  assumes "session_change svc sc d effs d'" and "session_inv d" and "list_all live_or_done (test_sessions d)"
  shows "machine_step (view_db d) (view_db d')"
proof -
  from assms(1) obtain d1 d2 where q: "quiet d d1" "session_op svc sc d1 effs d2" "quiet d2 d'"
    by (auto simp: session_change_def)
  have "session_inv d1" "list_all live_or_done (test_sessions d1)"
    using assms(2,3) q(1) quiet_session_inv [OF q(1)] by (simp_all add: quiet_def)
  from op_machine_step [OF q(2) this] show ?thesis by (simp add: view_quiet [OF q(1)] view_quiet [OF q(3)])
qed

text \<open>The steps of the server, whatever effects they emit, and of the session service alone.\<close>

definition some_step :: "session_service \<Rightarrow> scorer \<Rightarrow> string set \<Rightarrow> world \<Rightarrow> world \<Rightarrow> bool" where
  "some_step svc sc D w w' \<longleftrightarrow> (\<exists>effs. server_step svc sc D w effs w')"

lemma server_run_steps: "server_run svc sc D w0 tr w \<Longrightarrow> (some_step svc sc D)\<^sup>*\<^sup>* w0 w"
proof (induction rule: server_run.induct)
  case (run_step tr w effs w')
  then show ?case by (meson some_step_def rtranclp.rtrancl_into_rtrancl)
qed simp

interpretation server_machine: simulation "some_step svc sc D" world_inv machine_step "\<lambda>w. view_db (w_db w)" for svc sc D
proof
  fix w w'
  assume inv: "world_inv w" and "some_step svc sc D w w'"
  then obtain effs where step: "server_step svc sc D w effs w'" by (auto simp: some_step_def)
  show "world_inv w'" by (rule world_inv_step [OF step inv])
  show "machine_step (view_db (w_db w)) (view_db (w_db w'))"
    using change_machine_step [OF step_change [OF step]] inv by (simp add: world_inv_def)
qed

interpretation service_machine: simulation "session_step svc sc"
    "\<lambda>d. session_inv d \<and> list_all live_or_done (test_sessions d)" machine_step view_db for svc sc
proof
  fix d d'
  assume inv: "session_inv d \<and> list_all live_or_done (test_sessions d)" and step: "session_step svc sc d d'"
  then obtain effs where "session_op svc sc d effs d'" by (auto elim!: session_stepE intro: session_op.intros)
  note change = op_change [OF this]
  show "session_inv d' \<and> list_all live_or_done (test_sessions d')"
    using session_change_inv [OF change] session_change_live [OF change] inv by blast
  show "machine_step (view_db d) (view_db d')" using change_machine_step [OF change] inv by blast
qed

text \<open>In the machine an attempt keeps its owner, delivery and number, and its score once it is finished.\<close>

lemma machine_keeps_attempt:
  assumes "machine_step m m'" and "m sid = Some v"
  shows "\<exists>v'. m' sid = Some v' \<and> av_user v' = av_user v \<and> av_delivery v' = av_delivery v \<and> av_number v' = av_number v
    \<and> (\<forall>score a. av_phase v = Finished score a \<longrightarrow> v' = v)"
  using assms by cases auto

lemma server_keeps_attempt:
  assumes "world_inv w0" and "server_run svc sc D w0 tr w" and "view_db (w_db w0) sid = Some v" and "av_phase v = Finished score a"
  shows "view_db (w_db w) sid = Some v"
  by (rule server_machine.spec_stable [OF _ server_run_steps [OF assms(2)] assms(1)])
    (use assms(3,4) machine_keeps_attempt in fastforce)+

text \<open>
  Claim C8: the server refines the session machine.  Seen through the abstraction, every run of the server
  is a run of the machine: an identifier that is free is opened as a running attempt
  without answers, a running attempt gets an answer or is finished with a score, and nothing else happens:
  no attempt disappears, changes its user, delivery or number, loses an answer, or leaves the phase finished.
\<close>
theorem server_refines_machine:
  assumes "world_inv w0" and "server_run svc sc D w0 tr w"
  shows "machine_step\<^sup>*\<^sup>* (view_db (w_db w0)) (view_db (w_db w))"
  by (rule server_machine.sim_run [OF server_run_steps [OF assms(2)] assms(1)])

end
