(* ===== verification/ServedRelations.thy ===== *)
theory ServedRelations
  imports ServerProps
begin

text \<open>
  The contract by which a relation between databases is carried from the operations of the services to the
  whole server: a relation that is reflexive and transitive and holds across every single operation holds
  across every handler, every request, every step of the server and every run of it.  \<open>D\<close> are the identifiers
  that may be drawn for login states.
\<close>

locale served_relation =
  fixes rel :: "db \<Rightarrow> db \<Rightarrow> bool" and D :: "string set"
  assumes rel_refl: "rel d d"
    and rel_trans: "rel d d1 \<Longrightarrow> rel d1 d2 \<Longrightarrow> rel d d2"
    and rel_start: "session_inv d \<Longrightarrow> start_session g now nid did uid d = (rs, d') \<Longrightarrow> rel d d'"
    and rel_save: "save_response g now1 now2 rid sid uid iid dat d = (rr, d') \<Longrightarrow> rel d d'"
    and rel_submit: "session_inv d \<Longrightarrow> submit_session svc g sc now sid uid d = (rf, d', effs) \<Longrightarrow> rel d d'"
    and rel_event: "record_event g now nid e uid d d = (rv, d') \<Longrightarrow> rel d d'"
    and rel_platform: "register_platform V g now nid rnd p d = (rp, d') \<Longrightarrow> rel d d'"
    and rel_resource_link: "register_resource_link g now nid l d = (rl, d') \<Longrightarrow> rel d d'"
    and rel_config: "register_config (E :: completion_payload hook_env) g now nid rnd1 rnd2 cfg d = (rc, d') \<Longrightarrow> rel d d'"
    and rel_login: "initiate_login V g now st nonce iss cid target lh mh d = (out, d') \<Longrightarrow> st \<in> D \<Longrightarrow> rel d d'"
    and rel_claim: "claim_state g k st now d = (ok, d') \<Longrightarrow> rel d d'"
    and rel_link: "save_link g k link d = (err, d') \<Longrightarrow> rel d d'"
    and rel_import: "import_qti_package Q g pk files d = (ri, files', d') \<Longrightarrow> rel d d'"
    and rel_worker: "worker_iteration (E :: completion_payload hook_env) g a gl ev d = (rqs, d') \<Longrightarrow> rel d d'"
begin

lemma rel_advance:
  assumes "advance_launch P d = (out, d')" and "session_inv d"
  shows "rel d d'"
  using assms
  by (auto simp: advance_launch_def Let_def split: launch_phase.splits prod.splits bool.splits sum.splits option.splits
      intro: rel_claim rel_link rel_start)

lemma rel_drive: "drive_launch (\<lambda>_ d. d) k P d = (r, d') \<Longrightarrow> session_inv d \<Longrightarrow> rel d d'"
proof (induction "\<lambda>(_ :: nat) (d :: db). d" k P d rule: drive_launch.induct)
  case (1 k P d)
  obtain out d1 where adv: "advance_launch P d = (out, d1)" by (cases "advance_launch P d")
  note first = rel_advance [OF adv 1(3)]
  show ?case
  proof (cases out)
    case (Inl P')
    with adv 1(2) have "drive_launch (\<lambda>_ d. d) (Suc k) P' d1 = (r, d')" by (simp add: drive_launch.simps [of _ k P d])
    moreover have "session_inv d1" by (rule session_change_inv [OF advance_launch_change [OF adv] 1(3)])
    ultimately show ?thesis using 1(1) [OF adv [symmetric] Inl] first by (blast intro: rel_trans)
  next
    case (Inr res)
    with adv 1(2) first show ?thesis by (simp add: drive_launch.simps [of _ k P d])
  qed
qed

lemma rel_launch: "handle_launch V L (\<lambda>_ d. d) tok st cache d = (r, cache', d') \<Longrightarrow> session_inv d \<Longrightarrow> rel d d'"
  by (auto simp: handle_launch_steps rel_refl split: prod.splits sum.splits dest: rel_drive)

lemmas rel_operations = rel_refl rel_start rel_save rel_submit rel_event rel_platform rel_resource_link rel_config
  rel_login rel_import rel_launch

lemma rel_serve:
  assumes "serve R rt c w = (r, w', effs)" and "re_state R \<in> D" and "session_inv (w_db w)"
  shows "rel (w_db w) (w_db w')"
  using serve_op [OF assms(1)] by (rule endpoint_opE) (use assms(2,3) in \<open>auto intro: rel_operations\<close>)

lemma rel_server_step: "server_step svc sc D w effs w' \<Longrightarrow> world_inv w \<Longrightarrow> rel (w_db w) (w_db w')"
  by (erule server_stepE) (auto simp: world_inv_def rel_refl dest: rel_worker rel_advance rel_serve)

lemma rel_server_run: "server_run svc sc D w0 tr w \<Longrightarrow> world_inv w0 \<Longrightarrow> rel (w_db w0) (w_db w)"
proof (induction rule: server_run.induct)
  case run_init
  show ?case by (rule rel_refl)
next
  case (run_step tr w effs w')
  then show ?case using rel_server_step [OF run_step(2) world_inv_run [OF run_step(1,4)]] rel_trans by blast
qed

end

end
