(* ===== verification/ServerStates.thy ===== *)
theory ServerStates
  imports ServedRelations
begin

text \<open>
  The stored OIDC states on the whole server: every step of the server is, on them, a run of the protocol of
  theory LtiLaunch (logins store drawn states, sweeps delete, launches use up), so that a state that has
  served one launch serves no other, whatever the server does in between.
\<close>

section \<open>Steps of the server as runs of the protocol\<close>

definition drawn_run :: "string set \<Rightarrow> db \<Rightarrow> db \<Rightarrow> bool" where
  "drawn_run D d d' \<longleftrightarrow> (\<exists>es. state_run d es d' \<and> (\<forall>st. Created st \<in> set es \<longrightarrow> st \<in> D))"

lemma state_run_append: "state_run d es d1 \<Longrightarrow> state_run d1 es' d2 \<Longrightarrow> state_run d (es @ es') d2"
  by (induction rule: state_run.induct) (auto intro: run_cons)

lemma drawn_refl [simp]: "drawn_run D d d"
  unfolding drawn_run_def using run_nil by fastforce

lemma drawn_trans [trans]: "drawn_run D d d1 \<Longrightarrow> drawn_run D d1 d2 \<Longrightarrow> drawn_run D d d2"
  unfolding drawn_run_def by (metis UnE set_append state_run_append)

lemma drawn_step: "state_step d e d' \<Longrightarrow> (\<And>st. e = Created st \<Longrightarrow> st \<in> D) \<Longrightarrow> drawn_run D d d'"
  unfolding drawn_run_def using run_cons [OF _ run_nil] by fastforce

lemma drawn_same: "lti_oidc_states d' = lti_oidc_states d \<Longrightarrow> drawn_run D d d'"
  by (rule drawn_step [OF elsewhere]) simp_all

lemma drawn_claim: "claim_state g k st now d = (ok, d') \<Longrightarrow> drawn_run D d d'"
  by (cases ok) (auto intro: drawn_step claim refused)

lemma drawn_login:
  assumes "initiate_login V g now st nonce iss cid target lh mh d = (out, d')" and "st \<in> D"
  shows "drawn_run D d d'"
proof (cases "\<exists>e. out = LoginFails e")
  case True
  then have "d' = d"
    using assms(1) by (auto simp: initiate_login_def login_redirect_def split: if_splits option.splits)
  then show ?thesis by simp
next
  case False
  with login_is_run [OF assms(1)] assms(2) show ?thesis unfolding drawn_run_def by fastforce
qed

section \<open>The other operations\<close>

lemma states_start: "start_session g now nid did uid d = (res, d') \<Longrightarrow> drawn_run D d d'"
  by (erule start_session_effect) (auto intro: drawn_same)

lemma states_save: "save_response g now1 now2 rid sid uid iid dat d = (res, d') \<Longrightarrow> drawn_run D d d'"
  by (erule save_response_effect) (auto intro: drawn_same)

lemma states_submit: "session_inv d \<Longrightarrow> submit_session svc g sc now sid uid d = (res, d', effs) \<Longrightarrow> drawn_run D d d'"
  by (erule (1) submit_session_effect) (auto intro: drawn_same simp: completed_db_def)

lemma states_link: "save_link g k row d = (e, d') \<Longrightarrow> drawn_run D d d'"
  by (rule drawn_same) (auto simp: save_link_def Let_def split: if_splits)

lemma states_platform: "register_platform V g now nid rnd p d = (r, d') \<Longrightarrow> drawn_run D d d'"
  by (rule drawn_same) (cases r; auto dest: register_platform_Inl register_platform_Inr)

lemma states_resource_link: "register_resource_link g now nid l d = (r, d') \<Longrightarrow> drawn_run D d d'"
  by (rule drawn_same) (auto simp: register_resource_link_def Let_def split: if_splits option.splits)

lemma states_config: "register_config E g now nid rnd1 rnd2 cfg d = (r, d') \<Longrightarrow> drawn_run D d d'"
  by (rule drawn_same) (auto simp: register_config_def Let_def split: if_splits option.splits sum.splits)

lemma states_record_event: "record_event g now nid e uid d1 d = (r, d') \<Longrightarrow> drawn_run D d d'"
  by (rule drawn_same) (cases r; auto simp: create_event_Inr dest: record_event_Inl dest!: record_event_Inr)

lemma states_import: "import_qti_package E g p files d = (r, files', d') \<Longrightarrow> drawn_run D d d'"
  using import_outcome [where E = E and g = g and p = p and files = files and d = d]
  by (intro drawn_same) (cases r; auto)

lemma states_send_all: "lti_oidc_states (snd (send_all E a gl i ev body cs d)) = lti_oidc_states d"
proof (induction E a gl i ev body cs d rule: send_all.induct)
  case (2 E a gl i ev body c cs d)
  obtain rq row where sent: "send_webhook E (a i) c ev body = (rq, row)" by (cases "send_webhook E (a i) c ev body")
  have "lti_oidc_states (log_webhook_result g row d) = lti_oidc_states d" for g row d
    by (simp add: log_webhook_result_def split: option.splits)
  with 2 [OF sent [symmetric] refl] sent show ?case by (simp add: case_prod_beta)
qed simp

lemma states_worker: "worker_iteration E g a gl ev d = (rqs, d') \<Longrightarrow> drawn_run D d d'"
  using states_send_all by (intro drawn_same) (auto simp: worker_iteration_def split: option.splits dest!: arg_cong [of _ _ snd])

text \<open>Every run of the server is, on the stored states, a run of the protocol.\<close>

interpretation drawn: served_relation "drawn_run D" D for D
  by unfold_locales
    (rule drawn_refl drawn_trans drawn_claim drawn_login states_start states_save states_submit states_link states_platform
      states_resource_link states_config states_record_event states_import states_worker; assumption)+

section \<open>No launch is replayed\<close>

lemma drawn_spent:
  assumes "drawn_run D d d'" and "st \<notin> D" and "unclaimed st d = 0"
  shows "unclaimed st d' = 0"
proof -
  from assms(1) obtain es where es: "state_run d es d'" "\<forall>st. Created st \<in> set es \<longrightarrow> st \<in> D"
    by (auto simp: drawn_run_def)
  with assms(2) have "count_where (\<lambda>e. e = Created st) es = 0" by (auto simp: count_where_zero_iff)
  with state_run_unclaimed [OF es(1), of st] assms(3) show ?thesis by simp
qed

text \<open>The state a launch request presents, once it has passed the layers of its route.\<close>

definition presented_state :: "request_env \<Rightarrow> route \<Rightarrow> ctx \<Rightarrow> world \<Rightarrow> string option" where
  "presented_state R rt c w =
     (case serve_layers (re_layers R) rt (w_server w) c of
        (_, Next c') \<Rightarrow> (case parse_lti_form (re_lti R) c' of Form form \<Rightarrow> Some (values_get form ''state'') | _ \<Rightarrow> None)
      | _ \<Rightarrow> None)"

lemma served_launch:
  assumes "rt_endpoint rt = EpLtiLaunch" and "presented_state R rt c w = Some st"
  obtains srv c' form where "serve_layers (re_layers R) rt (w_server w) c = (srv, Next c')"
    "parse_lti_form (re_lti R) c' = Form form" "values_get form ''state'' = st"
    "serve R rt c w = answer EpLtiLaunch R c' (w\<lparr>w_server := srv\<rparr>)"
  using assms by (auto simp: presented_state_def serve_def split: prod.splits outcome.splits form_result.splits)

lemma served_launch_spends:
  assumes "rt_endpoint rt = EpLtiLaunch" and "presented_state R rt c w = Some st"
    and "distinct (map os_state (lti_oidc_states (w_db w)))"
    and "serve R rt c w = ((200, LtiReply (LtiSession s tok ex)), w1, effs)"
  shows "unclaimed st (w_db w1) = 0"
proof -
  obtain srv c' form where f: "parse_lti_form (re_lti R) c' = Form form" "values_get form ''state'' = st"
    and ans: "answer EpLtiLaunch R c' (w\<lparr>w_server := srv\<rparr>) = ((200, LtiReply (LtiSession s tok ex)), w1, effs)"
    by (rule served_launch [OF assms(1,2)]) (use assms(4) in auto)
  then obtain cache' where "launch_handler (re_lti R) (re_launch R) (\<lambda>_ d. d) (he_clock (re_handler R)) (re_now2 R) c' (w_cache w) (w_db w)
      = ((200, LtiSession s tok ex), cache', w_db w1)"
    by (auto split: prod.splits)
  then obtain form' where "parse_lti_form (re_lti R) c' = Form form'"
      "handle_launch (lh_env (re_lti R)) (re_launch R) (\<lambda>_ d. d) (values_get form' ''id_token'') (values_get form' ''state'')
         (w_cache w) (w_db w) = (Inr s, cache', w_db w1)"
    by (rule launch_handler_ok)
  with f assms(3) show ?thesis using launch_spends by auto
qed

text \<open>
  Claim C11: launches are not replayed.  After a launch has succeeded, whatever the server does next, in
  whatever order (logins, other launches, also half finished ones, requests on any route, workers), as
  long as no login draws the same state again: every further launch request that presents this state,
  with whatever token, is refused and leaves the database as it is.
\<close>
theorem launches_not_replayed:
  assumes "world_inv w" and "distinct (map os_state (lti_oidc_states (w_db w)))"
    and "rt_endpoint rt = EpLtiLaunch" and "presented_state R rt c w = Some st"
    and "serve R rt c w = ((200, LtiReply (LtiSession s tok ex)), w1, effs)"
    and "server_run svc sc D w1 tr w2" and "st \<notin> D"
    and "rt_endpoint rt2 = EpLtiLaunch" and "presented_state R2 rt2 c2 w2 = Some st"
  shows "\<exists>status w3. serve R2 rt2 c2 w2 = ((status, LtiReply LtiError), w3, []) \<and> status \<in> {400, 401} \<and> w_db w3 = w_db w2"
proof -
  have "unclaimed st (w_db w2) = 0"
    using drawn_spent [OF drawn.rel_server_run [OF assms(6) world_inv_serve [OF assms(5,1)]] assms(7)]
      served_launch_spends [OF assms(3,4,2,5)] by simp
  note refused = spent_refused [OF this]
  show ?thesis
    by (rule served_launch [OF assms(8,9)])
      (simp add: launch_handler_def handle_launch_def refused launch_error_status_def split: if_splits)
qed

end
