(* ===== verification/ServerTables.thy ===== *)
theory ServerTables
  imports ServedRelations
begin

text \<open>
  The database as the schema and the services mean it, on the whole server: the rows of the tables the
  server writes beside sessions and responses respect the unique indexes, refer to rows that exist, and hold
  values of the documented form, whatever the server does.
\<close>

section \<open>Well-formed rows\<close>

definition platform_ok :: "lti_platform \<Rightarrow> bool" where
  "platform_ok p \<longleftrightarrow> p_issuer p \<noteq> [] \<and> p_client_id p \<noteq> []
     \<and> (p_private_key p = [] \<or> prefix ''enc:v1:'' (p_private_key p) \<and> trim_space (p_key_id p) \<noteq> [])"

definition resource_link_ok :: "db \<Rightarrow> lti_resource_link \<Rightarrow> bool" where
  "resource_link_ok d l \<longleftrightarrow>
     rl_platform_id l \<in> p_id ` set (lti_platforms d) \<and> rl_delivery_id l \<in> d_id ` set (deliveries d)"

definition state_ok :: "db \<Rightarrow> lti_oidc_state \<Rightarrow> bool" where
  "state_ok d s \<longleftrightarrow> (os_issuer s, os_client_id s) \<in> (\<lambda>p. (p_issuer p, p_client_id p)) ` set (lti_platforms d)
     \<and> os_expires_at s = os_created_at s + 5 * minute
     \<and> (case os_used_at s of None \<Rightarrow> True | Some t \<Rightarrow> t < os_expires_at s)"

definition event_ok :: "db \<Rightarrow> proctor_event \<Rightarrow> bool" where
  "event_ok d e \<longleftrightarrow> valid_event_content e \<and> pe_session_id e \<in> s_id ` set (test_sessions d)"

definition config_ok :: "webhook_config \<Rightarrow> bool" where
  "config_ok c \<longleftrightarrow> wc_event c = ''session.completed'' \<and> wc_http_method c = ''POST'' \<and> prefix ''enc:v1:'' (wc_secret_token c)"

definition log_ok :: "db \<Rightarrow> webhook_log \<Rightarrow> bool" where
  "log_ok d l \<longleftrightarrow> wl_config_id l \<in> wc_id ` set (webhook_configs d) \<and> length (wl_response_body l) \<le> 4096
     \<and> (wl_is_success l \<longleftrightarrow> 200 \<le> wl_status_code l \<and> wl_status_code l < 300)"

definition db_well_formed :: "db \<Rightarrow> bool" where
  "db_well_formed d \<longleftrightarrow>
     unique_rows platform_clash (lti_platforms d) \<and> unique_rows resource_link_clash (lti_resource_links d)
     \<and> unique_rows oidc_state_clash (lti_oidc_states d) \<and> distinct (map ls_session_id (lti_link_sessions d))
     \<and> unique_rows proctor_event_clash (proctor_events d) \<and> unique_rows webhook_config_clash (webhook_configs d)
     \<and> unique_rows webhook_log_clash (webhook_logs d) \<and> unique_rows item_clash (items d)
     \<and> list_all platform_ok (lti_platforms d) \<and> list_all (resource_link_ok d) (lti_resource_links d)
     \<and> list_all (state_ok d) (lti_oidc_states d) \<and> list_all (event_ok d) (proctor_events d)
     \<and> list_all config_ok (webhook_configs d) \<and> list_all (log_ok d) (webhook_logs d)"

interpretation configs: keyed_table wc_id wc_id
  by unfold_locales

interpretation logs: keyed_table wl_id wl_id
  by unfold_locales

interpretation item_rows: keyed_table i_id i_id
  by unfold_locales

section \<open>Growth\<close>

text \<open>
  Nothing that other rows refer to disappears; a session stays the same attempt of the same user at the same
  delivery and its status only goes forward.
\<close>

definition session_forward :: "test_session \<Rightarrow> test_session \<Rightarrow> bool" where
  "session_forward s s' \<longleftrightarrow> s_id s' = s_id s \<and> s_user_id s' = s_user_id s \<and> s_delivery_id s' = s_delivery_id s
     \<and> s_attempt s' = s_attempt s \<and> s_status s \<le> s_status s'"

definition sessions_forward :: "test_session list \<Rightarrow> test_session list \<Rightarrow> bool" where
  "sessions_forward ss ss' \<longleftrightarrow> (\<forall>s \<in> set ss. \<exists>s' \<in> set ss'. session_forward s s')"

definition grown :: "db \<Rightarrow> db \<Rightarrow> bool" where
  "grown d d' \<longleftrightarrow> sessions_forward (test_sessions d) (test_sessions d')
     \<and> set (lti_platforms d) \<subseteq> set (lti_platforms d') \<and> deliveries d' = deliveries d
     \<and> set (webhook_configs d) \<subseteq> set (webhook_configs d')"

definition keeps_well_formed :: "db \<Rightarrow> db \<Rightarrow> bool" where
  "keeps_well_formed d d' \<longleftrightarrow> grown d d' \<and> (db_well_formed d \<longrightarrow> db_well_formed d')"

lemma session_forward_refl [simp]: "session_forward s s"
  by (simp add: session_forward_def)

lemma sessions_forward_refl [simp]: "sessions_forward ss ss"
  unfolding sessions_forward_def using session_forward_refl by blast

lemma session_forward_trans: "session_forward s s1 \<Longrightarrow> session_forward s1 s2 \<Longrightarrow> session_forward s s2"
  by (auto simp: session_forward_def intro: order_trans)

lemma sessions_forward_trans: "sessions_forward ss ss1 \<Longrightarrow> sessions_forward ss1 ss2 \<Longrightarrow> sessions_forward ss ss2"
  unfolding sessions_forward_def using session_forward_trans by blast

lemma sessions_forward_ids: "sessions_forward ss ss' \<Longrightarrow> s_id ` set ss \<subseteq> s_id ` set ss'"
proof
  fix i assume forward: "sessions_forward ss ss'" and "i \<in> s_id ` set ss"
  then obtain s where s: "s \<in> set ss" "i = s_id s" by blast
  with forward obtain s' where "s' \<in> set ss'" "session_forward s s'" unfolding sessions_forward_def by blast
  with s(2) show "i \<in> s_id ` set ss'" by (auto simp: session_forward_def intro: rev_image_eqI)
qed

lemma sessions_forward_append [simp]: "sessions_forward ss (ss @ new)"
proof -
  have "s \<in> set (ss @ new)" if "s \<in> set ss" for s using that by simp
  then show ?thesis unfolding sessions_forward_def using session_forward_refl by blast
qed

lemma sessions_forward_update:
  assumes "unique_rows session_clash ss" and "s0 \<in> set ss" and "session_forward s0 (f s0)"
  shows "sessions_forward ss (update_where (\<lambda>x. s_id x = s_id s0) f ss)"
  unfolding sessions_forward_def
proof
  fix s assume s: "s \<in> set ss"
  have same: "s = s0" if "s_id s = s_id s0"
    using sessions.rows_determined [OF assms(1) s assms(2)] that by (simp add: clash_on_def)
  have "(if s_id s = s_id s0 then f s else s) \<in> set (update_where (\<lambda>x. s_id x = s_id s0) f ss)"
    using s by (auto simp: update_where_def)
  moreover have "session_forward s (if s_id s = s_id s0 then f s else s)" using same assms(3) by auto
  ultimately show "\<exists>s' \<in> set (update_where (\<lambda>x. s_id x = s_id s0) f ss). session_forward s s'" by blast
qed

lemma grown_refl [simp]: "grown d d"
  by (simp add: grown_def)

lemma references_grow:
  assumes "grown d d'"
  shows "resource_link_ok d l \<Longrightarrow> resource_link_ok d' l" and "state_ok d s \<Longrightarrow> state_ok d' s"
    and "event_ok d e \<Longrightarrow> event_ok d' e" and "log_ok d w \<Longrightarrow> log_ok d' w"
  using assms sessions_forward_ids [of "test_sessions d" "test_sessions d'"]
  by (auto simp: grown_def resource_link_ok_def state_ok_def event_ok_def log_ok_def)

lemmas references_list = list.pred_mono_strong [OF _ references_grow(1)] list.pred_mono_strong [OF _ references_grow(2)]
  list.pred_mono_strong [OF _ references_grow(3)] list.pred_mono_strong [OF _ references_grow(4)]

text \<open>The tables without references pointing at them.\<close>

lemma unreferenced [simp]:
  "resource_link_ok (lti_oidc_states_update f d) = resource_link_ok d" "state_ok (lti_oidc_states_update f d) = state_ok d"
  "event_ok (lti_oidc_states_update f d) = event_ok d" "log_ok (lti_oidc_states_update f d) = log_ok d"
  "resource_link_ok (lti_link_sessions_update h d) = resource_link_ok d" "state_ok (lti_link_sessions_update h d) = state_ok d"
  "event_ok (lti_link_sessions_update h d) = event_ok d" "log_ok (lti_link_sessions_update h d) = log_ok d"
  by (simp_all add: fun_eq_iff resource_link_ok_def state_ok_def event_ok_def log_ok_def)

lemma keeps_refl: "keeps_well_formed d d"
  by (simp add: keeps_well_formed_def)

lemma keeps_trans: "keeps_well_formed d d1 \<Longrightarrow> keeps_well_formed d1 d2 \<Longrightarrow> keeps_well_formed d d2"
  by (auto simp: keeps_well_formed_def grown_def intro: sessions_forward_trans)

text \<open>Changes of sessions and responses alone.\<close>

lemma keeps_sessions:
  assumes "d' = d\<lparr>test_sessions := ss, item_responses := rs\<rparr>" and "sessions_forward (test_sessions d) ss"
  shows "keeps_well_formed d d'"
proof -
  have g: "grown d d'" using assms by (simp add: grown_def)
  then show ?thesis
    using references_list [OF _ g] by (auto simp: keeps_well_formed_def db_well_formed_def assms(1))
qed

lemma session_inv_unique: "session_inv d \<Longrightarrow> unique_rows session_clash (test_sessions d)"
  by (simp add: session_inv_def)

lemma keeps_start:
  assumes "session_inv d" and "start_session g now nid did uid d = (rs, d')"
  shows "keeps_well_formed d d'"
  using assms(2)
proof (cases rule: start_session_effect)
  case (begun s0)
  then have "session_forward s0 (begin_session g now s0)"
    by (simp add: session_forward_def begin_session_def less_eq_session_status_def)
  with begun sessions_forward_update [OF session_inv_unique [OF assms(1)] begun(1)] show ?thesis
    by (intro keeps_sessions [where rs = "item_responses d"]) simp_all
qed (auto intro!: keeps_refl keeps_sessions [where rs = "item_responses d"])

lemma keeps_save: "save_response g now1 now2 rid sid uid iid dat d = (rr, d') \<Longrightarrow> keeps_well_formed d d'"
  by (erule save_response_effect) (auto intro!: keeps_refl keeps_sessions [where ss = "test_sessions d"])

lemma keeps_submit:
  assumes "session_inv d" and "submit_session svc g sc now sid uid d = (rf, d', effs)"
  shows "keeps_well_formed d d'"
  using assms
proof (cases rule: submit_session_effect)
  case (completed s)
  then have "session_forward s (finish_session g now tot s)" for tot
    by (simp add: session_forward_def finish_session_def less_eq_session_status_def)
  note forward = sessions_forward_update [OF session_inv_unique [OF assms(1)] completed(1), where f = "finish_session g now tot" for tot, OF this]
  show ?thesis unfolding completed(5) completed_db_def by (rule keeps_sessions [OF refl forward])
qed (simp add: keeps_refl)

section \<open>The other operations\<close>

text \<open>An operation that adds a row, or leaves the database as it is.\<close>

lemma keeps_event: "record_event g now nid e uid d d = (rv, d') \<Longrightarrow> keeps_well_formed d d'"
proof (cases rv)
  case (Inl err)
  then show "record_event g now nid e uid d d = (rv, d') \<Longrightarrow> keeps_well_formed d d'"
    by (auto dest: record_event_Inl simp: keeps_refl)
next
  case (Inr e')
  assume "record_event g now nid e uid d d = (rv, d')"
  with Inr have p: "prepare_event g now nid e uid d = Inr e'" and c: "create_event g e' d = (Inr e', d')"
    by (auto dest: record_event_Inr)
  have "valid_event_content e'"
    using prepare_event_Inr [OF p] length_trim_space [of "pe_details e"] by (simp add: valid_event_content_def)
  moreover have "pe_session_id e' \<in> s_id ` set (test_sessions d)" using prepare_event_Inr [OF p] by (auto intro: rev_image_eqI)
  ultimately show ?thesis
    using c unfolding create_event_Inr
    by (auto simp: keeps_well_formed_def grown_def db_well_formed_def event_ok_def resource_link_ok_def state_ok_def log_ok_def
        clash_on_def list_all_iff intro!: events.rows_append)
qed

lemma keeps_platform: "register_platform V g now nid rnd p d = (rp, d') \<Longrightarrow> keeps_well_formed d d'"
proof (cases rp)
  case (Inl err)
  then show "register_platform V g now nid rnd p d = (rp, d') \<Longrightarrow> keeps_well_formed d d'"
    by (auto dest: register_platform_Inl simp: keeps_refl)
next
  case (Inr q)
  assume "register_platform V g now nid rnd p d = (rp, d')"
  with Inr have r: "prepare_platform V now nid rnd p = Inr q" "\<forall>y \<in> set (lti_platforms d). \<not> platform_clash q y"
      "d' = d\<lparr>lti_platforms := lti_platforms d @ [q]\<rparr>"
    by (auto dest: register_platform_Inr)
  have "platform_ok q"
    using prepare_platform_Inr [OF r(1)] encrypt_prefix by (auto simp: platform_ok_def split: if_splits)
  then show ?thesis
    using r(2,3) unfolding keeps_well_formed_def grown_def db_well_formed_def
    by (auto simp: resource_link_ok_def state_ok_def event_ok_def log_ok_def list_all_iff intro!: platforms.rows_append)
qed

lemma keeps_resource_link: "register_resource_link g now nid l d = (rl, d') \<Longrightarrow> keeps_well_formed d d'"
proof (cases rl)
  case (Inl err)
  then show "register_resource_link g now nid l d = (rl, d') \<Longrightarrow> keeps_well_formed d d'"
    by (auto simp: register_resource_link_def Let_def keeps_refl split: if_splits option.splits)
next
  case (Inr row)
  assume run: "register_resource_link g now nid l d = (rl, d')"
  with Inr have r: "rl_platform_id row = rl_platform_id l" "rl_delivery_id row = rl_delivery_id l"
    "insert_row resource_link_clash row (lti_resource_links d) = Some (lti_resource_links d')"
    "d' = d\<lparr>lti_resource_links := lti_resource_links d @ [row]\<rparr>"
    by (auto simp: register_resource_link_def Let_def insert_row_Some split: if_splits option.splits)
  from run Inr have "first_by (pk_le g) p_id (\<lambda>p. p_id p = rl_platform_id l) (lti_platforms d) \<noteq> None"
    "first_by (pk_le g) d_id (\<lambda>x. d_id x = rl_delivery_id l) (deliveries d) \<noteq> None"
    by (auto simp: register_resource_link_def split: if_splits)
  then have "resource_link_ok d row"
    using r(1,2) by (auto simp: resource_link_ok_def dest!: first_by_Some intro: rev_image_eqI)
  moreover have "unique_rows resource_link_clash (lti_resource_links d')" if "unique_rows resource_link_clash (lti_resource_links d)"
    using resource_links.rows_insert [OF that r(3)] .
  ultimately show ?thesis
    using r(4) unfolding keeps_well_formed_def grown_def db_well_formed_def
    by (auto simp: resource_link_ok_def state_ok_def event_ok_def log_ok_def list_all_iff)
qed

lemma keeps_config: "register_config E g now nid rnd1 rnd2 cfg d = (rc, d') \<Longrightarrow> keeps_well_formed d d'"
proof (cases rc)
  case (Inl err)
  then show "register_config E g now nid rnd1 rnd2 cfg d = (rc, d') \<Longrightarrow> keeps_well_formed d d'"
    by (auto dest: register_config_Inl simp: keeps_refl)
next
  case (Inr secret)
  assume "register_config E g now nid rnd1 rnd2 cfg d = (rc, d')"
  with Inr have "register_config E g now nid rnd1 rnd2 cfg d = (Inr secret, d')" by simp
  then show ?thesis
  proof (rule register_config_Inr)
    fix u row
    assume "wc_event cfg = ''session.completed''"
      and row: "row = cfg\<lparr>wc_target_url := net_url_string (he_net E) u, wc_http_method := ''POST'',
          wc_id := (if wc_id cfg = [] then nid else wc_id cfg), wc_created_at := now, wc_secret_token := wc_secret_token row\<rparr>"
      and "encrypt (he_cipher E) rnd2 secret = Inr (wc_secret_token row)"
      and new: "\<forall>c \<in> set (webhook_configs d). wc_id c \<noteq> wc_id row"
      and d': "d' = d\<lparr>webhook_configs := webhook_configs d @ [row]\<rparr>"
    have "wc_event row = wc_event cfg" "wc_http_method row = ''POST''" by (subst row, simp)+
    with \<open>wc_event cfg = _\<close> \<open>encrypt _ _ _ = _\<close> have "config_ok row" by (simp add: config_ok_def encrypt_prefix)
    with new show ?thesis
      unfolding keeps_well_formed_def grown_def db_well_formed_def d'
      by (auto simp: resource_link_ok_def state_ok_def event_ok_def log_ok_def list_all_iff clash_on_def
          intro!: configs.rows_append)
  qed
qed

lemma keeps_states:
  assumes "d' = d\<lparr>lti_oidc_states := rows\<rparr>"
    and "unique_rows oidc_state_clash (lti_oidc_states d) \<Longrightarrow> unique_rows oidc_state_clash rows"
    and "list_all (state_ok d) (lti_oidc_states d) \<Longrightarrow> list_all (state_ok d) rows"
  shows "keeps_well_formed d d'"
  using assms(2,3) by (simp add: keeps_well_formed_def grown_def db_well_formed_def assms(1))

lemma keeps_sweep: "keeps_well_formed d (sweep_states g k now d)"
proof (cases "stmt_fails g k")
  case True
  then show ?thesis by (simp add: sweep_states_def keeps_refl)
next
  case False
  show ?thesis
    by (rule keeps_states [where rows = "filter (\<lambda>s. \<not> os_expires_at s < now) (lti_oidc_states d)"])
      (use False in \<open>auto simp: sweep_states_def list_all_iff intro: oidc_states.rows_filter\<close>)
qed

lemma keeps_login:
  assumes "initiate_login V g now st nonce iss cid target lh mh d = (out, d')"
  shows "keeps_well_formed d d'"
proof (cases "\<exists>e. out = LoginFails e")
  case True
  then have "d' = d"
    using assms by (auto simp: initiate_login_def login_redirect_def split: if_splits option.splits)
  then show ?thesis by (simp add: keeps_refl)
next
  case False
  then have "\<forall>e. out \<noteq> LoginFails e" by blast
  with assms obtain p where p: "find_platform g (trim_right_set ''/'' iss) cid d = Some p"
    and new: "\<forall>s \<in> set (lti_oidc_states d). os_state s \<noteq> st"
    and d': "d' = sweep_states g 3 now
       (d\<lparr>lti_oidc_states := lti_oidc_states d @ [oidc_state_row now st nonce p target mh]\<rparr>)"
    by (rule initiate_login_inserts)
  have "state_ok d (oidc_state_row now st nonce p target mh)"
    using find_platform_Some [OF p] by (auto simp: state_ok_def oidc_state_row_def intro: rev_image_eqI)
  moreover have "\<not> oidc_state_clash (oidc_state_row now st nonce p target mh) s" if "s \<in> set (lti_oidc_states d)" for s
    using new that by (auto simp: clash_on_def oidc_state_row_def)
  ultimately have "keeps_well_formed d (d\<lparr>lti_oidc_states := lti_oidc_states d @ [oidc_state_row now st nonce p target mh]\<rparr>)"
    by (intro keeps_states [OF refl] oidc_states.rows_append) simp_all
  with keeps_sweep show ?thesis unfolding d' by (blast intro: keeps_trans)
qed

lemma keeps_claim:
  assumes "claim_state g k st now d = (ok, d')"
  shows "keeps_well_formed d d'"
proof (cases "stmt_fails g k")
  case True
  with assms show ?thesis by (simp add: claim_state_def keeps_refl)
next
  case False
  let ?use = "\<lambda>s :: lti_oidc_state. s\<lparr>os_used_at := Some now\<rparr>"
  have "state_ok d (if usable_state st now s then ?use s else s)" if "state_ok d s" for s
    using that by (simp add: state_ok_def usable_state_def)
  then have "list_all (state_ok d) (update_where (usable_state st now) ?use xs)" if "list_all (state_ok d) xs" for xs
    using that unfolding update_where_def list_all_iff set_map by blast
  moreover have "unique_rows oidc_state_clash (update_where (usable_state st now) ?use xs)" if "unique_rows oidc_state_clash xs" for xs
    by (rule oidc_states.rows_update [OF that]) (simp add: clash_on_def)
  ultimately show ?thesis
    using assms False by (intro keeps_states [where rows = "update_where (usable_state st now) ?use (lti_oidc_states d)"])
      (auto simp: claim_state_def)
qed

lemma keeps_link: "save_link g k link d = (err, d') \<Longrightarrow> keeps_well_formed d d'"
proof -
  let ?same = "\<lambda>r. ls_session_id r = ls_session_id link"
  assume "save_link g k link d = (err, d')"
  then have d': "d' = d \<or> d' = d\<lparr>lti_link_sessions := (if list_ex ?same (lti_link_sessions d)
      then update_where ?same (\<lambda>_. link) (lti_link_sessions d) else lti_link_sessions d @ [link])\<rparr>"
    by (cases "stmt_fails g k") (simp_all only: save_link_def Let_def if_True if_False prod.inject simp_thms)
  have "map ls_session_id (update_where ?same (\<lambda>_. link) xs) = map ls_session_id xs" for xs
    by (simp add: update_where_def)
  moreover have "ls_session_id link \<notin> ls_session_id ` set xs" if "\<not> list_ex ?same xs" for xs
    using that unfolding list_ex_iff image_iff by metis
  ultimately have "distinct (map ls_session_id (if list_ex ?same xs then update_where ?same (\<lambda>_. link) xs else xs @ [link]))"
    if "distinct (map ls_session_id xs)" for xs
    using that by (cases "list_ex ?same xs") (simp_all only: if_True if_False, simp)
  with d' show ?thesis by (elim disjE) (simp_all add: keeps_refl keeps_well_formed_def grown_def db_well_formed_def)
qed

lemma item_rows_append:
  "unique_rows item_clash xs \<Longrightarrow> distinct (map i_id its) \<Longrightarrow> i_id ` set its \<inter> i_id ` set xs = {} \<Longrightarrow>
     unique_rows item_clash (xs @ its)"
proof (induction its arbitrary: xs)
  case (Cons it its)
  have "unique_rows item_clash (xs @ [it])"
    by (rule item_rows.rows_append [OF Cons.prems(1)]) (use Cons.prems(3) in \<open>auto simp: clash_on_def\<close>)
  moreover have "i_id ` set its \<inter> i_id ` set (xs @ [it]) = {}" using Cons.prems(2,3) by auto
  moreover have "distinct (map i_id its)" using Cons.prems(2) by simp
  ultimately have "unique_rows item_clash ((xs @ [it]) @ its)" using Cons.IH by blast
  then show ?case by simp
qed simp

lemma keeps_import:
  assumes "import_qti_package E g p files d = (r, files', d')"
  shows "keeps_well_formed d d'"
proof (cases r)
  case (Inl e)
  with assms show ?thesis
    using import_outcome [where E = E and g = g and p = p and files = files and d = d] by (simp add: keeps_refl)
next
  case (Inr its)
  with assms have "d' = d\<lparr>items := items d @ its\<rparr>" "distinct (map i_id its)" "i_id ` set its \<inter> i_id ` set (items d) = {}"
    using import_outcome [where E = E and g = g and p = p and files = files and d = d] by simp_all
  then show ?thesis
    unfolding keeps_well_formed_def grown_def db_well_formed_def
    by (auto simp: resource_link_ok_def state_ok_def event_ok_def log_ok_def list_all_iff intro!: item_rows_append)
qed

lemma keeps_log:
  assumes "log_ok d row"
  shows "keeps_well_formed d (log_webhook_result g row d)"
proof (cases "stmt_fails g 1 \<or> insert_row webhook_log_clash row (webhook_logs d) = None")
  case True
  then show ?thesis by (auto simp: log_webhook_result_def keeps_refl)
next
  case False
  then obtain rows where r: "insert_row webhook_log_clash row (webhook_logs d) = Some rows" by blast
  with False have d': "log_webhook_result g row d = d\<lparr>webhook_logs := rows\<rparr>" by (simp add: log_webhook_result_def)
  note unique = logs.rows_insert [OF _ r]
  have "rows = webhook_logs d @ [row]" using r by (simp add: insert_row_Some)
  with assms unique show ?thesis
    unfolding d' keeps_well_formed_def grown_def db_well_formed_def
    by (auto simp: resource_link_ok_def state_ok_def event_ok_def log_ok_def list_all_iff)
qed

lemma keeps_send_all:
  "set cs \<subseteq> set (webhook_configs d) \<Longrightarrow> keeps_well_formed d (snd (send_all E a gl i ev body cs d))"
proof (induction E a gl i ev body cs d rule: send_all.induct)
  case (2 E a gl i ev body c cs d)
  obtain rq row where sent: "send_webhook E (a i) c ev body = (rq, row)" by (cases "send_webhook E (a i) c ev body")
  then have "row = snd (send_webhook E (a i) c ev body)" by simp
  then have "wl_config_id row = wc_id c \<and> length (wl_response_body row) \<le> 4096
      \<and> (wl_is_success row \<longleftrightarrow> 200 \<le> wl_status_code row \<and> wl_status_code row < 300)"
    by (auto simp: send_webhook_def webhook_log_row_def Let_def split: sum.splits http_outcome.splits)
  with 2(2) have "log_ok d row" by (auto simp: log_ok_def)
  note logged = keeps_log [OF this, of "gl i"]
  then have "set cs \<subseteq> set (webhook_configs (log_webhook_result (gl i) row d))"
    using 2(2) by (auto simp: keeps_well_formed_def grown_def)
  from keeps_trans [OF logged 2(1) [OF sent [symmetric] refl this]] sent show ?case by (simp add: case_prod_beta)
qed (simp add: keeps_refl)

lemma keeps_worker:
  assumes "worker_iteration E g a gl ev d = (rqs, d')"
  shows "keeps_well_formed d d'"
proof -
  have "keeps_well_formed d (snd (worker_iteration E g a gl ev d))"
    by (auto simp: worker_iteration_def active_configs_def keeps_refl intro!: keeps_send_all split: option.splits)
  then show ?thesis by (simp add: assms)
qed

section \<open>The whole server\<close>

interpretation tables: served_relation keeps_well_formed D for D
  by unfold_locales
    (rule keeps_refl keeps_trans keeps_start keeps_save keeps_submit keeps_event keeps_platform keeps_resource_link
      keeps_config keeps_login keeps_claim keeps_link keeps_import keeps_worker; assumption)+

text \<open>In a well-formed database rows are found by their keys.\<close>

lemma well_formed_keys:
  assumes "db_well_formed d"
  shows "distinct (map p_id (lti_platforms d))" and "distinct (map (\<lambda>p. (p_issuer p, p_client_id p)) (lti_platforms d))"
    and "distinct (map os_state (lti_oidc_states d))" and "distinct (map wc_id (webhook_configs d))"
    and "distinct (map i_id (items d))"
  using assms by (auto simp: db_well_formed_def intro: platforms.keys_distinct platforms.indexes_distinct
      oidc_states.keys_distinct configs.keys_distinct item_rows.keys_distinct)

text \<open>
  Claim C9: the database stays well formed.  From a well-formed database every run of the server, with every
  request, worker, launch step and database failure, ends in one: platforms, resource links, login states,
  launched sessions, proctor events, webhook configurations, log entries and items respect their unique
  indexes; resource links name a platform and a delivery that exist, login states a registered platform,
  events an existing session, log entries an existing configuration; private keys and webhook tokens are
  stored encrypted; states live five minutes and are used before they expire; event contents are within
  their bounds; and a log entry keeps at most 4096 bytes and is successful exactly for status 200 to 299.
  Every session that was there still is, as the same attempt of the same user at the same delivery, with a
  status that has only gone forward.
\<close>
theorem server_keeps_tables:
  assumes "world_inv w0" and "db_well_formed (w_db w0)" and "server_run svc sc D w0 tr w"
  shows "db_well_formed (w_db w)
    \<and> (\<forall>s \<in> set (test_sessions (w_db w0)). \<exists>s' \<in> set (test_sessions (w_db w)). session_forward s s')"
  using tables.rel_server_run [OF assms(3,1)] assms(2)
  by (simp add: keeps_well_formed_def grown_def sessions_forward_def)

end
