(* ===== verification/LtiWitnesses.thy ===== *)
theory LtiWitnesses
  imports LtiHandler LtiGrades Demo
begin

text \<open>
  The LTI properties on a concrete platform: one that serves everything under \<open>https://p.ex\<close>, with a
  cached 2048-bit key that it has answered before, and maps a resource link to the demonstration delivery.
\<close>

section \<open>A platform\<close>

definition lms_url :: string where
  "lms_url = ''https://p.ex''"

definition lms_parsed :: url where
  "lms_parsed = \<lparr>url_scheme = ''https'', url_has_user = False, url_host = ''p.ex'', url_hostname = ''p.ex'',
     url_path = [], url_raw_query = [], url_fragment = []\<rparr>"

definition lms_net :: net where
  "lms_net =
     \<lparr>net_url_parse = (\<lambda>s. if s = lms_url then Some lms_parsed
        else if s = lms_url @ ''/scores'' then Some (lms_parsed\<lparr>url_path := ''/scores''\<rparr>) else None),
      net_url_string = (\<lambda>u. url_scheme u @ ''://'' @ url_host u @ url_path u @ url_raw_query u),
      net_parse_ip = (\<lambda>_. None), net_lookup_ip = (\<lambda>_. None), net_split_host_port = (\<lambda>_. None)\<rparr>"

definition lms_private :: rsa_private_key where
  "lms_private = \<lparr>pk_modulus = 2 ^ 2047, pk_exponent = 65537\<rparr>"

definition lms_env :: lti_env where
  "lms_env = \<lparr>lv_unicode = ascii_unicode, lv_net = lms_net, lv_cipher = Some sample_aead,
     lv_keys = \<lparr>kl_pem_decode = (\<lambda>_. Some []), kl_pkcs1 = (\<lambda>_. Some lms_private), kl_pkcs8 = (\<lambda>_. None),
       kl_validate = (\<lambda>_. True)\<rparr>,
     lv_sha256 = (\<lambda>_. [])\<rparr>"

definition lms_key :: rsa_public_key where
  "lms_key = \<lparr>rp_modulus = 2 ^ 2047, rp_exponent = 65537\<rparr>"

lemma bit_len_power: "bit_len (2 ^ n) = Suc n"
proof -
  have pos: "(0 :: int) < 2 ^ n" by simp
  note b = bit_len_bounds [OF pos]
  then have "(2 :: int) ^ (bit_len (2 ^ n) - 1) \<le> 2 ^ n" "(2 :: int) ^ n < 2 ^ bit_len (2 ^ n)" by simp_all
  then have "bit_len (2 ^ n) - 1 \<le> n" "n < bit_len (2 ^ n)" by (simp_all only: power_increasing_iff power_strict_increasing_iff one_less_numeral_iff semiring_norm)
  then show ?thesis by simp
qed

lemma lms_key_strong: "strong_key lms_key"
proof -
  have "bit_len (int (rp_modulus lms_key)) = 2048"
    using bit_len_power [of 2047] by (simp only: lms_key_def rsa_public_key.simps of_nat_power of_nat_numeral)
  then show ?thesis by (simp add: strong_key_def) (simp add: lms_key_def)
qed

definition lms_cache :: jwks_cache where
  "lms_cache = [(lms_url, \<lparr>ck_keys = [(''k'', lms_key)], ck_expires_at = 100\<rparr>)]"

lemma lms_cache_strong: "cache_strong lms_cache"
  by (simp add: cache_strong_def lms_cache_def lms_key_strong)

lemma lms_constants [simp]:
  "lv_unicode lms_env = ascii_unicode" "lv_net lms_env = lms_net" "lv_cipher lms_env = Some sample_aead"
  by (simp_all add: lms_env_def)

lemma lms_trim [simp]: "trim_space lms_url = lms_url"
  by (simp add: lms_url_def go_simps)

lemma lms_parse [simp]: "net_url_parse lms_net lms_url = Some lms_parsed" "parse_https_url lms_net lms_url = Some lms_parsed"
  by (simp_all add: lms_net_def parse_https_url_def lms_parsed_def)

lemma lms_host [simp]: "to_lower ascii_unicode ''p.ex'' = ''p.ex''" "normal_host ascii_unicode ''p.ex'' = ''p.ex''"
  by (simp_all add: normal_host_def go_simps)

lemma lms_policy: "new_outbound_policy ascii_unicode [''p.ex''] = Some \<lparr>allowed_hosts = [''p.ex'']\<rparr>"
  by (simp add: new_outbound_policy_def go_simps)

lemma lms_allowed: "host_allowed ascii_unicode \<lparr>allowed_hosts = [''p.ex'']\<rparr> ''p.ex''"
  by (simp add: host_allowed_def host_matches_def go_simps)

lemma lms_valid [simp]:
  "validate_url ascii_unicode lms_net \<lparr>allowed_hosts = [''p.ex'']\<rparr> lms_url = Inr lms_parsed"
  using lms_allowed
  by (simp add: validate_url_def Let_def lms_parsed_def local_name_def) (simp add: lms_net_def go_simps)

section \<open>A launch\<close>

definition lms_platform :: lti_platform where
  "lms_platform =
     \<lparr>p_id = ''p1'', p_issuer = lms_url, p_client_id = ''c'', p_keyset_url = lms_url, p_auth_token_url = lms_url,
      p_auth_login_url = lms_url, p_tool_launch_url = lms_url, p_key_id = ''kid'', p_private_key = [],
      p_public_key = [], p_created_at = 0\<rparr>"

definition lms_state :: lti_oidc_state where
  "lms_state = oidc_state_row 0 ''st'' ''n'' lms_platform lms_url []"

definition lms_db :: db where
  "lms_db = demo_db\<lparr>lti_platforms := [lms_platform],
     lti_oidc_states := [lms_state],
     lti_resource_links := [\<lparr>rl_id = ''l1'', rl_platform_id = ''p1'', rl_deployment_id = ''d'',
       rl_resource_link_id = ''r'', rl_delivery_id = ''delivery-demo-01'', rl_created_at = 0\<rparr>]\<rparr>"

definition lms_claims :: lti_claims where
  "lms_claims = \<lparr>lc_subject = ''u'', lc_issuer = lms_url, lc_audience = [''c''], lc_issued_at = Some 0,
     lc_expires_at = Some 10, lc_nonce = ''n'', lc_message_type = ''LtiResourceLinkRequest'', lc_version = ''1.3.0'',
     lc_deployment_id = ''d'', lc_target_link_uri = lms_url, lc_resource_link_id = ''r'', lc_roles = [''Learner''],
     lc_lineitem = [], lc_scopes = []\<rparr>"

definition lms_launch :: launch_env where
  "lms_launch =
     \<lparr>la_gorm = healthy, la_session_gorm = healthy, la_now = 1, la_key_now = 1, la_cache_now = 1, la_parse_now = 1,
      la_start_now = 1, la_link_now = 1, la_new_id = ''s1'',
      la_io = \<lparr>io_http = (\<lambda>_. None), io_new_request_ok = (\<lambda>_. True), io_jwks = (\<lambda>_. None), io_access_token = (\<lambda>_. None)\<rparr>,
      la_jwt = \<lparr>lj_header = (\<lambda>_. Some \<lparr>th_alg = ''RS256'', th_kid = Some ''k''\<rparr>), lj_parse = (\<lambda>_ _ _ _. Some lms_claims)\<rparr>\<rparr>"

definition lms_session :: test_session where
  "lms_session = new_session healthy 1 ''s1'' ''delivery-demo-01'' ''lti:'' 0"

lemma lms_user: "lti_user_id lms_env lms_url ''u'' = ''lti:''"
  by (simp add: lti_user_id_def lms_env_def)

lemma lms_verified:
  "verify_launch lms_env lms_launch ''tok'' ''st'' lms_cache lms_db =
     (Inr \<lparr>vl_state = lms_state, vl_platform = lms_platform, vl_claims = lms_claims,
           vl_link = hd (lti_resource_links lms_db)\<rparr>, lms_cache)"
proof -
  have state: "find_state lms_launch ''st'' lms_db = Some lms_state"
    by (simp add: find_state_def lms_launch_def first_by_def lms_db_def usable_state_def lms_state_def oidc_state_row_def
        minute_def second_def)
  have platform: "find_platform healthy lms_url ''c'' lms_db = Some lms_platform"
    by (simp add: find_platform_def first_by_def lms_db_def lms_platform_def)
  have match: "claims_match lms_claims lms_state"
    by (simp add: claims_match_def lms_claims_def lms_state_def oidc_state_row_def)
  have claims: "verified_claims lms_env lms_launch ''tok'' lms_platform lms_state lms_cache = (Some lms_claims, lms_cache)"
    using match by (simp add: verified_claims_def lms_launch_def token_key_id_def signing_key_def lms_cache_def lms_platform_def)
  have link: "find_resource_link lms_launch lms_platform lms_claims lms_db = Some (hd (lti_resource_links lms_db))"
    by (simp add: find_resource_link_def lms_launch_def first_by_def lms_db_def lms_platform_def lms_claims_def)
  have item: "lineitem_ok lms_env lms_platform lms_claims"
    by (simp add: lineitem_ok_def lms_claims_def)
  have row: "os_issuer lms_state = lms_url" "os_client_id lms_state = ''c''"
    by (simp_all add: lms_state_def oidc_state_row_def lms_platform_def)
  have gorm: "la_gorm lms_launch = healthy" by (simp add: lms_launch_def)
  show ?thesis by (simp add: verify_launch_def state platform claims link item row gorm)
qed

definition lms_claimed :: db where
  "lms_claimed = lms_db\<lparr>lti_oidc_states := [lms_state\<lparr>os_used_at := Some 1\<rparr>]\<rparr>"

definition lms_launched :: db where
  "lms_launched = lms_claimed\<lparr>test_sessions := [lms_session],
     lti_link_sessions := [link_session_row 1 lms_session lms_platform lms_claims]\<rparr>"

lemma lms_claim: "claim_state healthy 4 ''st'' 1 lms_db = (True, lms_claimed)"
  by (simp add: claim_state_def lms_db_def lms_claimed_def usable_state_def lms_state_def oidc_state_row_def
      minute_def second_def)

lemma lms_start:
  "start_session healthy 1 ''s1'' ''delivery-demo-01'' ''lti:'' lms_claimed
     = (Inr lms_session, lms_claimed\<lparr>test_sessions := [lms_session]\<rparr>)"
  by (simp add: start_session_def transaction_def start_session_tx_def first_by_def delivery_closed_def
      check_groups_def restricted_group_count_def latest_open_session_def effective_max_attempts_def
      attempts_of_def insert_row_def lms_session_def [symmetric] lms_claimed_def lms_db_def go_simps)

lemma lms_handle_launch:
  "handle_launch lms_env lms_launch (\<lambda>_ d. d) ''tok'' ''st'' lms_cache lms_db = (Inr lms_session, lms_cache, lms_launched)"
proof -
  have gorm: "la_gorm lms_launch = healthy" "la_session_gorm lms_launch = healthy" "la_now lms_launch = 1"
      "la_start_now lms_launch = 1" "la_new_id lms_launch = ''s1''" "la_link_now lms_launch = 1"
    by (simp_all add: lms_launch_def)
  have link: "rl_delivery_id (hd (lti_resource_links lms_db)) = ''delivery-demo-01''" by (simp add: lms_db_def)
  have user: "lti_user_id lms_env (p_issuer lms_platform) (lc_subject lms_claims) = ''lti:''"
    using lms_user by (simp add: lms_platform_def lms_claims_def)
  have save: "save_link healthy 5 (link_session_row 1 lms_session lms_platform lms_claims)
      (lms_claimed\<lparr>test_sessions := [lms_session]\<rparr>) = (None, lms_launched)"
  proof -
    have "lti_link_sessions lms_claimed = []"
      by (simp add: lms_claimed_def lms_db_def demo_db_def seed_demo_data_def empty_db_def)
    then show ?thesis by (simp add: save_link_def lms_launched_def)
  qed
  show ?thesis
    by (simp add: handle_launch_def lms_verified gorm link user lms_claim lms_start save)
qed

text \<open>The exchange in which the platform has answered its key set, with the cached key.\<close>

definition lms_jwk :: jwk where
  "lms_jwk = \<lparr>jk_kty = ''RSA'', jk_kid = ''k'', jk_use = ''sig'', jk_alg = ''RS256'',
     jk_n = raw_url_encode (128 # replicate 255 0), jk_e = raw_url_encode [1, 0, 1]\<rparr>"

definition lms_keys_io :: lti_io where
  "lms_keys_io = \<lparr>io_http = (\<lambda>rq. if rq = jwks_request ''https://p.ex''
       then Some (200, \<lparr>body_bytes = ''{}'', body_breaks = False\<rparr>) else None),
     io_new_request_ok = (\<lambda>_. True), io_jwks = (\<lambda>_. Some [lms_jwk]), io_access_token = (\<lambda>_. None)\<rparr>"

lemma bytes_value_zeros: "bytes_value a (replicate n 0) = a * 256 ^ n"
  by (induction n arbitrary: a) (simp_all add: algebra_simps)

lemma lms_key_answered: "answered_key (lms_env, lms_keys_io) lms_url ''k'' lms_key"
proof -
  have n: "raw_url_decode (jk_n lms_jwk) = Some (128 # replicate 255 0)"
    unfolding lms_jwk_def by (simp only: jwk.simps) (rule raw_url_round_trip, auto)
  have e: "raw_url_decode (jk_e lms_jwk) = Some [1, 0, 1]"
    unfolding lms_jwk_def by (simp only: jwk.simps) (rule raw_url_round_trip, simp)
  have "(2 :: nat) ^ 2047 = 2 ^ (7 + 8 * 255)" by simp
  also have "\<dots> = 128 * 256 ^ 255" unfolding power_add power_mult by simp
  finally have "bytes_value 0 (128 # replicate 255 0) = 2 ^ 2047" by (simp only: bytes_value.simps bytes_value_zeros) simp
  then have key: "lms_key = \<lparr>rp_modulus = bytes_value 0 (128 # replicate 255 0), rp_exponent = int (bytes_value 0 [1, 0, 1])\<rparr>"
    by (simp only: lms_key_def) simp
  have io: "io_jwks lms_keys_io t = Some [lms_jwk]" for t by (simp add: lms_keys_io_def)
  have http: "io_http lms_keys_io \<lparr>lq_method = ''GET'', lq_url = net_url_string lms_net (lms_parsed\<lparr>url_fragment := []\<rparr>),
      lq_headers = [], lq_body = []\<rparr> = Some (200, \<lparr>body_bytes = ''{}'', body_breaks = False\<rparr>)"
    by (simp add: lms_keys_io_def jwks_request_def) (simp add: lms_net_def lms_parsed_def)
  have jwk: "jk_kty lms_jwk = ''RSA''" "jk_kid lms_jwk = ''k''" by (simp_all add: lms_jwk_def)
  have u: "net_url_parse lms_net (trim_space lms_url) = Some lms_parsed" "url_scheme lms_parsed = ''https''"
    by simp (simp add: lms_parsed_def)
  show ?thesis
    unfolding answered_key_def
    by (rule exI [of _ lms_parsed], rule exI [of _ "\<lparr>body_bytes = ''{}'', body_breaks = False\<rparr>"],
        rule exI [of _ "[lms_jwk]"], rule exI [of _ lms_jwk], rule exI [of _ "128 # replicate 255 0"],
        rule exI [of _ "[1, 0, 1]"])
      (simp only: u http io n e key jwk fst_conv snd_conv lms_constants request_body.simps list.set_intros simp_thms)
qed

lemma lms_cache_from: "cache_from {(lms_env, lms_keys_io)} lms_cache"
  using lms_key_answered by (simp add: cache_from_def lms_cache_def)

lemma launch_verified_witness:
  "\<exists>p kid key A. p \<in> set (lti_platforms lms_db)
     \<and> lj_header (la_jwt lms_launch) ''tok'' = Some \<lparr>th_alg = ''RS256'', th_kid = Some kid\<rparr>
     \<and> strong_key key \<and> answered_key A (p_keyset_url p) kid key
     \<and> link_session_row 1 lms_session p lms_claims \<in> set (lti_link_sessions lms_launched)"
proof -
  from launch_verified [OF lms_handle_launch lms_cache_strong lms_cache_from] obtain p cl kid key A where
    r: "p \<in> set (lti_platforms lms_db)" "lj_header (la_jwt lms_launch) ''tok'' = Some \<lparr>th_alg = ''RS256'', th_kid = Some kid\<rparr>"
      "strong_key key" "answered_key A (p_keyset_url p) kid key"
      "lj_parse (la_jwt lms_launch) (launch_key kid key) (launch_options p) (la_parse_now lms_launch) ''tok'' = Some cl"
      "link_session_row (la_link_now lms_launch) lms_session p cl \<in> set (lti_link_sessions lms_launched)"
    by blast
  from r(5) have "cl = lms_claims" by (simp add: lms_launch_def)
  moreover have "la_link_now lms_launch = 1" by (simp add: lms_launch_def)
  ultimately have "link_session_row 1 lms_session p lms_claims \<in> set (lti_link_sessions lms_launched)" using r(6) by simp
  with r(1-4) show ?thesis by blast
qed

definition lms_handler :: lti_handler_env where
  "lms_handler =
     \<lparr>lh_env = lms_env, lh_media_type = (\<lambda>_. Some ''multipart/form-data''),
      lh_other_form = (\<lambda>_ _. [(''id_token'', [''tok'']), (''state'', [''st''])]),
      lh_bind_platform = (\<lambda>_. None), lh_bind_link = (\<lambda>_. None),
      lh_jwt = sample_jwt\<lparr>jwt_parse := (\<lambda>cfg t tok. Some (issued_claims 0 0 ''lti:'' [''STUDENT''] sample_jwt_config (3600 * second)))\<rparr>,
      lh_config = sample_jwt_config, lh_token_ttl = 3600 * second\<rparr>"

lemma lms_form:
  "get_header c ''Content-Type'' \<noteq> [] \<Longrightarrow> cx_raw_query c = [] \<Longrightarrow>
     parse_lti_form lms_handler c = Form [(''id_token'', [''tok'']), (''state'', [''st''])]"
  by (simp add: parse_lti_form_def lms_handler_def query_malformed_def)

lemma lms_handler_launch:
  assumes "get_header c ''Content-Type'' \<noteq> []" and "cx_raw_query c = []"
  shows "\<exists>ex. launch_handler lms_handler lms_launch (\<lambda>_ d. d) 0 0 c lms_cache lms_db
     = ((200, LtiSession lms_session ''tok'' ex), lms_cache, lms_launched)"
proof -
  note form = lms_form [OF assms]
  have tok: "generate_jwt (lh_jwt lms_handler) 0 0 ''lti:'' [''STUDENT''] sample_jwt_config (3600 * second) = Inr ''tok''"
    by (simp add: generate_jwt_def sample_config_valid sample_jwt_def second_def lms_handler_def go_simps)
  have user: "s_user_id lms_session = ''lti:''" by (simp add: lms_session_def new_session_def)
  have env: "lh_env lms_handler = lms_env" "lh_config lms_handler = sample_jwt_config" "lh_token_ttl lms_handler = 3600 * second"
    by (simp_all add: lms_handler_def)
  show ?thesis
    by (simp add: launch_handler_def form env values_get_def lms_handle_launch tok user)
qed

lemma launch_token_authenticates_witness:
  "jwt_auth (lh_jwt lms_handler) sample_jwt_config second sample_server (sample_request ''Bearer tok'') =
     (sample_server, Next (ctx_set ''user_roles'' (CtxStrings [''STUDENT'']) (ctx_set ''user_id'' (CtxString ''lti:'')
        (sample_request ''Bearer tok''))))"
proof -
  obtain ex where run: "launch_handler lms_handler lms_launch (\<lambda>_ d. d) 0 0 (sample_request ''x'') lms_cache lms_db
     = ((200, LtiSession lms_session ''tok'' ex), lms_cache, lms_launched)"
    using lms_handler_launch [of "sample_request ''x''"] by (auto simp: get_header_def sample_request_def)
  have user: "s_user_id lms_session = ''lti:''" by (simp add: lms_session_def new_session_def)
  have env: "lh_config lms_handler = sample_jwt_config" "lh_token_ttl lms_handler = 3600 * second"
    by (simp_all add: lms_handler_def)
  have "parses_own_tokens (lh_jwt lms_handler) (lh_config lms_handler)
      (issued_claims 0 0 (s_user_id lms_session) [''STUDENT''] (lh_config lms_handler) (lh_token_ttl lms_handler))"
    by (simp add: parses_own_tokens_def user env) (simp add: lms_handler_def)
  moreover have "0 \<le> second" "second \<le> 0 + lh_token_ttl lms_handler - second"
    by (simp_all add: env second_def)
  moreover have "get_header (sample_request ''Bearer tok'') ''Authorization'' = ''Bearer '' @ ''tok''"
    by (simp add: get_header_def sample_request_def)
  ultimately show ?thesis
    using launch_token_authenticates [OF run, of second "sample_request ''Bearer tok''" sample_server]
    unfolding user env by blast
qed

section \<open>Logins and grades\<close>

lemma lms_login:
  "\<exists>url d'. initiate_login lms_env healthy 2 ''st2'' ''n2'' lms_url ''c'' lms_url ''hint'' [] lms_db = (LoginRedirect url, d')"
proof -
  have platform: "find_platform healthy lms_url ''c'' lms_db = Some lms_platform"
    by (simp add: find_platform_def first_by_def lms_db_def lms_platform_def)
  have trim: "trim_right_set ''/'' lms_url = lms_url" by (simp add: lms_url_def trim_right_set_def)
  have origin: "same_origin ascii_unicode lms_net lms_url (p_tool_launch_url lms_platform)"
    by (simp add: same_origin_def lms_platform_def)
  have insert: "insert_row oidc_state_clash (oidc_state_row 2 ''st2'' ''n2'' lms_platform lms_url []) (lti_oidc_states lms_db)
      = Some (lti_oidc_states lms_db @ [oidc_state_row 2 ''st2'' ''n2'' lms_platform lms_url []])"
    by (simp add: insert_row_Some clash_on_def lms_db_def lms_state_def oidc_state_row_def)
  have login: "p_auth_login_url lms_platform = lms_url" by (simp add: lms_platform_def)
  have short: "length lms_url \<le> 255" by (simp add: lms_url_def)
  have hint: "trim_space ''hint'' = ''hint''" by (simp add: go_simps)
  show ?thesis
    using short by (simp add: initiate_login_def trim platform origin insert hint login_redirect_def login)
qed

lemma login_redirects_with_state_witness:
  "\<exists>url d' s. initiate_login lms_env healthy 2 ''st2'' ''n2'' lms_url ''c'' lms_url ''hint'' [] lms_db = (LoginRedirect url, d')
     \<and> s \<in> set (lti_oidc_states d') \<and> os_state s = ''st2'' \<and> os_nonce s = ''n2'' \<and> os_used_at s = None"
proof -
  obtain url d' where run:
    "initiate_login lms_env healthy 2 ''st2'' ''n2'' lms_url ''c'' lms_url ''hint'' [] lms_db = (LoginRedirect url, d')"
    using lms_login by blast
  from login_redirects_with_state [OF run] run show ?thesis by blast
qed

definition lms_grades :: grade_env where
  "lms_grades =
     \<lparr>ge_gorm = healthy,
      ge_io = \<lparr>io_http = (\<lambda>_. Some (200, \<lparr>body_bytes = ''{}'', body_breaks = False\<rparr>)), io_new_request_ok = (\<lambda>_. True),
        io_jwks = (\<lambda>_. None), io_access_token = (\<lambda>_. Some ''at'')\<rparr>,
      ge_token_now = 0, ge_token_id = ''t'', ge_sign = (\<lambda>_ _ _. Some ''signed''), ge_score_now = 0,
      ge_sql_sum = (\<lambda>_. Fin 20), ge_float_text = (\<lambda>_. Some ''10'')\<rparr>"

lemma lms_post:
  "post_to lms_env (ge_io lms_grades) lms_url [''p.ex''] mk =
     (Inr (200, \<lparr>body_bytes = ''{}'', body_breaks = False\<rparr>), [mk ''https://p.ex''])"
  by (simp add: post_to_def safe_client_def lms_policy lms_grades_def) (simp add: lms_net_def lms_parsed_def)

lemma lms_hostnames:
  "hostnames ascii_unicode lms_net [lms_url] = [''p.ex'']" "hostnames ascii_unicode lms_net [lms_url, lms_url] = [''p.ex'']"
  by (simp_all add: hostnames_def Let_def lms_parsed_def)

lemma lms_post_scores:
  "post_to lms_env (ge_io lms_grades) (lms_url @ ''/scores'') [''p.ex''] mk =
     (Inr (200, \<lparr>body_bytes = ''{}'', body_breaks = False\<rparr>), [mk ''https://p.ex/scores''])"
proof -
  have "trim_space (lms_url @ ''/scores'') = lms_url @ ''/scores''" by (simp add: lms_url_def go_simps)
  moreover have "net_url_parse lms_net (lms_url @ ''/scores'') = Some (lms_parsed\<lparr>url_path := ''/scores''\<rparr>)"
      "net_parse_ip lms_net ''p.ex'' = None"
    by (simp_all add: lms_net_def)
  moreover have "\<not> local_name ''p.ex''" by (simp add: local_name_def go_simps)
  ultimately have "validate_url ascii_unicode lms_net \<lparr>allowed_hosts = [''p.ex'']\<rparr> (lms_url @ ''/scores'')
      = Inr (lms_parsed\<lparr>url_path := ''/scores''\<rparr>)"
    using lms_allowed by (simp add: validate_url_def Let_def lms_parsed_def)
  then show ?thesis
    by (simp add: post_to_def safe_client_def lms_policy lms_grades_def) (simp add: lms_net_def lms_parsed_def)
qed

text \<open>A platform with an encrypted key, and the session linked to its line item.\<close>

definition graded_db :: "string \<Rightarrow> db" where
  "graded_db stored = demo_db\<lparr>lti_platforms := [lms_platform\<lparr>p_private_key := stored\<rparr>],
     lti_link_sessions := [link_session_row 1 lms_session lms_platform (lms_claims\<lparr>lc_lineitem := lms_url\<rparr>)]\<rparr>"

lemma lms_stored_key: "\<exists>stored. decrypt (Some sample_aead) stored = Inr ''pem''"
proof -
  obtain stored where "encrypt (Some sample_aead) (\<lambda>n. Some (replicate n 7)) ''pem'' = Inr stored"
    by (simp add: encrypt_def)
  then show ?thesis using cipher.get_put [OF sample_sound] by blast
qed

lemma lms_maximum:
  "delivery_maximum_score (ge_sql_sum lms_grades) (ge_gorm lms_grades) 3 (s_delivery_id lms_session) (graded_db stored) = Inr (Fin 20)"
proof -
  have "score_products ''delivery-demo-01'' (graded_db stored) = [f64_mul (Fin 10) (Fin 1), f64_mul (Fin 10) (Fin 1)]"
    by (simp add: score_products_def graded_db_def demo_item_1_def demo_item_2_def)
  then show ?thesis by (simp add: delivery_maximum_score_def lms_grades_def lms_session_def new_session_def)
qed

lemma lms_submit_grade:
  assumes "decrypt (Some sample_aead) stored = Inr ''pem''"
  shows "\<exists>rq1 rq2. submit_grade lms_env lms_grades lms_session (graded_db stored) = (None, [rq1, rq2])"
proof -
  let ?l = "link_session_row 1 lms_session lms_platform (lms_claims\<lparr>lc_lineitem := lms_url\<rparr>)"
  let ?p = "lms_platform\<lparr>p_private_key := stored\<rparr>"
  have link: "first_by (pk_le (ge_gorm lms_grades)) ls_session_id (\<lambda>l. ls_session_id l = s_id lms_session)
      (lti_link_sessions (graded_db stored)) = Some ?l" "ls_lineitem_url ?l \<noteq> []" "ls_platform_id ?l = p_id ?p"
    by (simp_all add: first_by_def graded_db_def link_session_row_def lms_platform_def lms_url_def)
  have platform: "first_by (pk_le (ge_gorm lms_grades)) p_id (\<lambda>p. p_id p = p_id ?p) (lti_platforms (graded_db stored)) = Some ?p"
    by (simp add: first_by_def graded_db_def)
  have key: "decrypt (lv_cipher lms_env) (p_private_key ?p) = Inr ''pem''"
      "parse_rsa_private_key (lv_keys lms_env) ''pem'' = Inr lms_private"
    using assms by (simp_all add: parse_rsa_private_key_def lms_env_def)
  have urls: "p_auth_token_url ?p = lms_url" "p_issuer ?p = lms_url" "ls_lineitem_url ?l = lms_url"
    by (simp_all add: lms_platform_def link_session_row_def)
  have token: "\<exists>rq. fetch_access_token lms_env lms_grades ?p lms_private = (Inr ''at'', [rq])"
  proof -
    have "p_auth_token_url lms_platform = lms_url" by (simp add: lms_platform_def)
    moreover have "ge_sign lms_grades k i a = Some ''signed''" "io_access_token (ge_io lms_grades) x = Some ''at''" for k i a x
      by (simp_all add: lms_grades_def)
    ultimately show ?thesis by (simp add: fetch_access_token_def lms_hostnames lms_post)
  qed
  have trim: "trim_right_set ''/'' lms_url = lms_url" by (simp add: lms_url_def trim_right_set_def)
  have json: "\<exists>body. grade_json (ge_float_text lms_grades) (grade_payload lms_grades lms_session ?l (Fin 20)) = Some body"
    by (simp add: grade_json_def) (simp add: lms_grades_def)
  have fails: "\<not> stmt_fails (ge_gorm lms_grades) k" for k by (simp add: lms_grades_def)
  from token json obtain rq body where tj: "fetch_access_token lms_env lms_grades ?p lms_private = (Inr ''at'', [rq])"
      "grade_json (ge_float_text lms_grades) (grade_payload lms_grades lms_session ?l (Fin 20)) = Some body" by blast
  have "\<exists>rq2. send_grade lms_env lms_grades lms_session ?l ?p (graded_db stored) = (None, [rq, rq2])"
    using assms key(2) tj trim urls lms_maximum lms_hostnames lms_post_scores by (simp add: send_grade_def)
  with fails link platform show ?thesis by (auto simp: submit_grade_def)
qed

lemma grade_passback_witness:
  "\<exists>stored rq1 rq2 l p tok. submit_grade lms_env lms_grades lms_session (graded_db stored) = (None, [rq1, rq2])
     \<and> token_sent lms_env p rq1 \<and> token_won lms_grades rq1 tok
     \<and> score_sent lms_env lms_grades lms_session l p (graded_db stored) tok rq2 \<and> answered_ok lms_grades rq2"
proof -
  obtain stored rq1 rq2 where run: "submit_grade lms_env lms_grades lms_session (graded_db stored) = (None, [rq1, rq2])"
    using lms_stored_key lms_submit_grade by blast
  have "distinct (map ls_session_id (lti_link_sessions (graded_db stored)))" by (simp add: graded_db_def)
  from grade_passback [OF run this] obtain l p tok where "token_sent lms_env p rq1" "token_won lms_grades rq1 tok"
      "score_sent lms_env lms_grades lms_session l p (graded_db stored) tok rq2" "answered_ok lms_grades rq2"
    by (auto split: if_split_asm)
  with run show ?thesis by blast
qed

text \<open>The platform as its administrator submits it, with its private key in the clear.\<close>

definition lms_submitted :: lti_platform where
  "lms_submitted = lms_platform\<lparr>p_private_key := ''pem''\<rparr>"

lemma lms_private_acceptable: "acceptable_private_key lms_private"
proof -
  have "bit_len (int (pk_modulus lms_private)) = 2048"
    using bit_len_power [of 2047] by (simp only: lms_private_def rsa_private_key.simps of_nat_power of_nat_numeral)
  then show ?thesis by (simp add: acceptable_private_key_def rem_int_2) (simp add: lms_private_def rem_int_2)
qed

lemma lms_registration:
  "\<exists>stored d'. register_platform lms_env healthy 0 ''x'' (\<lambda>n. Some (replicate n 7)) lms_submitted empty_db
     = (Inr (lms_platform\<lparr>p_private_key := stored\<rparr>), d') \<and> decrypt (Some sample_aead) stored = Inr ''pem''"
proof -
  obtain stored where enc: "encrypt (Some sample_aead) (\<lambda>n. Some (replicate n 7)) ''pem'' = Inr stored"
    by (simp add: encrypt_def)
  have trims: "trim_right_set ''/'' lms_url = lms_url" "trim_space ''c'' = ''c''" "trim_space ''kid'' = ''kid''"
    by (simp_all add: lms_url_def trim_right_set_def go_simps)
  have ne: "lms_url \<noteq> []" by (simp add: lms_url_def)
  have url: "check_platform_url lms_env lms_url = None"
    by (simp add: check_platform_url_def) (simp add: lms_parsed_def lms_policy lms_valid [unfolded lms_parsed_def])
  have keys: "parse_rsa_private_key (lv_keys lms_env) ''pem'' = Inr lms_private" "kl_validate (lv_keys lms_env) lms_private"
    by (simp_all add: parse_rsa_private_key_def lms_env_def)
  have "prepare_platform lms_env 0 ''x'' (\<lambda>n. Some (replicate n 7)) lms_submitted = Inr (lms_platform\<lparr>p_private_key := stored\<rparr>)"
    using trims url keys enc lms_private_acceptable ne
    by (simp add: prepare_platform_def protect_private_key_def lms_submitted_def lms_platform_def Let_def zero_time_def)
  then show ?thesis
    using cipher.get_put [OF sample_sound enc] by (auto simp: register_platform_def insert_row_def empty_db_def)
qed

lemma registered_key_signs_witness:
  "\<exists>stored d' rq1 rq2 assertion t.
     register_platform lms_env healthy 0 ''x'' (\<lambda>n. Some (replicate n 7)) lms_submitted empty_db
       = (Inr (lms_platform\<lparr>p_private_key := stored\<rparr>), d')
     \<and> submit_grade lms_env lms_grades lms_session (graded_db stored) = (None, [rq1, rq2])
     \<and> rq1 = token_request t assertion
     \<and> ge_sign lms_grades lms_private ''kid'' (client_assertion lms_grades (lms_platform\<lparr>p_private_key := stored\<rparr>)) = Some assertion"
proof -
  obtain stored d' where reg:
    "register_platform lms_env healthy 0 ''x'' (\<lambda>n. Some (replicate n 7)) lms_submitted empty_db
       = (Inr (lms_platform\<lparr>p_private_key := stored\<rparr>), d')" and key: "decrypt (Some sample_aead) stored = Inr ''pem''"
    using lms_registration by blast
  obtain rq1 rq2 where run: "submit_grade lms_env lms_grades lms_session (graded_db stored) = (None, [rq1, rq2])"
    using lms_submit_grade [OF key] by blast
  have env: "lv_cipher lms_env = Some sample_aead" by simp
  have submitted: "p_private_key lms_submitted = ''pem''" "p_private_key lms_submitted \<noteq> []" by (simp_all add: lms_submitted_def)
  have rows: "\<forall>q \<in> set (lti_platforms (graded_db stored)). p_id q = p_id (lms_platform\<lparr>p_private_key := stored\<rparr>)
      \<longrightarrow> q = lms_platform\<lparr>p_private_key := stored\<rparr>"
    "\<forall>l \<in> set (lti_link_sessions (graded_db stored)). ls_session_id l = s_id lms_session
      \<longrightarrow> ls_platform_id l = p_id (lms_platform\<lparr>p_private_key := stored\<rparr>)"
    by (simp_all add: graded_db_def link_session_row_def)
  have "parse_rsa_private_key (lv_keys lms_env) ''pem'' = Inr lms_private"
    by (simp add: parse_rsa_private_key_def lms_env_def)
  moreover have "p_key_id (lms_platform\<lparr>p_private_key := stored\<rparr>) = ''kid''" by (simp add: lms_platform_def)
  ultimately obtain assertion t where "rq1 = token_request t assertion"
    "ge_sign lms_grades lms_private ''kid'' (client_assertion lms_grades (lms_platform\<lparr>p_private_key := stored\<rparr>)) = Some assertion"
    using registered_key_signs [OF reg submitted(2) env sample_sound rows run] submitted(1) by auto
  with reg run show ?thesis by blast
qed

end
