(* ===== verification/ServerWitnesses.thy ===== *)
theory ServerWitnesses
  imports SessionMachine ServerStates ServerTables ApiWitnesses LtiWitnesses
begin

text \<open>
  The properties of the whole server on concrete runs: \<open>alice\<close> starts a session over HTTP, answers an
  item and submits; \<open>bob\<close> sends requests beside her; a server starts, a schema is migrated.
\<close>

section \<open>Requests\<close>

definition sample_qti_item :: qti_item where
  "sample_qti_item =
     \<lparr>qi_identifier = ''q1'', qi_title = ''t'', qi_correct = [''y''], qi_default_value = Fin 2,
      qi_response_identifier = ''R'', qi_max_choices = 1, qi_prompt = ''p'',
      qi_choices = [\<lparr>qc_identifier = ''x'', qc_text = ''1''\<rparr>, \<lparr>qc_identifier = ''y'', qc_text = ''2''\<rparr>]\<rparr>"

definition sample_qti :: qti_env where
  "sample_qti =
     \<lparr>qe_unicode = ascii_unicode, qe_detect = (\<lambda>_. ''application/octet-stream''), qe_xml = (\<lambda>_. Some sample_qti_item),
      qe_mkdir_fails = False, qe_media_fails = (\<lambda>_. False), qe_copy_fails = (\<lambda>_. None),
      qe_close_fails = (\<lambda>_. False), qe_remove_fails = (\<lambda>_. False), qe_media_name = (\<lambda>k. replicate k CHR ''x''),
      qe_order = (\<lambda>_ urls. urls), qe_draws = (\<lambda>_ i. Some 0), qe_item_id = (\<lambda>k. replicate k CHR ''i'')\<rparr>"

definition sample_hook :: "completion_payload hook_env" where
  "sample_hook =
     \<lparr>he_unicode = ascii_unicode, he_net = sample_net, he_policy = \<lparr>allowed_hosts = [''*.example.com'']\<rparr>,
      he_cipher = Some sample_aead, he_hmac = (\<lambda>k m. [length k, length m]), he_marshal = (\<lambda>e. Some ''{}''),
      he_new_request_ok = (\<lambda>_. True), he_error_text = (\<lambda>_. ''failed'')\<rparr>"

text \<open>A handler environment whose decoder reads the one body of the sample requests as needed.\<close>

definition sample_handler :: "time \<Rightarrow> string \<Rightarrow> handler_env" where
  "sample_handler now nid =
     \<lparr>he_gorm = healthy, he_clock = now, he_clock2 = now, he_id = nid, he_service = demo_svc, he_scorer = demo_scorer,
      he_bind_start = (\<lambda>_. Some ''delivery-demo-01''), he_bind_save = (\<lambda>_. Some (''item-demo-02'', ''C, A'')),
      he_bind_event = (\<lambda>_. None)\<rparr>"

definition request_by :: "layer_env \<Rightarrow> time \<Rightarrow> string \<Rightarrow> request_env" where
  "request_by E now nid =
     \<lparr>re_layers = E, re_handler = sample_handler now nid, re_lti = lms_handler, re_launch = lms_launch,
      re_hook = sample_hook, re_bind_webhook = (\<lambda>_. None),
      re_qti = \<lparr>qh_env = sample_qti, qh_form_file = (\<lambda>_ _. FormFileMissing), qh_temp_file = True,
        qh_close_fails = False, qh_zip_entries = (\<lambda>_. None)\<rparr>,
      re_now2 = now, re_state = ''st'', re_nonce = ''n'', re_rnd1 = (\<lambda>n. Some (replicate n 1)),
      re_rnd2 = (\<lambda>n. Some (replicate n 2)), re_row_gorm = (\<lambda>_. healthy), re_time_zone = 0,
      re_ping = Some True, re_static = (\<lambda>_ _. 404), re_runtime = (1, 0)\<rparr>"

definition sample_world :: "db \<Rightarrow> world" where
  "sample_world d =
     \<lparr>w_server = sample_server, w_db = d, w_queue = [], w_cache = [], w_files = [], w_grades = [], w_launches = []\<rparr>"

definition sessions_group :: route_group where
  "sessions_group = \<lparr>gr_prefix = ''/api/v1/sessions'', gr_layers = [AuthLayer]\<rparr>"

definition save_route :: route where
  "save_route = handle sessions_group ''POST'' ''/:id/response'' [RateLayer] EpSaveResponse"

definition submit_route :: route where
  "submit_route = handle sessions_group ''POST'' ''/:id/submit'' [] EpSubmitSession"

lemma session_routes_registered: "save_route \<in> set all_routes" "submit_route \<in> set all_routes"
  by (simp_all add: save_route_def submit_route_def sessions_group_def all_routes_def protected_routes_def Let_def
      handle_def use_layers_def sub_group_def root_group_def)

lemma session_routes [simp]:
  "rt_layers start_route = [AuthLayer]" "rt_layers save_route = [AuthLayer, RateLayer]"
  "rt_layers submit_route = [AuthLayer]" "rt_endpoint start_route = EpStartSession"
  "rt_endpoint save_route = EpSaveResponse" "rt_endpoint submit_route = EpSubmitSession"
  by (simp_all add: start_route_def save_route_def submit_route_def sessions_group_def handle_def)

lemma request_by_parts [simp]:
  "re_layers (request_by E now nid) = E" "re_handler (request_by E now nid) = sample_handler now nid"
  "re_lti (request_by E now nid) = lms_handler"
  "he_service (sample_handler now nid) = demo_svc" "he_scorer (sample_handler now nid) = demo_scorer"
  "he_gorm (sample_handler now nid) = healthy" "he_clock (sample_handler now nid) = now"
  "he_clock2 (sample_handler now nid) = now" "he_id (sample_handler now nid) = nid"
  "he_bind_start (sample_handler now nid) b = Some ''delivery-demo-01''"
  "he_bind_save (sample_handler now nid) b = Some (''item-demo-02'', ''C, A'')"
  by (simp_all add: request_by_def sample_handler_def)

lemma request_by_parts_services:
  "he_service (re_handler (request_by E now nid)) = demo_svc" "he_scorer (re_handler (request_by E now nid)) = demo_scorer"
  by simp_all

section \<open>A session over HTTP\<close>

lemma alice_starts:
  assumes "w_db w = demo_db"
  shows "\<exists>r srv. serve (request_by sample_env 0 ''s1'') start_route (sample_request ''Bearer tok'') w
      = (r, w\<lparr>w_server := srv, w_db := demo_started\<rparr>, []) \<and> limiter srv = limiter (w_server w)"
  using sample_passes [of start_route "[]" "w_server w"] assms
  by (auto simp: serve_def with_db_def start_session_handler_def demo_start)

lemma alice_answers:
  assumes "visitors (limiter (w_server w)) = []" and "w_db w = demo_started"
  shows "\<exists>r srv. serve (request_by sample_env 1 ''r1'') save_route (sample_request ''Bearer tok'') w
      = (r, w\<lparr>w_server := srv, w_db := demo_answered\<rparr>, [])"
  using sample_passes [of save_route "[RateLayer]" "w_server w"] assms
  by (auto simp: serve_def with_db_def save_response_handler_def demo_save)

abbreviation demo_effects :: "effect list" where
  "demo_effects \<equiv> completion_effects demo_svc (demo_finished, [demo_scored])"

lemma alice_submits:
  assumes "w_db w = demo_answered"
  shows "\<exists>r w'. serve (request_by sample_env 60000000000 ''s3'') submit_route (sample_request ''Bearer tok'') w
      = (r, w', demo_effects) \<and> w_db w' = demo_completed"
  using sample_passes [of submit_route "[]" "w_server w"] assms
  by (auto simp: serve_def submit_session_handler_def demo_submit)

text \<open>The whole run.\<close>

lemma alice_run:
  assumes "w_db w = demo_db" and "visitors (limiter (w_server w)) = []"
  obtains w' where "server_run demo_svc demo_scorer UNIV w demo_effects w'" "w_db w' = demo_completed"
proof -
  obtain r1 srv where s1: "serve (request_by sample_env 0 ''s1'') start_route (sample_request ''Bearer tok'') w
      = (r1, w\<lparr>w_server := srv, w_db := demo_started\<rparr>, [])" "limiter srv = limiter (w_server w)"
    using alice_starts [OF assms(1)] by blast
  let ?w1 = "w\<lparr>w_server := srv, w_db := demo_started\<rparr>"
  obtain r2 srv2 where s2: "serve (request_by sample_env 1 ''r1'') save_route (sample_request ''Bearer tok'') ?w1
      = (r2, ?w1\<lparr>w_server := srv2, w_db := demo_answered\<rparr>, [])"
    using alice_answers [of ?w1] assms(2) s1(2) by auto
  let ?w2 = "?w1\<lparr>w_server := srv2, w_db := demo_answered\<rparr>"
  obtain r3 w3 where s3: "serve (request_by sample_env 60000000000 ''s3'') submit_route (sample_request ''Bearer tok'') ?w2
      = (r3, w3, demo_effects)" "w_db w3 = demo_completed"
    using alice_submits [of ?w2] by auto
  note step = step_request [OF _ request_by_parts_services UNIV_I]
  have "server_run demo_svc demo_scorer UNIV w ((([] @ []) @ []) @ demo_effects) w3"
    by (rule run_step [OF run_step [OF run_step [OF run_init]]])
      (rule step [OF start_route_registered s1(1)] step [OF session_routes_registered(1) s2]
        step [OF session_routes_registered(2) s3(1)])+
  with that s3(2) show thesis by simp
qed

lemma sample_fresh: "fresh_world (sample_world demo_db)"
  by (simp add: fresh_world_def sample_world_def sample_server_def new_rate_limiter_def demo_no_sessions)

lemma sample_run:
  obtains w where "server_run demo_svc demo_scorer UNIV (sample_world demo_db) demo_effects w" "w_db w = demo_completed"
  by (rule alice_run [of "sample_world demo_db"]) (auto simp: sample_world_def sample_server_def new_rate_limiter_def)

lemma server_invariant_witness:
  "\<exists>w. server_run demo_svc demo_scorer UNIV (sample_world demo_db) demo_effects w \<and> test_sessions (w_db w) = [demo_finished]
     \<and> map s_attempt (filter (of_user ''delivery-demo-01'' ''alice'') (test_sessions (w_db w))) = [1]
     \<and> count_where (open_of ''delivery-demo-01'' ''alice'') (test_sessions (w_db w)) \<le> 1"
proof -
  obtain w where run: "server_run demo_svc demo_scorer UNIV (sample_world demo_db) demo_effects w" and d: "w_db w = demo_completed"
    by (rule sample_run)
  have rows: "test_sessions (w_db w) = [demo_finished]" by (simp add: d demo_completed_def)
  have "attempts_of ''delivery-demo-01'' ''alice'' (w_db w) = 1"
    by (simp add: attempts_of_def rows of_user_def)
  with server_invariant [OF sample_fresh run, of "''delivery-demo-01''" "''alice''"] run rows show ?thesis by auto
qed

lemma server_attempts_bounded_witness:
  "\<exists>w. server_run demo_svc demo_scorer UNIV (sample_world demo_db) demo_effects w
     \<and> int (attempts_of ''delivery-demo-01'' ''alice'' (w_db w)) \<le> 1"
proof -
  obtain w where run: "server_run demo_svc demo_scorer UNIV (sample_world demo_db) demo_effects w"
    by (rule sample_run)
  have "deliveries (w_db (sample_world demo_db)) = [demo_delivery healthy ''t'']" by (simp add: sample_world_def)
  then have "demo_delivery healthy ''t'' \<in> set (deliveries (w_db (sample_world demo_db)))"
      "distinct (map d_id (deliveries (w_db (sample_world demo_db))))" by simp_all
  from server_attempts_bounded [OF sample_fresh run this, of "''alice''"] run show ?thesis
    by (auto simp: effective_max_attempts_def)
qed

lemma completions_sent_once_witness:
  "\<exists>w. server_run demo_svc demo_scorer UNIV (sample_world demo_db) demo_effects w
     \<and> concat (map graded_of demo_effects) = [''s1''] \<and> distinct (concat (map graded_of demo_effects))
     \<and> ''s1'' \<in> s_id ` {s \<in> set (test_sessions (w_db w)). s_status s = Completed}"
proof -
  obtain w where run: "server_run demo_svc demo_scorer UNIV (sample_world demo_db) demo_effects w"
    by (rule sample_run)
  have "concat (map graded_of demo_effects) = [''s1'']" by (simp add: completion_effects_def demo_svc_def)
  with completions_sent_once [OF world_inv_fresh [OF sample_fresh] run] run show ?thesis by auto
qed

lemma server_refines_machine_witness:
  "machine_step\<^sup>*\<^sup>* (view_db demo_db) (view_db demo_completed) \<and> view_db demo_db ''s1'' = None
   \<and> (\<exists>v. view_db demo_completed ''s1'' = Some v \<and> (\<exists>a. av_phase v = Finished (Fin 10) a))"
proof -
  obtain w where run: "server_run demo_svc demo_scorer UNIV (sample_world demo_db) demo_effects w" and d: "w_db w = demo_completed"
    by (rule sample_run)
  have "w_db (sample_world demo_db) = demo_db" by (simp add: sample_world_def)
  with server_refines_machine [OF world_inv_fresh [OF sample_fresh] run] d
  show ?thesis by (simp add: view_db_def view_session_def demo_completed_def)
qed

text \<open>Submitting once more, after the session has been completed.\<close>

lemma finished_world: "world_inv (sample_world demo_completed)"
proof -
  obtain w where run: "server_run demo_svc demo_scorer UNIV (sample_world demo_db) demo_effects w" and d: "w_db w = demo_completed"
    by (rule sample_run)
  with world_inv_run [OF run world_inv_fresh [OF sample_fresh]] show ?thesis
    by (simp add: world_inv_def sample_world_def sample_server_def new_rate_limiter_def rl_inv_def cache_strong_empty)
qed

lemma server_results_final_witness:
  "\<exists>tr w. server_run demo_svc demo_scorer UNIV (sample_world demo_completed) tr w
     \<and> demo_finished \<in> set (test_sessions (w_db w)) \<and> responses_of ''s1'' (w_db w) = [demo_scored]"
proof -
  obtain r w effs where s: "serve (request_by sample_env 90000000000 ''s9'') submit_route (sample_request ''Bearer tok'')
      (sample_world demo_completed) = (r, w, effs)"
    by (metis prod.collapse)
  have run: "server_run demo_svc demo_scorer UNIV (sample_world demo_completed) ([] @ effs) w"
    by (rule run_step [OF run_init step_request [OF session_routes_registered(2) request_by_parts_services UNIV_I s]])
  have rows: "test_sessions (w_db (sample_world demo_completed)) = [demo_finished]"
      "responses_of ''s1'' (w_db (sample_world demo_completed)) = [demo_scored]"
    by (simp_all add: sample_world_def demo_completed_def responses_of_def demo_scored_def demo_response_def)
  from server_results_final [OF finished_world _ _ run, of demo_finished] rows run show ?thesis by auto
qed

text \<open>\<open>bob\<close> presents his own token beside the running session of \<open>alice\<close>.\<close>

definition bob_env :: layer_env where
  "bob_env = sample_env\<lparr>le_jwt := sample_jwt\<lparr>jwt_parse := (\<lambda>cfg t tok. if tok = ''tok'' then Some (sample_claims\<lparr>cl_user_id := ''bob''\<rparr>) else None)\<rparr>\<rparr>"

lemma requests_keep_other_users_witness:
  "demo_session \<in> set (test_sessions (w_db (fst (snd
     (serve (request_by bob_env 5 ''s2'') submit_route (sample_request ''Bearer tok'') (sample_world demo_started))))))"
proof -
  obtain r w' effs where s: "serve (request_by bob_env 5 ''s2'') submit_route (sample_request ''Bearer tok'')
      (sample_world demo_started) = (r, w', effs)"
    by (metis prod.collapse)
  have "w_db (sample_world demo_started) = demo_started" by (simp add: sample_world_def)
  moreover have "demo_session \<in> set (test_sessions demo_started)" by (simp add: demo_started_def)
  moreover have "\<forall>cl. authenticates (le_jwt bob_env) (le_config bob_env) (le_now bob_env) (sample_request ''Bearer tok'') cl \<longrightarrow>
        s_user_id demo_session \<noteq> cl_user_id cl \<and> s_user_id demo_session \<noteq> trim_space (cl_user_id cl)"
    by (auto simp: authenticates_def bob_env_def sample_env_def go_simps split: if_splits)
  ultimately have "demo_session \<in> set (test_sessions (w_db w'))
      \<and> responses_of (s_id demo_session) (w_db w') = responses_of (s_id demo_session) (w_db (sample_world demo_started))"
    using requests_keep_other_users [OF session_routes_registered(2) s, of demo_session] demo_invariants(2) by simp
  then show ?thesis by (simp add: s)
qed

section \<open>A launch\<close>

definition launch_route :: route where
  "launch_route = handle \<lparr>gr_prefix = ''/api/v1/lti'', gr_layers = [RateLayer]\<rparr> ''POST'' ''/launch'' [] EpLtiLaunch"

definition launch_world :: world where
  "launch_world = (sample_world lms_db)\<lparr>w_cache := lms_cache\<rparr>"

definition launch_request :: request_env where
  "launch_request = (request_by sample_env 0 ''s1'')\<lparr>re_launch := lms_launch, re_lti := lms_handler\<rparr>"

lemma launch_request_parts [simp]:
  "re_layers launch_request = sample_env" "re_lti launch_request = lms_handler" "re_launch launch_request = lms_launch"
  "re_handler launch_request = sample_handler 0 ''s1''" "re_now2 launch_request = 0"
  by (simp_all add: launch_request_def request_by_def)

lemma global_layers_query: "run_chain (global_layers E) s c = (s', Next c') \<Longrightarrow> cx_raw_query c' = cx_raw_query c"
  by (auto simp: global_layers_def metrics_collector_def security_headers_def json_body_limit_def set_header_def
      split: option.splits if_splits)

text \<open>A launch request passes its layers when its client has not been counted before.\<close>

lemma launch_passes:
  assumes "visitors (limiter s) = []"
  shows "\<exists>s' c' ip. serve_layers sample_env launch_route s (sample_request h) = (s', Next c')
    \<and> parse_lti_form lms_handler c' = Form [(''id_token'', [''tok'']), (''state'', [''st''])]
    \<and> get_header c' ''Content-Type'' \<noteq> [] \<and> cx_raw_query c' = []
    \<and> visitors (limiter s') = [(ip, \<lparr>last_seen = second, v_count = 1\<rparr>)] \<and> rl_window (limiter s') = rl_window (limiter s)"
proof -
  obtain s1 c1 where g: "run_chain (global_layers sample_env) s (sample_request h) = (s1, Next c1)" "limiter s1 = limiter s"
    using sample_global by blast
  have c1: "get_header c1 ''Content-Type'' \<noteq> []" "cx_raw_query c1 = []"
    using global_layers_Next [OF g(1)] global_layers_query [OF g(1)] by (simp_all add: get_header_def sample_request_def)
  have "run_layer sample_env RateLayer s1 c1
      = (s1\<lparr>limiter := (limiter s)\<lparr>visitors := [(cx_client_ip c1, \<lparr>last_seen = second, v_count = 1\<rparr>)]\<rparr>\<rparr>, Next c1)"
    using g(2) assms by (simp add: rate_limit_def admit_def max_tracked_clients_def sample_env_def)
  then show ?thesis
    using c1 lms_form [OF c1] by (simp add: serve_layers_def run_chain_append g launch_route_def handle_def)
qed

lemma launch_world_inv: "world_inv launch_world"
proof -
  have "no_sessions lms_db" by (simp add: no_sessions_def lms_db_def)
  then show ?thesis
    using lms_cache_strong
    by (simp add: world_inv_def launch_world_def sample_world_def sample_server_def new_rate_limiter_def rl_inv_def
        session_inv_initial no_sessions_def)
qed

lemma launch_served:
  "\<exists>ex w1 effs. serve launch_request launch_route (sample_request ''x'') launch_world
      = ((200, LtiReply (LtiSession lms_session ''tok'' ex)), w1, effs)
    \<and> w_db w1 = lms_launched \<and> rl_window (limiter (w_server w1)) = second
    \<and> (\<exists>ip. visitors (limiter (w_server w1)) = [(ip, \<lparr>last_seen = second, v_count = 1\<rparr>)])"
proof -
  have fresh: "visitors (limiter (w_server launch_world)) = []" "rl_window (limiter (w_server launch_world)) = second"
    by (simp_all add: launch_world_def sample_world_def sample_server_def new_rate_limiter_def)
  obtain s' c' ip where p: "serve_layers sample_env launch_route (w_server launch_world) (sample_request ''x'') = (s', Next c')"
      "get_header c' ''Content-Type'' \<noteq> []" "cx_raw_query c' = []"
      "visitors (limiter s') = [(ip, \<lparr>last_seen = second, v_count = 1\<rparr>)]" "rl_window (limiter s') = second"
    using launch_passes [OF fresh(1), of "''x''"] fresh(2) by auto
  obtain ex where "launch_handler lms_handler lms_launch (\<lambda>_ d. d) 0 0 c' lms_cache lms_db
      = ((200, LtiSession lms_session ''tok'' ex), lms_cache, lms_launched)"
    using lms_handler_launch [OF p(2,3)] by blast
  moreover have "rt_endpoint launch_route = EpLtiLaunch" by (simp add: launch_route_def handle_def)
  moreover have "w_cache launch_world = lms_cache" "w_db launch_world = lms_db"
    by (simp_all add: launch_world_def sample_world_def)
  ultimately show ?thesis using p by (simp add: serve_def)
qed

lemma launches_not_replayed_witness:
  "\<exists>w1 w2 tr status w3. server_run demo_svc demo_scorer {''other''} w1 tr w2 \<and> w_db w1 = lms_launched
     \<and> serve launch_request launch_route (sample_request ''x'') w2 = ((status, LtiReply LtiError), w3, [])
     \<and> w_db w3 = w_db w2"
proof -
  obtain ex w1 effs ip where w1: "serve launch_request launch_route (sample_request ''x'') launch_world
      = ((200, LtiReply (LtiSession lms_session ''tok'' ex)), w1, effs)"
    "w_db w1 = lms_launched" "rl_window (limiter (w_server w1)) = second"
    "visitors (limiter (w_server w1)) = [(ip, \<lparr>last_seen = second, v_count = 1\<rparr>)]"
    using launch_served by blast
  define w2 where "w2 = w1\<lparr>w_server := (w_server w1)\<lparr>limiter := cleanup (limiter (w_server w1)) (100 * second)\<rparr>\<rparr>"
  have run: "server_run demo_svc demo_scorer {''other''} w1 ([] @ []) w2"
    unfolding w2_def by (rule run_step [OF run_init step_cleanup])
  have route: "rt_endpoint launch_route = EpLtiLaunch" by (simp add: launch_route_def handle_def)
  have "visitors (limiter (w_server w2)) = []"
    by (simp add: w2_def cleanup_def w1(3,4) expired_def time_sub_def second_def)
  then have "presented_state launch_request launch_route (sample_request ''x'') w2 = Some ''st''"
    using launch_passes [of "w_server w2" "''x''"] by (auto simp: presented_state_def values_get_def)
  moreover have "visitors (limiter (w_server launch_world)) = []"
    by (simp add: launch_world_def sample_world_def sample_server_def new_rate_limiter_def)
  then have "presented_state launch_request launch_route (sample_request ''x'') launch_world = Some ''st''"
    using launch_passes [of "w_server launch_world" "''x''"] by (auto simp: presented_state_def values_get_def)
  moreover have "distinct (map os_state (lti_oidc_states (w_db launch_world)))"
    by (simp add: launch_world_def sample_world_def lms_db_def)
  ultimately show ?thesis
    using launches_not_replayed [OF launch_world_inv _ route _ w1(1) run _ route] run w1(2) by blast
qed

text \<open>The tables of the platform, before and after the launch.\<close>

lemma launch_registered: "launch_route \<in> set all_routes"
  by (simp add: launch_route_def all_routes_def protected_routes_def Let_def handle_def use_layers_def sub_group_def root_group_def)

lemma lms_db_well_formed: "db_well_formed lms_db"
proof -
  have "platform_ok lms_platform" by (simp add: platform_ok_def lms_platform_def lms_url_def)
  moreover have "state_ok lms_db lms_state" by (simp add: state_ok_def lms_db_def lms_state_def oidc_state_row_def)
  moreover have "list_all (resource_link_ok lms_db) (lti_resource_links lms_db)"
    by (simp add: resource_link_ok_def lms_db_def lms_platform_def demo_delivery_def)
  moreover have "unique_rows item_clash (items lms_db)"
    by (simp add: lms_db_def unique_rows_def clash_on_def demo_item_1_def demo_item_2_def)
  moreover have "proctor_events demo_db = []" "webhook_configs demo_db = []" "webhook_logs demo_db = []" "lti_link_sessions demo_db = []"
    by (simp_all add: demo_db_def seed_demo_data_def empty_db_def)
  ultimately show ?thesis
    by (simp add: db_well_formed_def) (simp add: unique_rows_def lms_db_def)
qed

lemma server_keeps_tables_witness:
  "\<exists>w. server_run demo_svc demo_scorer UNIV launch_world [] w \<and> w_db w = lms_launched \<and> db_well_formed lms_launched
     \<and> state_ok lms_launched (lms_state\<lparr>os_used_at := Some 1\<rparr>)"
proof -
  obtain ex w1 effs where w1: "serve launch_request launch_route (sample_request ''x'') launch_world
      = ((200, LtiReply (LtiSession lms_session ''tok'' ex)), w1, effs)" "w_db w1 = lms_launched"
    using launch_served by blast
  moreover have "rt_endpoint launch_route = EpLtiLaunch" by (simp add: launch_route_def handle_def)
  ultimately have "effs = []" by (auto simp: serve_def split: prod.splits outcome.splits)
  with w1(1) have "server_step demo_svc demo_scorer UNIV launch_world [] w1"
    by (intro step_request [OF launch_registered, of launch_request]) (simp_all add: sample_handler_def)
  then have run: "server_run demo_svc demo_scorer UNIV launch_world ([] @ []) w1" by (rule run_step [OF run_init])
  have "db_well_formed (w_db launch_world)" using lms_db_well_formed by (simp add: launch_world_def sample_world_def)
  from server_keeps_tables [OF launch_world_inv this run] have "db_well_formed lms_launched" by (simp add: w1(2))
  moreover from this have "state_ok lms_launched (lms_state\<lparr>os_used_at := Some 1\<rparr>)"
    by (simp add: db_well_formed_def) (simp add: lms_launched_def lms_claimed_def)
  ultimately show ?thesis using run w1(2) by auto
qed

section \<open>Starting\<close>

text \<open>The encoding of 32 zero bytes.\<close>

definition zero_key :: string where
  "zero_key = replicate 43 CHR ''A'' @ ''=''"

lemma decode_zeros: "decode_sextets (replicate (4 * k + 3) 0) = Some (replicate (3 * k + 2) 0)"
proof (induction k)
  case (Suc k)
  have "replicate (4 * Suc k + 3) (0 :: nat) = 0 # 0 # 0 # 0 # replicate (4 * k + 3) 0"
      "replicate (3 * Suc k + 2) (0 :: nat) = 0 # 0 # 0 # replicate (3 * k + 2) 0"
    by (simp_all add: eval_nat_numeral)
  with Suc show ?case by simp
qed (simp add: numeral_3_eq_3 numeral_2_eq_2)

lemma zero_key_decodes: "std_decode (trim_space zero_key) = Some (replicate 32 0)"
proof -
  have zeros: "sextets std_sextet (replicate n CHR ''A'') = Some (replicate n 0)" for n
    by (induction n) (simp_all add: std_sextet_def char_sextet_def)
  have "suffix ''=='' zero_key = False" "suffix ''='' zero_key"
    by (simp_all add: zero_key_def suffix_to_prefix eval_nat_numeral)
  moreover have "length zero_key = 44" "take 43 zero_key = replicate 43 CHR ''A''"
    by (simp_all add: zero_key_def)
  moreover have "drop_newlines zero_key = zero_key"
    by (simp add: drop_newlines_def zero_key_def filter_replicate)
  ultimately have "strip_padding (drop_newlines zero_key) = Some (replicate 43 CHR ''A'')"
    by (simp add: strip_padding_def)
  moreover have "trim_space zero_key = zero_key"
    by (rule trim_space_graphic) (simp add: zero_key_def graphic_def)
  moreover have "decode_sextets (replicate 43 0) = Some (replicate 32 0)" using decode_zeros [of 10] by simp
  ultimately show ?thesis by (simp add: std_decode_def zeros)
qed

text \<open>A migrator that creates what is asked for.\<close>

definition sample_migrator :: migrator where
  "sample_migrator =
     \<lparr>mg_auto = (\<lambda>ts s. (\<lparr>sc_tables = sc_tables s @ ts,
        sc_indexes = sc_indexes s @ concat (map (\<lambda>t. map (Pair t) (declared_indexes t)) ts)\<rparr>, True)),
      mg_drop = (\<lambda>ix s. (s\<lparr>sc_indexes := filter (\<lambda>x. x \<noteq> ix) (sc_indexes s)\<rparr>, True))\<rparr>"

definition empty_schema :: schema where
  "empty_schema = \<lparr>sc_tables = [], sc_indexes = []\<rparr>"

lemma sample_migrate: "\<exists>s. migrate sample_migrator (Some empty_schema) = (Some s, None)"
proof -
  have fresh: "legacy_index \<notin> set (concat (map (\<lambda>t. map (Pair t) (declared_indexes t)) schema_models))"
    by (simp add: legacy_index_def schema_models_def)
  have "schema_complete \<lparr>sc_tables = schema_models,
      sc_indexes = concat (map (\<lambda>t. map (Pair t) (declared_indexes t)) schema_models)\<rparr>"
    by (simp add: schema_complete_def schema_models_def required_indexes_def)
  then have "verify_schema (Some \<lparr>sc_tables = schema_models,
      sc_indexes = concat (map (\<lambda>t. map (Pair t) (declared_indexes t)) schema_models)\<rparr>) = None"
    by (simp only: verify_schema_None)
  with fresh show ?thesis by (simp add: migrate_def sample_migrator_def empty_schema_def)
qed

definition sample_config :: server_config where
  "sample_config =
     \<lparr>sv_jwt = sample_jwt_config, sv_encryption_key = zero_key, sv_mode = ''release'', sv_driver = ''sqlite'',
      sv_dsn = ''tao.db'', sv_allow_insecure = False, sv_max_open = 25, sv_max_idle = 5, sv_seed_demo = False,
      sv_webhook_hosts = ''p.ex'', sv_webhook_workers = 0, sv_trusted_proxies = []\<rparr>"

definition sample_startup :: startup_env where
  "sample_startup =
     \<lparr>se_unicode = ascii_unicode, se_gcm = (\<lambda>_. Some sample_aead), se_connects = True, se_ping = True,
      se_migrator = sample_migrator, se_gorm = healthy, se_ids = (''t'', ''sec'', ''ti1'', ''ti2''),
      se_proxies_ok = (\<lambda>_. True)\<rparr>"

lemma sample_start:
  "\<exists>sd' st. start_server sample_startup sample_config (empty_schema, empty_db) = (sd', Inr st)"
proof -
  have cipher: "new_secret_cipher (\<lambda>_. Some sample_aead) zero_key = Inr sample_aead"
    by (simp add: new_secret_cipher_def zero_key_decodes)
  have sqlite: "open_driver ascii_unicode ''sqlite'' = Some Sqlite" "is_sqlite_driver ascii_unicode ''sqlite''"
    by (simp_all add: open_driver_def is_sqlite_driver_def driver_name_def go_simps)
  have hosts: "comma_fields ''p.ex'' = [''p.ex'']" by (simp add: comma_fields_def)
  obtain s where "migrate sample_migrator (Some empty_schema) = (Some s, None)" using sample_migrate by blast
  then show ?thesis
    by (simp add: start_server_def sample_config_def sample_startup_def sample_config_valid cipher sqlite
        validate_transport_security_def pool_limits_def start_services_def new_webhook_policy_def hosts lms_policy)
qed

lemma safe_start_witness:
  "\<exists>sd' st. start_server sample_startup sample_config (empty_schema, empty_db) = (sd', Inr st)
     \<and> schema_complete (fst sd') \<and> st_pool st = (1, 1)"
proof -
  obtain sd' st where run: "start_server sample_startup sample_config (empty_schema, empty_db) = (sd', Inr st)"
    using sample_start by blast
  have "open_driver ascii_unicode ''sqlite'' = Some Sqlite"
    by (simp add: open_driver_def driver_name_def go_simps)
  with safe_start [OF run] run show ?thesis by (simp add: sample_startup_def sample_config_def)
qed

definition sample_cli :: cli_env where
  "sample_cli =
     \<lparr>cli_unicode = ascii_unicode,
      cli_getenv = (\<lambda>v. if v = ''DATABASE_DRIVER'' then ''postgres''
        else if v = ''DATABASE_DSN'' then ''sslmode=disable'' else []),
      cli_mode = ''up'', cli_connects = True, cli_migrator = sample_migrator\<rparr>"

lemma migrate_command_guarded_witness:
  "fst (run_migrate_command sample_cli empty_schema) = empty_schema
   \<and> snd (run_migrate_command sample_cli empty_schema) \<noteq> Completed_ok"
proof -
  have dsn: "string_contains (to_lower ascii_unicode ''sslmode=disable'') ''sslmode=disable''"
    by (simp add: string_contains_def go_simps)
  moreover have "\<not> is_sqlite_driver ascii_unicode (trim_space ''postgres'')"
    by (simp add: is_sqlite_driver_def driver_name_def go_simps)
  moreover have "trim_space ''sslmode=disable'' = ''sslmode=disable''" by (simp add: go_simps)
  moreover have "parse_bool [] \<noteq> Some True" by (simp add: parse_bool_def)
  ultimately show ?thesis
    using migrate_command_guarded [of sample_cli empty_schema]
    by (simp add: sample_cli_def split: prod.splits)
qed

section \<open>An imported item\<close>

lemma sample_item: "\<exists>it. item_of_qti sample_qti 0 [] sample_qti_item = Some it \<and> i_correct_answer it = ''A''"
proof -
  have trim: "trim_space ''1'' = ''1''" "trim_space ''2'' = ''2''" "trim_space ''y'' = ''y''"
    by (simp_all add: go_simps)
  have choices: "import_choices sample_qti_item =
      Some [\<lparr>c_identifier = ''x'', c_text = ''1''\<rparr>, \<lparr>c_identifier = ''y'', c_text = ''2''\<rparr>]"
    by (simp add: import_choices_def sample_qti_item_def trim)
  have letter: "letter 0 = ''A''" by code_simp
  have "\<exists>options m. balance_options_key (qe_draws sample_qti 0)
      [\<lparr>c_identifier = ''x'', c_text = ''1''\<rparr>, \<lparr>c_identifier = ''y'', c_text = ''2''\<rparr>] = Inr (options, m)
      \<and> m ''y'' = Some ''A''"
    by (simp add: balance_options_key_def sample_qti_def swap_at_def letter)
  then obtain options m where "balance_options_key (qe_draws sample_qti 0)
      [\<lparr>c_identifier = ''x'', c_text = ''1''\<rparr>, \<lparr>c_identifier = ''y'', c_text = ''2''\<rparr>] = Inr (options, m)" "m ''y'' = Some ''A''"
    by blast
  note bal = this
  have "remap_answer m ''y'' = Some ''A''" using bal(2) by (simp add: remap_answer_def trim)
  moreover have "qi_identifier sample_qti_item = ''q1''" "qi_title sample_qti_item = ''t''" "qi_prompt sample_qti_item = ''p''"
      "qi_correct sample_qti_item = [''y'']" "qi_default_value sample_qti_item = Fin 2"
    by (simp_all add: sample_qti_item_def)
  ultimately show ?thesis using bal(1) choices by (simp add: item_of_qti_def)
qed

lemma answer_follows_options_witness:
  "\<exists>it options. item_of_qti sample_qti 0 [] sample_qti_item = Some it
     \<and> i_correct_answer it = ''A'' \<and> i_options_json it = options_json options \<and> map c_identifier options = [letter 0, letter 1]
     \<and> (\<exists>c \<in> set options. c_identifier c = ''A'' \<and> c_text c = ''2'')"
proof -
  obtain it where it: "item_of_qti sample_qti 0 [] sample_qti_item = Some it" "i_correct_answer it = ''A''"
    using sample_item by blast
  have trim: "trim_space ''2'' = ''2''" "trim_space ''y'' = ''y''" by (simp_all add: go_simps)
  have "distinct (map qc_identifier (qi_choices sample_qti_item))" by (simp add: sample_qti_item_def)
  moreover have "draws_ok (qe_draws sample_qti 0) (length (qi_choices sample_qti_item))"
    by (simp add: draws_ok_def sample_qti_def)
  ultimately show ?thesis
    using answer_follows_options [OF it(1)] it trim
    by (fastforce simp: sample_qti_item_def upt_rec)
qed

definition sample_package :: package where
  "sample_package =
     \<lparr>pk_stat = Some (True, 200),
      pk_entries = Some [\<lparr>ze_name = ''a.xml'', ze_uncompressed = 10, ze_compressed = 10,
        ze_content = Some \<lparr>body_bytes = ''<x/>'', body_breaks = False\<rparr>\<rparr>]\<rparr>"

lemma sample_import:
  "\<exists>its files d. import_qti_package sample_qti healthy sample_package [] empty_db = (Inr its, files, d)"
proof -
  let ?f = "\<lparr>ze_name = ''a.xml'', ze_uncompressed = 10 :: 64 word, ze_compressed = 10,
        ze_content = Some \<lparr>body_bytes = ''<x/>'', body_breaks = False\<rparr>\<rparr>"
  have opened: "open_package sample_package = Inr [?f]"
    by (simp add: open_package_def sample_package_def max_qti_package_size_def max_qti_entries_def
        max_qti_file_size_def max_qti_expanded_size_def max_qti_compression_ratio_def)
  have ext: "to_lower ascii_unicode (file_ext ''a.xml'') = ''.xml''"
    by (simp add: file_ext_def go_simps)
  have scanned: "scan_entries sample_qti 0 [?f] s = (None, s\<lparr>sc_xml := sc_xml s @ [?f]\<rparr>)" for s
    using ext by (simp add: sample_qti_def media_exts_def max_qti_xml_size_def)
  obtain it where it: "item_of_qti sample_qti 0 [] sample_qti_item = Some it" using sample_item by blast
  then have "parse_qti_xml_file sample_qti 0 [] ?f = Some it"
    by (simp add: parse_qti_xml_file_def read_limited_def max_qti_xml_size_def) (simp add: sample_qti_def)
  moreover have "items empty_db = []" by (simp add: empty_db_def)
  ultimately have "import_items sample_qti healthy [] 0 [?f] empty_db
      = Inr ([created_item healthy it], empty_db\<lparr>items := [created_item healthy it]\<rparr>)"
    by (simp add: insert_row_def)
  moreover have "\<not> qe_mkdir_fails sample_qti" by (simp add: sample_qti_def)
  ultimately show ?thesis
    by (simp add: import_qti_package_def opened scanned del: scan_entries.simps import_items.simps)
qed

lemma import_all_or_nothing_witness:
  "\<exists>its files. import_qti_package sample_qti healthy sample_package [] empty_db = (Inr its, files, empty_db\<lparr>items := its\<rparr>)
     \<and> its \<noteq> [] \<and> distinct (map i_id its)"
proof -
  obtain its files d where run: "import_qti_package sample_qti healthy sample_package [] empty_db = (Inr its, files, d)"
    using sample_import by blast
  have "items empty_db = []" by (simp add: empty_db_def)
  with import_all_or_nothing [where E = sample_qti and g = healthy and p = sample_package and files = "[]" and d = empty_db] run show ?thesis by auto
qed

end
