(* ===== verification/Spec2Isabelle.thy ===== *)
theory Spec2Isabelle
  imports ApiWitnesses ResultsExport Webhook ServerWitnesses QtiProps Database
begin

text \<open>
  A verification development for \<open>tao-core-go\<close>, an assessment server: students take tests (deliveries) over
  HTTP or launched from a learning platform by LTI 1.3, their answers are scored automatically, and results
  go out as a CSV file, as signed webhooks and as grades of the platform.

  \<^bold>\<open>The program and its model.\<close>  \<open>cmd/server/main.go\<close> reads the configuration, opens and migrates the
  database, builds the services of \<open>internal/service\<close> and registers the handlers of \<open>internal/handler\<close>
  behind the middlewares of \<open>internal/middleware\<close>.  A request passes the global middlewares and the layers of
  its route (token, role, rate limit), its handler binds the body and calls a service, and the service works on
  the database.  Completing a session publishes an event, queues webhook deliveries, which workers send, and
  starts a grade submission to the platform the session was launched from.  The model has the same parts: a
  record for each struct, an error datatype for the sentinel errors, one definition for each function and
  method, composed as the code composes them, up to \<open>serve\<close>, the answer to a request in the state of the whole
  server (\<open>world\<close>), and \<open>server_step\<close>, the steps of the running server.

  \<^bold>\<open>Theories and sources.\<close>

  \<^item> Shared: \<open>Prelude\<close> (rule collections, results of fallible functions, lists, the locales
    \<open>invariant_system\<close> and \<open>simulation\<close>); \<open>Store\<close> (rows, inserts, \<open>First\<close>, unique indexes, the locales
    \<open>unique_table\<close> and \<open>keyed_table\<close>); \<open>Models\<close> (\<open>internal/domain/models\<close>, the database, transactions).
  \<^item> What is used of Go's library, written out: \<open>GoStrings\<close>, \<open>GoTime\<close> (nanoseconds, saturating and wrapping
    durations), \<open>GoFloat\<close> (binary64 with rounding to nearest even), \<open>GoJson\<close>, \<open>GoUrl\<close>.
  \<^item> Sessions: \<open>Session\<close> and \<open>Scoring\<close> (\<open>session_service.go\<close>, \<open>scoring_service.go\<close>), with the invariant in
    \<open>SessionInvariants\<close>, the steps in \<open>SessionProps\<close>, the behaviour of each operation in \<open>SessionOps\<close>;
    \<open>Proctor\<close>, \<open>ResultsExport\<close> (\<open>proctor_service.go\<close>, \<open>results_export_service.go\<close> and its handler).
  \<^item> HTTP: \<open>Http\<close>, \<open>RateLimit\<close>, \<open>Auth\<close> (\<open>internal/middleware\<close>), \<open>Api\<close> (routes, layers, session and
    proctoring handlers), \<open>ServiceHandlers\<close> (webhook and upload handlers).
  \<^item> Outgoing: \<open>Outbound\<close> and \<open>SecretCipher\<close> (\<open>internal/security\<close>), \<open>EventBus\<close>, \<open>Webhook\<close>.
  \<^item> LTI, \<open>lti_service.go\<close> and its handler: \<open>Lti\<close> (registration, login), \<open>LtiKeys\<close> (key sets and their
    cache), \<open>LtiLaunch\<close>, \<open>LtiGrades\<close> (grade passback), \<open>LtiHandler\<close>.
  \<^item> Content and schema: \<open>Qti\<close>, \<open>QtiProps\<close> (\<open>qti_service.go\<close>); \<open>Database\<close> (\<open>database.go\<close>,
    \<open>cmd/migrate\<close>); \<open>Demo\<close> (\<open>seedDemoData\<close>).
  \<^item> The whole: \<open>Server\<close> (start, state, answers, steps); \<open>ServerProps\<close> (sessions, isolation, effects,
    safe start); \<open>ServedRelations\<close> (how a relation between databases is carried from the
    operations to the server), used by \<open>ServerStates\<close> (login states) and \<open>ServerTables\<close> (well-formed
    database); \<open>SessionMachine\<close> (the abstract machine of sessions and its refinement).
  \<^item> Concrete runs of the properties: \<open>SessionWitnesses\<close>, \<open>ApiWitnesses\<close>, \<open>LtiWitnesses\<close>, \<open>ServerWitnesses\<close>.

  \<^bold>\<open>State and steps.\<close>  \<open>world\<close> holds the request counter and rate limiter, the database, the queue of webhook
  events, the cache of platform keys, the media directory, the grade submissions and the launches under way.  A
  step answers a request on a registered route, does one piece of work beside the requests (a worker takes an event,
  a grade submission runs, a launch goes on) or cleans the rate limiter.  The session service and the scoring
  engine are fixed at the start; everything else a step reads (clocks, identifiers, random bytes, network
  answers, database failures) is arbitrary in each step.  The operations that run in a transaction lock the row
  they start from and are atomic.  A launch is no transaction: in \<open>server_step\<close> it may be
  interrupted after its verification and after each of its three changes of the database, and the lemmas on
  \<open>handle_launch\<close> allow other requests to change the database between any two statements.  Recording a proctor
  event, two statements in the code, is proved for an arbitrary change between them in \<open>Proctor\<close>; in
  \<open>server_step\<close> it is one step, as are the writes of one worker iteration.  Nothing subscribes to the event
  bus, so a publication has no further effect.

  \<^bold>\<open>What the lemmas show.\<close>
  Sessions: a user's attempts at a delivery are numbered without gap up to the maximum, at most one is open, a
  completed session is final, it is scored by the sum of its items and its effects are sent once, and all this
  holds for every run of the server, which refines the abstract machine of sessions.  Access: every route
  outside the public ones needs a valid token and the administrative ones the role \<open>ADMIN\<close>; no request touches
  the session of another user.  LTI: a launch succeeds only with a verified token, an unused state that is
  never usable again, and a mapped link; its token authenticates the student alone; keys accepted from
  platforms are strong and were answered for the platform's own key set URL; grades go to the platform only,
  signed with the registered key, and what is not sent has a stated cause.  Outgoing requests reach public
  addresses only.  Secrets are stored encrypted and come back; webhooks are signed and logged.
  Imports are all or nothing, within their limits, and keep answers with their options; a medium whose removal
  fails, an error the code ignores, is all a failed import can leave.  Results are exported so that they can be
  read back and not as formulas; a proctoring event never lowers a risk level.  The database stays well formed
  on the whole server; the server and the migration command run only on checked configurations.

  \<^bold>\<open>Interfaces.\<close>  The locales state what one part relies on in another and are interpreted on the model's own
  definitions: \<open>keyed_table\<close> (and by it \<open>unique_table\<close>) for every table that is written, \<open>scoring_contract\<close> for the scoring
  engine, \<open>channel\<close> for the bounded queue, \<open>secret_store\<close> for the cipher, \<open>served_relation\<close> for
  what is carried to the whole server, \<open>invariant_system\<close> and \<open>simulation\<close> for the refinement.

  \<^bold>\<open>Parameters.\<close>  Code outside the repository is an argument of the definitions: GORM and the database engine
  (record \<open>gorm\<close>: which statement fails, the collation, whether \<open>First\<close> adds the primary key of its destination,
  the clock), its migrator, the JWT library, AES-GCM, HMAC and RSA, key and certificate parsing, URL and
  address parsing and name resolution, HTTP exchanges, ZIP, XML and content sniffing, Gin's binding of JSON
  bodies, random bytes and clocks.  A property that needs more than arbitrary behaviour of one of them names
  the documented law as a hypothesis, and its witness instantiates the parameter with a concrete function.

  \<^bold>\<open>Bounds.\<close>  Machine integers are at their width where it matters: durations wrap at 64 bits and
  subtraction of times saturates, the sizes of a package, the totals of a proctoring report and the counters
  of the rate limiter are added in 64 bits, scores are binary64.  The theorems name the ranges in which nothing
  wraps: limits up to 9223372036 seconds, \<open>10 ^ 14\<close> events of a day each, \<open>2 ^ 63\<close> requests.
  The queue holds 100 events, the rate limiter 10000 clients, a log entry 4096 bytes of a response, a key set
  one MiB.  All loops are structural recursions or have a measure; no fuel is used: a launch ends within three
  steps because each step lowers the rank of its phase.

  \<^bold>\<open>Not modelled.\<close>  The text of the HTML page and of static files (the model has replies without content); how
  Viper finds a value in the environment or a file, logging, connection lifetimes, HTTP and request timeouts,
  and what the HTTP library does in a shutdown, which are calls into libraries; TLS and transport settings beyond the dialled address; error
  messages beyond the kind of error; write errors of the CSV connection.  Tests, documents, the JavaScript of
  the page and the container files are no part of the program's logic.
\<close>

end
